theory Spec2Isabelle
  imports Complex_Main
begin

section \<open>JavaScript values used by the EDI code\<close>

text \<open>
  Strings are lists of code units; only code units 0..255 are represented. A JavaScript
  \<^verbatim>\<open>number\<close> read from text is a finite value, an infinity or NaN. Finite doubles are
  rationals, so \<open>Num\<close> carries a rational; \<open>-0\<close> and \<open>0\<close> are not distinguished (the code
  only compares amounts with \<open>0\<close>).
\<close>

datatype jsnum = NaN | NegInf | Num rat | PosInf

text \<open>\<^verbatim>\<open>x > 0\<close>, \<^verbatim>\<open>x === 0\<close>, \<^verbatim>\<open>x <= 0\<close> and the truthiness of a number.\<close>

fun gt0 :: "jsnum \<Rightarrow> bool" where
  "gt0 (Num r) = (0 < r)"
| "gt0 PosInf = True"
| "gt0 _ = False"

fun eq0 :: "jsnum \<Rightarrow> bool" where
  "eq0 (Num r) = (r = 0)"
| "eq0 _ = False"

fun le0 :: "jsnum \<Rightarrow> bool" where
  "le0 (Num r) = (r \<le> 0)"
| "le0 NegInf = True"
| "le0 _ = False"

fun truthy :: "jsnum \<Rightarrow> bool" where
  "truthy NaN = False"
| "truthy (Num r) = (r \<noteq> 0)"
| "truthy _ = True"

text \<open>
  \<^verbatim>\<open>parseInt\<close> and \<^verbatim>\<open>parseFloat\<close> are built-ins of the language, not code of the
  repository. Every parser below takes them as parameters, so each theorem holds whatever
  they return. \<open>parseDecimal\<close> is the concrete instance used to run the parsers on sample
  files: it reads an optionally signed run of digits with an optional fraction, on which
  both built-ins return the value written (\<^verbatim>\<open>parseInt\<close> when there is no fraction).
\<close>

definition digit_val :: "char \<Rightarrow> nat" where
  "digit_val c = of_char c - 48"

definition is_digit :: "char \<Rightarrow> bool" where
  "is_digit c = (48 \<le> (of_char c :: nat) \<and> (of_char c :: nat) \<le> 57)"

fun digits_val :: "nat \<Rightarrow> string \<Rightarrow> nat" where
  "digits_val acc [] = acc"
| "digits_val acc (c # cs) = digits_val (10 * acc + digit_val c) cs"

definition unsigned_decimal :: "string \<Rightarrow> rat option" where
  "unsigned_decimal s =
     (let ip = takeWhile is_digit s; rest = dropWhile is_digit s in
      if ip = [] then None
      else if rest = [] then Some (of_nat (digits_val 0 ip))
      else (case rest of
              c # fp \<Rightarrow>
                if c = CHR ''.'' \<and> fp \<noteq> [] \<and> list_all is_digit fp
                then Some (of_nat (digits_val 0 ip) + of_nat (digits_val 0 fp) / of_nat (10 ^ length fp))
                else None
            | [] \<Rightarrow> None))"

definition parseDecimal :: "string \<Rightarrow> jsnum" where
  "parseDecimal s =
     (case s of
        [] \<Rightarrow> NaN
      | c # cs \<Rightarrow>
          if c = CHR ''-''
          then (case unsigned_decimal cs of None \<Rightarrow> NaN | Some r \<Rightarrow> Num (- r))
          else (case unsigned_decimal s of None \<Rightarrow> NaN | Some r \<Rightarrow> Num r))"

section \<open>Base EDI parser utilities\<close>

record Segment =
  segid :: string
  elements :: "string list"
  raw :: string

text \<open>\<^verbatim>\<open>s.split(c)\<close> for a one-character separator: the empty string gives one empty piece.\<close>

fun split_on :: "char \<Rightarrow> string \<Rightarrow> string list" where
  "split_on c [] = [[]]"
| "split_on c (x # xs) =
     (if x = c then [] # split_on c xs
      else (case split_on c xs of
              w # ws \<Rightarrow> (x # w) # ws
            | [] \<Rightarrow> [[x]]))"

text \<open>White space removed by \<^verbatim>\<open>trim\<close>, among the code units 0..255.\<close>

definition is_space :: "char \<Rightarrow> bool" where
  "is_space c = (c \<in> set [CHR 0x09, CHR 0x0A, CHR 0x0B, CHR 0x0C, CHR 0x0D, CHR 0x20, CHR 0xA0])"

definition trim :: "string \<Rightarrow> string" where
  "trim s = rev (dropWhile is_space (rev (dropWhile is_space s)))"

text \<open>\<^verbatim>\<open>content.replace(/\r\n/g, '\n')\<close> and then \<^verbatim>\<open>.replace(/\r/g, '\n')\<close>.\<close>

fun replace_crlf :: "string \<Rightarrow> string" where
  "replace_crlf (a # b # cs) =
     (if a = CHR 0x0D \<and> b = CHR 0x0A then CHR 0x0A # replace_crlf cs
      else a # replace_crlf (b # cs))"
| "replace_crlf cs = cs"

definition replace_cr :: "string \<Rightarrow> string" where
  "replace_cr s = map (\<lambda>c. if c = CHR 0x0D then CHR 0x0A else c) s"

definition mkSegment :: "string \<Rightarrow> Segment" where
  "mkSegment r =
     (let cleanRaw = filter (\<lambda>c. c \<noteq> CHR 0x0A) r;
          parts = split_on CHR ''*'' cleanRaw
      in \<lparr>segid = (case parts of p # ps \<Rightarrow> p | [] \<Rightarrow> []),
          elements = drop 1 parts,
          raw = cleanRaw\<rparr>)"

definition parseEDISegments :: "string \<Rightarrow> Segment list" where
  "parseEDISegments content =
     (let normalized = replace_cr (replace_crlf content);
          segmentStrings = filter (\<lambda>s. length s > 0) (map trim (split_on CHR ''~'' normalized))
      in map mkSegment segmentStrings)"

definition findSegments :: "Segment list \<Rightarrow> string \<Rightarrow> Segment list" where
  "findSegments segments i = filter (\<lambda>s. segid s = i) segments"

definition findSegment :: "Segment list \<Rightarrow> string \<Rightarrow> Segment option" where
  "findSegment segments i = find (\<lambda>s. segid s = i) segments"

text \<open>A missing segment, a missing element and an empty element all read as the empty string.\<close>

definition getElement :: "Segment option \<Rightarrow> nat \<Rightarrow> string" where
  "getElement segment index =
     (case segment of
        None \<Rightarrow> []
      | Some s \<Rightarrow> if index < length (elements s) then elements s ! index else [])"

definition getSubElement :: "string \<Rightarrow> nat \<Rightarrow> string" where
  "getSubElement element subIndex =
     (if element = [] then []
      else (let parts = split_on CHR '':'' element
            in if subIndex < length parts then parts ! subIndex else []))"

definition extractISAControlNumber :: "Segment list \<Rightarrow> string" where
  "extractISAControlNumber segments =
     (case findSegment segments ''ISA'' of
        None \<Rightarrow> []
      | Some isa \<Rightarrow> trim (getElement (Some isa) 12))"

definition extractGSControlNumber :: "Segment list \<Rightarrow> string" where
  "extractGSControlNumber segments =
     (case findSegment segments ''GS'' of
        None \<Rightarrow> []
      | Some gs \<Rightarrow> trim (getElement (Some gs) 5))"

text \<open>
  Code tables. A table is a JavaScript object read with \<^verbatim>\<open>TABLE[key]\<close>; a key that is not
  listed reads as \<^verbatim>\<open>undefined\<close>, here \<open>None\<close>.
\<close>

datatype ClaimStatus =
  Draft | Submitted | Acknowledged | Accepted | Rejected | Pending | Paid | Denied | Failed

definition IK5_STATUS_CODES :: "string \<Rightarrow> string option" where
  "IK5_STATUS_CODES = map_of
     [(''A'', ''Accepted''),
      (''E'', ''Accepted But Errors Were Noted''),
      (''M'', ''Rejected, Message Authentication Code (MAC) Failed''),
      (''P'', ''Partially Accepted, At Least One Transaction Set Was Rejected''),
      (''R'', ''Rejected''),
      (''W'', ''Rejected, Assurance Failed Validity Tests''),
      (''X'', ''Rejected, Content After Decryption Could Not Be Analyzed'')]"

definition AK9_STATUS_CODES :: "string \<Rightarrow> string option" where
  "AK9_STATUS_CODES = map_of
     [(''A'', ''Accepted''),
      (''E'', ''Accepted, But Errors Were Noted''),
      (''P'', ''Partially Accepted, At Least One Transaction Set Was Rejected''),
      (''R'', ''Rejected'')]"

definition STC_CATEGORY_CODES :: "string \<Rightarrow> (string \<times> ClaimStatus) option" where
  "STC_CATEGORY_CODES = map_of
     [(''A0'', (''Acknowledgment/Forwarded'', Acknowledged)),
      (''A1'', (''Acknowledgment/Receipt'', Acknowledged)),
      (''A2'', (''Acknowledgment/Acceptance into adjudication'', Accepted)),
      (''A3'', (''Acknowledgment/Rejection'', Rejected)),
      (''A4'', (''Acknowledgment/Pending'', Pending)),
      (''A5'', (''Acknowledgment/Returned as Unprocessable'', Rejected)),
      (''A6'', (''Acknowledgment/Split'', Pending)),
      (''A7'', (''Acknowledgment/Rejected for Missing Information'', Rejected)),
      (''A8'', (''Acknowledgment/Rejected for Invalid Information'', Rejected)),
      (''D0'', (''Data Reporting Acknowledgment'', Acknowledged)),
      (''E0'', (''Response not Possible'', Pending)),
      (''E1'', (''Response not Possible, Claim/Encounter Not Found'', Pending)),
      (''E2'', (''Information Holder is Not Responding'', Pending)),
      (''E3'', (''Correction Required'', Pending)),
      (''E4'', (''Forwarded for Additional Review'', Pending)),
      (''F0'', (''Finalized/Adjudication Complete'', Accepted)),
      (''F1'', (''Finalized/Denial'', Denied)),
      (''F2'', (''Finalized/Paid'', Paid)),
      (''F3'', (''Finalized/Revised'', Accepted)),
      (''F4'', (''Finalized/Forwarded'', Accepted)),
      (''R0'', (''Request for Additional Information'', Pending)),
      (''R1'', (''Request Accepted'', Accepted)),
      (''R3'', (''Request Rejected'', Rejected)),
      (''R4'', (''Request Returned'', Rejected)),
      (''R5'', (''Requires Acknowledgment'', Pending)),
      (''RQ'', (''Requests Forwarded'', Pending)),
      (''WQ'', (''Request Not Processed'', Pending))]"

text \<open>The pair is (description, isPaid).\<close>

definition CLP_STATUS_CODES :: "string \<Rightarrow> (string \<times> bool) option" where
  "CLP_STATUS_CODES = map_of
     [(''1'', (''Processed as Primary'', True)),
      (''2'', (''Processed as Secondary'', True)),
      (''3'', (''Processed as Tertiary'', True)),
      (''4'', (''Denied'', False)),
      (''19'', (''Processed as Primary, Forwarded to Additional Payer'', True)),
      (''20'', (''Processed as Secondary, Forwarded to Additional Payer'', True)),
      (''21'', (''Processed as Tertiary, Forwarded to Additional Payer'', True)),
      (''22'', (''Reversal of Previous Payment'', False)),
      (''23'', (''Not Our Claim, Forwarded to Additional Payer'', False)),
      (''25'', (''Predetermination Pricing Only'', False))]"

definition CAS_GROUP_CODES :: "string \<Rightarrow> string option" where
  "CAS_GROUP_CODES = map_of
     [(''CO'', ''Contractual Obligations''),
      (''CR'', ''Corrections and Reversals''),
      (''OA'', ''Other Adjustments''),
      (''PI'', ''Payer Initiated Reductions''),
      (''PR'', ''Patient Responsibility'')]"

text \<open>\<^verbatim>\<open>s || d\<close> on strings: the empty string is falsy.\<close>

definition or_else :: "string \<Rightarrow> string \<Rightarrow> string" where
  "or_else s d = (if s = [] then d else s)"

section \<open>999 functional acknowledgment parser\<close>

record TransactionSetResponse =
  transactionSetId :: string
  controlNumber_ts :: string
  accepted_ts :: bool
  statusCode_ts :: string
  statusDescription_ts :: string

record Parsed999 =
  originalControlNumber :: string
  isaControlNumber_999 :: string
  accepted :: bool
  statusCode_999 :: string
  statusDescription_999 :: string
  transactionSetResponses :: "TransactionSetResponse list"
  errorCodes :: "string list option"
  includedTransactionCount :: jsnum
  receivedTransactionCount :: jsnum
  acceptedTransactionCount :: jsnum

text \<open>
  The inner loop of \<open>parseTransactionResponses\<close>: from the segment after an AK2, the first
  IK5 gives the status code and its description; another AK2 or an AK9 ends the search
  with both left empty.
\<close>

fun findIK5 :: "Segment list \<Rightarrow> string \<times> string" where
  "findIK5 [] = ([], [])"
| "findIK5 (seg # rest) =
     (if segid seg = ''IK5''
      then (let ik5StatusCode = getElement (Some seg) 0
            in (ik5StatusCode,
                case IK5_STATUS_CODES ik5StatusCode of
                  Some d \<Rightarrow> d
                | None \<Rightarrow> ''Unknown: '' @ ik5StatusCode))
      else if segid seg = ''AK2'' \<or> segid seg = ''AK9'' then ([], [])
      else findIK5 rest)"

text \<open>
  The source visits every AK2 segment in file order and finds its position with
  \<^verbatim>\<open>segments.indexOf(ak2)\<close>, which compares object identity and so returns the position of
  that very segment. The recursion visits each AK2 together with the segments after it.
\<close>

fun parseTransactionResponses :: "Segment list \<Rightarrow> TransactionSetResponse list" where
  "parseTransactionResponses [] = []"
| "parseTransactionResponses (seg # rest) =
     (if segid seg = ''AK2''
      then (let ik5 = findIK5 rest
            in \<lparr>transactionSetId = getElement (Some seg) 0,
                controlNumber_ts = getElement (Some seg) 1,
                accepted_ts = (fst ik5 = ''A'' \<or> fst ik5 = ''E''),
                statusCode_ts = fst ik5,
                statusDescription_ts = snd ik5\<rparr>) # parseTransactionResponses rest
      else parseTransactionResponses rest)"

definition ik3Error :: "Segment \<Rightarrow> string option" where
  "ik3Error ik3 =
     (let segmentId = getElement (Some ik3) 0;
          segmentPosition = getElement (Some ik3) 1;
          errorCode = getElement (Some ik3) 3
      in if errorCode \<noteq> []
         then Some (''Segment '' @ segmentId @ '' at position '' @ segmentPosition @ '': Error '' @ errorCode)
         else None)"

definition ik4Error :: "Segment \<Rightarrow> string option" where
  "ik4Error ik4 =
     (let elementPosition = getElement (Some ik4) 0;
          elementReference = getElement (Some ik4) 1;
          errorCode = getElement (Some ik4) 2
      in if errorCode \<noteq> []
         then Some (''Element '' @ elementPosition @ '' ('' @ elementReference @ ''): Error '' @ errorCode)
         else None)"

definition collectErrorCodes :: "Segment list \<Rightarrow> string list" where
  "collectErrorCodes segments =
     List.map_filter ik3Error (findSegments segments ''IK3'')
     @ List.map_filter ik4Error (findSegments segments ''IK4'')"

text \<open>
  \<open>parse999\<close> returns \<open>Inl\<close> with the error message where the source returns
  \<^verbatim>\<open>{ success: false, error }\<close>. Nothing in the body throws, so the \<^verbatim>\<open>catch\<close> branch is
  never taken.
\<close>

definition parse999 :: "(string \<Rightarrow> jsnum) \<Rightarrow> string \<Rightarrow> string + Parsed999" where
  "parse999 parseInt content =
     (let segments = parseEDISegments content in
      if length segments = 0 then Inl ''No segments found in 999 file''
      else
        (let originalControlNumber' = extractISAControlNumber segments;
             originalGSControlNumber = extractGSControlNumber segments;
             ak1 = findSegment segments ''AK1'';
             ak1GroupControlNumber = getElement ak1 1;
             ak9 = findSegment segments ''AK9'';
             ak9StatusCode = getElement ak9 0;
             ak9IncludedCount = parseInt (or_else (getElement ak9 1) ''0'');
             ak9ReceivedCount = parseInt (or_else (getElement ak9 2) ''0'');
             ak9AcceptedCount = parseInt (or_else (getElement ak9 3) ''0'');
             isAccepted = (ak9StatusCode = ''A'' \<or> ak9StatusCode = ''E'');
             statusDescription =
               (case AK9_STATUS_CODES ak9StatusCode of
                  Some d \<Rightarrow> d
                | None \<Rightarrow> ''Unknown status: '' @ ak9StatusCode);
             transactionResponses = parseTransactionResponses segments;
             errorCodes' = collectErrorCodes segments
         in Inr \<lparr>originalControlNumber = or_else ak1GroupControlNumber originalGSControlNumber,
                 isaControlNumber_999 = originalControlNumber',
                 accepted = isAccepted,
                 statusCode_999 = ak9StatusCode,
                 statusDescription_999 = statusDescription,
                 transactionSetResponses = transactionResponses,
                 errorCodes = (if length errorCodes' > 0 then Some errorCodes' else None),
                 includedTransactionCount = ak9IncludedCount,
                 receivedTransactionCount = ak9ReceivedCount,
                 acceptedTransactionCount = ak9AcceptedCount\<rparr>))"

definition is999Accepted :: "Parsed999 \<Rightarrow> bool" where
  "is999Accepted parsed = (accepted parsed \<and> gt0 (acceptedTransactionCount parsed))"

section \<open>277 claim status response parser\<close>

record ClaimStatusInfo =
  controlNumber :: string
  payerClaimNumber :: "string option"
  statusCategoryCode :: string
  statusCode_277 :: string
  statusDescription_277 :: string
  claimStatus :: ClaimStatus
  effectiveDate :: "string option"
  totalChargeAmount :: "jsnum option"
  patientName :: "string option"
  serviceDate :: "string option"

record Parsed277 =
  isaControlNumber_277 :: string
  claimStatuses :: "ClaimStatusInfo list"
  hasRejections :: bool
  totalClaims :: nat

text \<open>The local variables of one TRN loop.\<close>

record Scan277 =
  s_payerClaimNumber :: "string option"
  s_statusCategoryCode :: string
  s_statusCode :: string
  s_effectiveDate :: "string option"
  s_totalChargeAmount :: "jsnum option"
  s_patientName :: "string option"
  s_serviceDate :: "string option"

definition scan277_init :: Scan277 where
  "scan277_init =
     \<lparr>s_payerClaimNumber = None, s_statusCategoryCode = [], s_statusCode = [],
      s_effectiveDate = None, s_totalChargeAmount = None, s_patientName = None,
      s_serviceDate = None\<rparr>"

definition qcName :: "Segment \<Rightarrow> string" where
  "qcName seg = trim (getElement (Some seg) 3 @ '' '' @ getElement (Some seg) 2)"

definition scan277_step :: "(string \<Rightarrow> jsnum) \<Rightarrow> Segment \<Rightarrow> Scan277 \<Rightarrow> Scan277" where
  "scan277_step parseFloat seg st =
     (let st1 = (if segid seg = ''REF''
                    \<and> (getElement (Some seg) 0 = ''1K'' \<or> getElement (Some seg) 0 = ''D9'')
                 then st\<lparr>s_payerClaimNumber := Some (getElement (Some seg) 1)\<rparr> else st);
          st2 = (if segid seg = ''STC''
                 then st1\<lparr>s_statusCategoryCode := getSubElement (getElement (Some seg) 0) 0,
                          s_statusCode := getSubElement (getElement (Some seg) 0) 1,
                          s_effectiveDate := Some (getElement (Some seg) 1)\<rparr> else st1);
          st3 = (if segid seg = ''AMT''
                    \<and> (getElement (Some seg) 0 = ''YU'' \<or> getElement (Some seg) 0 = ''T3'')
                 then st2\<lparr>s_totalChargeAmount :=
                            Some (parseFloat (or_else (getElement (Some seg) 1) ''0''))\<rparr> else st2);
          st4 = (if segid seg = ''NM1'' \<and> getElement (Some seg) 0 = ''QC''
                 then st3\<lparr>s_patientName := Some (qcName seg)\<rparr> else st3);
          st5 = (if segid seg = ''DTP'' \<and> getElement (Some seg) 0 = ''472''
                 then st4\<lparr>s_serviceDate := Some (getElement (Some seg) 2)\<rparr> else st4)
      in st5)"

fun scan277 :: "(string \<Rightarrow> jsnum) \<Rightarrow> Segment list \<Rightarrow> Scan277 \<Rightarrow> Scan277" where
  "scan277 parseFloat [] st = st"
| "scan277 parseFloat (seg # rest) st =
     (if segid seg = ''TRN'' then st
      else scan277 parseFloat rest (scan277_step parseFloat seg st))"

definition mkClaimStatusInfo :: "string \<Rightarrow> Scan277 \<Rightarrow> ClaimStatusInfo" where
  "mkClaimStatusInfo cn st =
     (let stcInfo = STC_CATEGORY_CODES (s_statusCategoryCode st)
      in \<lparr>controlNumber = cn,
          payerClaimNumber = s_payerClaimNumber st,
          statusCategoryCode = s_statusCategoryCode st,
          statusCode_277 = s_statusCode st,
          statusDescription_277 =
            (case stcInfo of Some (d, c) \<Rightarrow> d | None \<Rightarrow> ''Status '' @ s_statusCategoryCode st),
          claimStatus = (case stcInfo of Some (d, c) \<Rightarrow> c | None \<Rightarrow> Pending),
          effectiveDate = s_effectiveDate st,
          totalChargeAmount = s_totalChargeAmount st,
          patientName = s_patientName st,
          serviceDate = s_serviceDate st\<rparr>)"

text \<open>
  Every TRN segment in file order (found by identity, as the AK2 segments above); a TRN
  with no control number is skipped.
\<close>

fun parseClaimStatuses :: "(string \<Rightarrow> jsnum) \<Rightarrow> Segment list \<Rightarrow> ClaimStatusInfo list" where
  "parseClaimStatuses parseFloat [] = []"
| "parseClaimStatuses parseFloat (seg # rest) =
     (if segid seg = ''TRN''
      then (let cn = getElement (Some seg) 1
            in if cn = [] then parseClaimStatuses parseFloat rest
               else mkClaimStatusInfo cn (scan277 parseFloat rest scan277_init)
                    # parseClaimStatuses parseFloat rest)
      else parseClaimStatuses parseFloat rest)"

definition startsWith :: "string \<Rightarrow> string \<Rightarrow> bool" where
  "startsWith s p = (take (length p) s = p)"

definition isRejection277 :: "ClaimStatusInfo \<Rightarrow> bool" where
  "isRejection277 cs =
     (claimStatus cs = Rejected
      \<or> startsWith (statusCategoryCode cs) ''A3''
      \<or> startsWith (statusCategoryCode cs) ''A5''
      \<or> startsWith (statusCategoryCode cs) ''A7''
      \<or> startsWith (statusCategoryCode cs) ''A8'')"

definition parse277 :: "(string \<Rightarrow> jsnum) \<Rightarrow> string \<Rightarrow> string + Parsed277" where
  "parse277 parseFloat content =
     (let segments = parseEDISegments content in
      if length segments = 0 then Inl ''No segments found in 277 file''
      else
        (let cs = parseClaimStatuses parseFloat segments
         in Inr \<lparr>isaControlNumber_277 = extractISAControlNumber segments,
                 claimStatuses = cs,
                 hasRejections = list_ex isRejection277 cs,
                 totalClaims = length cs\<rparr>))"

definition getRejectedClaims :: "Parsed277 \<Rightarrow> ClaimStatusInfo list" where
  "getRejectedClaims parsed = filter isRejection277 (claimStatuses parsed)"

definition getAcceptedClaims :: "Parsed277 \<Rightarrow> ClaimStatusInfo list" where
  "getAcceptedClaims parsed =
     filter (\<lambda>cs. claimStatus cs = Accepted \<or> statusCategoryCode cs = ''A2''
                  \<or> startsWith (statusCategoryCode cs) ''F'') (claimStatuses parsed)"

section \<open>835 remittance advice parser\<close>

record AdjustmentInfo =
  groupCode :: string
  groupDescription :: string
  reasonCode :: string
  amount :: jsnum

record ServiceLinePayment =
  procedureCode :: string
  modifier_sl :: "string option"
  chargeAmount_sl :: jsnum
  paidAmount_sl :: jsnum
  units_sl :: jsnum
  adjustments_sl :: "AdjustmentInfo list"

record ClaimPaymentInfo =
  patientControlNumber :: string
  payerClaimNumber_cp :: string
  statusCode_cp :: string
  statusDescription_cp :: string
  chargeAmount :: jsnum
  paidAmount :: jsnum
  patientResponsibility :: jsnum
  adjustments :: "AdjustmentInfo list"
  serviceLines :: "ServiceLinePayment list"
  patientName_cp :: "string option"
  serviceDate_cp :: "string option"
  claimStatus_cp :: ClaimStatus

text \<open>
  The three totals of the source's result (sums of doubles over the claim payments) are
  not represented; every other field is.
\<close>

record Parsed835 =
  isaControlNumber_835 :: string
  checkNumber :: string
  payerIdentifier :: string
  payerName :: string
  payeeName :: string
  paymentDate :: string
  paymentMethodCode :: string
  totalPaymentAmount :: jsnum
  claimPayments :: "ClaimPaymentInfo list"
  providerAdjustments :: "(string \<times> jsnum) list"
  claimCount :: nat

text \<open>\<open>None\<close> is the source's \<^verbatim>\<open>null\<close>: a CAS segment with no group code.\<close>

definition parseAdjustment :: "(string \<Rightarrow> jsnum) \<Rightarrow> Segment \<Rightarrow> AdjustmentInfo option" where
  "parseAdjustment parseFloat cas =
     (let groupCode' = getElement (Some cas) 0;
          reasonCode' = getElement (Some cas) 1;
          amount' = parseFloat (or_else (getElement (Some cas) 2) ''0'')
      in if groupCode' = [] then None
         else Some \<lparr>groupCode = groupCode',
                    groupDescription =
                      (case CAS_GROUP_CODES groupCode' of Some d \<Rightarrow> d | None \<Rightarrow> groupCode'),
                    reasonCode = reasonCode',
                    amount = amount'\<rparr>)"

text \<open>The CAS segments after an SVC, up to the next SVC or CLP.\<close>

fun svcAdjustments :: "(string \<Rightarrow> jsnum) \<Rightarrow> Segment list \<Rightarrow> AdjustmentInfo list" where
  "svcAdjustments parseFloat [] = []"
| "svcAdjustments parseFloat (seg # rest) =
     (if segid seg = ''SVC'' \<or> segid seg = ''CLP'' then []
      else if segid seg = ''CAS''
      then (case parseAdjustment parseFloat seg of
              Some adj \<Rightarrow> adj # svcAdjustments parseFloat rest
            | None \<Rightarrow> svcAdjustments parseFloat rest)
      else svcAdjustments parseFloat rest)"

text \<open>
  \<open>parseServiceLine svc rest\<close> is the source's \<^verbatim>\<open>parseServiceLine(segments, svcIndex)\<close>
  with \<open>svc\<close> the segment at \<^verbatim>\<open>svcIndex\<close> and \<open>rest\<close> the segments after it. It never
  returns \<^verbatim>\<open>null\<close>.
\<close>

definition parseServiceLine ::
  "(string \<Rightarrow> jsnum) \<Rightarrow> (string \<Rightarrow> jsnum) \<Rightarrow> Segment \<Rightarrow> Segment list \<Rightarrow> ServiceLinePayment" where
  "parseServiceLine parseInt parseFloat svc rest =
     (let procedureParts = split_on CHR '':'' (getElement (Some svc) 0);
          p0 = (case procedureParts of a # as \<Rightarrow> a | [] \<Rightarrow> []);
          p1 = (if 1 < length procedureParts then procedureParts ! 1 else [])
      in \<lparr>procedureCode = or_else p1 p0,
          modifier_sl = (if 2 < length procedureParts then Some (procedureParts ! 2) else None),
          chargeAmount_sl = parseFloat (or_else (getElement (Some svc) 1) ''0''),
          paidAmount_sl = parseFloat (or_else (getElement (Some svc) 2) ''0''),
          units_sl = parseInt (or_else (getElement (Some svc) 4) ''1''),
          adjustments_sl = svcAdjustments parseFloat rest\<rparr>)"

text \<open>The local variables of one CLP loop.\<close>

record Scan835 =
  c_patientName :: "string option"
  c_serviceDate :: "string option"
  c_adjustments :: "AdjustmentInfo list"
  c_serviceLines :: "ServiceLinePayment list"

definition scan835_init :: Scan835 where
  "scan835_init =
     \<lparr>c_patientName = None, c_serviceDate = None, c_adjustments = [], c_serviceLines = []\<rparr>"

definition scan835_step ::
  "(string \<Rightarrow> jsnum) \<Rightarrow> (string \<Rightarrow> jsnum) \<Rightarrow> Segment \<Rightarrow> Segment list \<Rightarrow> Scan835 \<Rightarrow> Scan835" where
  "scan835_step parseInt parseFloat seg rest st =
     (let st1 = (if segid seg = ''NM1'' \<and> getElement (Some seg) 0 = ''QC''
                 then st\<lparr>c_patientName := Some (qcName seg)\<rparr> else st);
          st2 = (if segid seg = ''DTM''
                    \<and> (getElement (Some seg) 0 = ''232'' \<or> getElement (Some seg) 0 = ''233'')
                 then st1\<lparr>c_serviceDate := Some (getElement (Some seg) 1)\<rparr> else st1);
          st3 = (if segid seg = ''CAS''
                 then (case parseAdjustment parseFloat seg of
                         Some adj \<Rightarrow> st2\<lparr>c_adjustments := c_adjustments st2 @ [adj]\<rparr>
                       | None \<Rightarrow> st2)
                 else st2);
          st4 = (if segid seg = ''SVC''
                 then st3\<lparr>c_serviceLines :=
                            c_serviceLines st3 @ [parseServiceLine parseInt parseFloat seg rest]\<rparr>
                 else st3)
      in st4)"

fun scan835 ::
  "(string \<Rightarrow> jsnum) \<Rightarrow> (string \<Rightarrow> jsnum) \<Rightarrow> Segment list \<Rightarrow> Scan835 \<Rightarrow> Scan835" where
  "scan835 parseInt parseFloat [] st = st"
| "scan835 parseInt parseFloat (seg # rest) st =
     (if segid seg = ''CLP'' then st
      else scan835 parseInt parseFloat rest (scan835_step parseInt parseFloat seg rest st))"

definition mkClaimPayment ::
  "(string \<Rightarrow> jsnum) \<Rightarrow> Segment \<Rightarrow> Scan835 \<Rightarrow> ClaimPaymentInfo" where
  "mkClaimPayment parseFloat clp st =
     (let statusCode = getElement (Some clp) 1;
          statusInfo = CLP_STATUS_CODES statusCode
      in \<lparr>patientControlNumber = getElement (Some clp) 0,
          payerClaimNumber_cp = getElement (Some clp) 6,
          statusCode_cp = statusCode,
          statusDescription_cp =
            (case statusInfo of Some (d, b) \<Rightarrow> d | None \<Rightarrow> ''Status '' @ statusCode),
          chargeAmount = parseFloat (or_else (getElement (Some clp) 2) ''0''),
          paidAmount = parseFloat (or_else (getElement (Some clp) 3) ''0''),
          patientResponsibility = parseFloat (or_else (getElement (Some clp) 4) ''0''),
          adjustments = c_adjustments st,
          serviceLines = c_serviceLines st,
          patientName_cp = c_patientName st,
          serviceDate_cp = c_serviceDate st,
          claimStatus_cp =
            (case statusInfo of Some (d, b) \<Rightarrow> if b then Paid else Denied | None \<Rightarrow> Denied)\<rparr>)"

text \<open>Every CLP segment in file order, each with the segments after it.\<close>

fun parseClaimPayments ::
  "(string \<Rightarrow> jsnum) \<Rightarrow> (string \<Rightarrow> jsnum) \<Rightarrow> Segment list \<Rightarrow> ClaimPaymentInfo list" where
  "parseClaimPayments parseInt parseFloat [] = []"
| "parseClaimPayments parseInt parseFloat (seg # rest) =
     (if segid seg = ''CLP''
      then mkClaimPayment parseFloat seg (scan835 parseInt parseFloat rest scan835_init)
           # parseClaimPayments parseInt parseFloat rest
      else parseClaimPayments parseInt parseFloat rest)"

text \<open>
  The reason/amount pairs of one PLB segment, from its third element on; a missing or
  empty amount is read as \<^verbatim>\<open>'0'\<close>.
\<close>

fun plbPairs :: "(string \<Rightarrow> jsnum) \<Rightarrow> string list \<Rightarrow> (string \<times> jsnum) list" where
  "plbPairs parseFloat [] = []"
| "plbPairs parseFloat [r] = (if r \<noteq> [] then [(r, parseFloat ''0'')] else [])"
| "plbPairs parseFloat (r # a # rest) =
     (if r \<noteq> [] then [(r, parseFloat (or_else a ''0''))] else []) @ plbPairs parseFloat rest"

definition parseProviderAdjustments ::
  "(string \<Rightarrow> jsnum) \<Rightarrow> Segment list \<Rightarrow> (string \<times> jsnum) list" where
  "parseProviderAdjustments parseFloat segments =
     concat (map (\<lambda>plb. plbPairs parseFloat (drop 2 (elements plb))) (findSegments segments ''PLB''))"

text \<open>The name of the last N1 segment with the given entity code, or the empty string.\<close>

definition n1Name :: "Segment list \<Rightarrow> string \<Rightarrow> string" where
  "n1Name segments entityCode =
     foldl (\<lambda>name n1. if getElement (Some n1) 0 = entityCode then getElement (Some n1) 1 else name)
       [] (findSegments segments ''N1'')"

definition parse835 ::
  "(string \<Rightarrow> jsnum) \<Rightarrow> (string \<Rightarrow> jsnum) \<Rightarrow> string \<Rightarrow> string + Parsed835" where
  "parse835 parseInt parseFloat content =
     (let segments = parseEDISegments content in
      if length segments = 0 then Inl ''No segments found in 835 file''
      else
        (let bpr = findSegment segments ''BPR'';
             trn = findSegment segments ''TRN'';
             cps = parseClaimPayments parseInt parseFloat segments
         in Inr \<lparr>isaControlNumber_835 = extractISAControlNumber segments,
                 checkNumber = getElement trn 1,
                 payerIdentifier = getElement trn 2,
                 payerName = n1Name segments ''PR'',
                 payeeName = n1Name segments ''PE'',
                 paymentDate = getElement bpr 15,
                 paymentMethodCode = getElement bpr 3,
                 totalPaymentAmount = parseFloat (or_else (getElement bpr 1) ''0''),
                 claimPayments = cps,
                 providerAdjustments = parseProviderAdjustments parseFloat segments,
                 claimCount = length cps\<rparr>))"

definition findClaimPayment :: "Parsed835 \<Rightarrow> string \<Rightarrow> ClaimPaymentInfo option" where
  "findClaimPayment parsed cn = find (\<lambda>cp. patientControlNumber cp = cn) (claimPayments parsed)"

definition getPaidClaims :: "Parsed835 \<Rightarrow> ClaimPaymentInfo list" where
  "getPaidClaims parsed = filter (\<lambda>cp. gt0 (paidAmount cp)) (claimPayments parsed)"

definition getDeniedClaims :: "Parsed835 \<Rightarrow> ClaimPaymentInfo list" where
  "getDeniedClaims parsed =
     filter (\<lambda>cp. eq0 (paidAmount cp) \<and> gt0 (chargeAmount cp)) (claimPayments parsed)"

section \<open>Reconciliation engine\<close>

text \<open>
  The claim store is the external database. Its two tables are lists of rows; the
  \<open>claims\<close> table has the primary key \<open>claim_id\<close>. Reads always answer. A write may fail:
  \<open>fails env n\<close> says whether the \<open>n\<close>-th write of the run fails, and \<open>now env n\<close> is the
  time stamp \<^verbatim>\<open>new Date().toISOString()\<close> taken for it, so every schedule of failures and
  every clock is covered. The store counts the writes attempted.
\<close>

record ClaimRow =
  claim_id :: string
  status :: ClaimStatus
  control_number :: "string option"
  payer_claim_number :: "string option"
  acknowledgment_date :: "string option"
  accepted_date :: "string option"
  rejected_date :: "string option"
  paid_date :: "string option"
  paid_amount :: "jsnum option"
  rejection_reason :: "string option"
  rejection_codes :: "string list option"

datatype EventSource = Source999 | Source277 | Source835 | SourceSubmission | SourceManual

record ClaimStatusEvent =
  ev_claim_id :: string
  response_file_id :: string
  previous_status :: ClaimStatus
  new_status :: ClaimStatus
  source :: EventSource
  response_code :: "string option"
  response_description :: "string option"
  payment_amount :: "jsnum option"

record Store =
  claims :: "ClaimRow list"
  claim_status_events :: "ClaimStatusEvent list"
  writes :: nat

record Env =
  fails :: "nat \<Rightarrow> bool"
  now :: "nat \<Rightarrow> string"

record ProcessResult =
  success :: bool
  claimsMatched :: nat
  claimsUpdated :: nat
  error :: "string option"

text \<open>\<^verbatim>\<open>.from('claims').select(...).eq(column, value)\<close>\<close>

definition select_by_control_number :: "Store \<Rightarrow> string \<Rightarrow> ClaimRow list" where
  "select_by_control_number st cn = filter (\<lambda>r. control_number r = Some cn) (claims st)"

definition select_by_payer_claim_number :: "Store \<Rightarrow> string \<Rightarrow> ClaimRow list" where
  "select_by_payer_claim_number st pcn = filter (\<lambda>r. payer_claim_number r = Some pcn) (claims st)"

text \<open>
  \<^verbatim>\<open>.from('claims').update(data).eq('id', id)\<close>: the flag is \<^verbatim>\<open>!updateError\<close>. A failed
  update changes no row.
\<close>

definition update_claim ::
  "Env \<Rightarrow> string \<Rightarrow> (ClaimRow \<Rightarrow> ClaimRow) \<Rightarrow> Store \<Rightarrow> bool \<times> Store" where
  "update_claim env cid f st =
     (if fails env (writes st) then (False, st\<lparr>writes := writes st + 1\<rparr>)
      else (True, st\<lparr>claims := map (\<lambda>r. if claim_id r = cid then f r else r) (claims st),
                      writes := writes st + 1\<rparr>))"

text \<open>\<^verbatim>\<open>x || null\<close> on an optional string and on an optional number.\<close>

definition str_or_null :: "string \<Rightarrow> string option" where
  "str_or_null s = (if s = [] then None else Some s)"

definition num_or_null :: "jsnum option \<Rightarrow> jsnum option" where
  "num_or_null x = (case x of None \<Rightarrow> None | Some v \<Rightarrow> if truthy v then Some v else None)"

text \<open>
  \<open>recordStatusEvent\<close> inserts one row into \<open>claim_status_events\<close>. The source neither reads
  the outcome of the insert nor lets an exception escape, so a failed insert leaves no
  trace in the caller: the only effect is that the row is missing.
\<close>

definition recordStatusEvent ::
  "Env \<Rightarrow> string \<Rightarrow> string \<Rightarrow> ClaimStatus \<Rightarrow> ClaimStatus \<Rightarrow> EventSource \<Rightarrow> string \<Rightarrow> string
     \<Rightarrow> jsnum option \<Rightarrow> Store \<Rightarrow> Store" where
  "recordStatusEvent env claimId responseFileId previousStatus newStatus src responseCode
       responseDescription paymentAmount st =
     (if fails env (writes st) then st\<lparr>writes := writes st + 1\<rparr>
      else st\<lparr>claim_status_events := claim_status_events st @
                  [\<lparr>ev_claim_id = claimId,
                    response_file_id = responseFileId,
                    previous_status = previousStatus,
                    new_status = newStatus,
                    source = src,
                    response_code = str_or_null responseCode,
                    response_description = str_or_null responseDescription,
                    payment_amount = num_or_null paymentAmount\<rparr>],
              writes := writes st + 1\<rparr>)"

definition parse_failed :: "string \<Rightarrow> ProcessResult" where
  "parse_failed e = \<lparr>success = False, claimsMatched = 0, claimsUpdated = 0, error = Some e\<rparr>"

subsection \<open>999\<close>

text \<open>
  The body of the loop over the claims read for a 999. The second component of the state
  is the counter \<^verbatim>\<open>claimsUpdated\<close>. The claim is the row as it was read before the loop.
\<close>

definition apply999 :: "Env \<Rightarrow> string \<Rightarrow> Parsed999 \<Rightarrow> Store \<times> nat \<Rightarrow> ClaimRow \<Rightarrow> Store \<times> nat" where
  "apply999 env fileId parsed acc claim =
     (let st = fst acc; n = snd acc;
          previousStatus = status claim;
          newStatus = (if accepted parsed then Acknowledged else Rejected)
      in if previousStatus = Submitted \<or> (previousStatus = Acknowledged \<and> newStatus = Rejected)
         then (case update_claim env (claim_id claim)
                      (\<lambda>r. r\<lparr>status := newStatus,
                              acknowledgment_date := Some (now env (writes st)),
                              rejection_reason :=
                                (if accepted parsed then None else Some (statusDescription_999 parsed)),
                              rejection_codes := errorCodes parsed\<rparr>) st of
                 (True, st') \<Rightarrow>
                   (recordStatusEvent env (claim_id claim) fileId previousStatus newStatus Source999
                      (statusCode_999 parsed) (statusDescription_999 parsed) None st', n + 1)
               | (False, st') \<Rightarrow> (st', n))
         else (st, n))"

definition process999File ::
  "Env \<Rightarrow> (string \<Rightarrow> jsnum) \<Rightarrow> string \<Rightarrow> string \<Rightarrow> Store \<Rightarrow> Store \<times> ProcessResult" where
  "process999File env parseInt fileId content st =
     (case parse999 parseInt content of
        Inl e \<Rightarrow> (st, parse_failed e)
      | Inr parsed \<Rightarrow>
          if originalControlNumber parsed \<noteq> []
          then (let cl = select_by_control_number st (originalControlNumber parsed);
                    r = foldl (apply999 env fileId parsed) (st, 0) cl
                in (fst r, \<lparr>success = True, claimsMatched = length cl, claimsUpdated = snd r,
                            error = None\<rparr>))
          else (st, \<lparr>success = True, claimsMatched = 0, claimsUpdated = 0, error = None\<rparr>))"

subsection \<open>277\<close>

definition update277 :: "ClaimStatusInfo \<Rightarrow> string \<Rightarrow> ClaimRow \<Rightarrow> ClaimRow" where
  "update277 cs t r =
     (let r1 = r\<lparr>status := claimStatus cs\<rparr>;
          r2 = (case payerClaimNumber cs of
                  Some p \<Rightarrow> if p \<noteq> [] then r1\<lparr>payer_claim_number := Some p\<rparr> else r1
                | None \<Rightarrow> r1)
      in if claimStatus cs = Accepted then r2\<lparr>accepted_date := Some t\<rparr>
         else if claimStatus cs = Rejected
         then r2\<lparr>rejected_date := Some t,
                 rejection_reason := Some (statusDescription_277 cs),
                 rejection_codes := Some [statusCategoryCode cs]\<rparr>
         else r2)"

definition apply277 ::
  "Env \<Rightarrow> string \<Rightarrow> ClaimStatusInfo \<Rightarrow> Store \<times> nat \<Rightarrow> ClaimRow \<Rightarrow> Store \<times> nat" where
  "apply277 env fileId cs acc claim =
     (let st = fst acc; n = snd acc;
          previousStatus = status claim;
          newStatus = claimStatus cs
      in case update_claim env (claim_id claim) (update277 cs (now env (writes st))) st of
           (True, st') \<Rightarrow>
             (recordStatusEvent env (claim_id claim) fileId previousStatus newStatus Source277
                (statusCategoryCode cs) (statusDescription_277 cs) None st', n + 1)
         | (False, st') \<Rightarrow> (st', n))"

text \<open>
  The claims an entry is applied to: those with the entry's control number and, only when
  there is none and the entry has a payer claim number, those with that payer claim number.
\<close>

definition match277 :: "Store \<Rightarrow> ClaimStatusInfo \<Rightarrow> ClaimRow list" where
  "match277 st cs =
     (let byControl = (if controlNumber cs \<noteq> []
                       then select_by_control_number st (controlNumber cs) else [])
      in case payerClaimNumber cs of
           Some p \<Rightarrow> if length byControl = 0 \<and> p \<noteq> []
                     then select_by_payer_claim_number st p else byControl
         | None \<Rightarrow> byControl)"

text \<open>
  One iteration of the loop over the parsed entries; the state is the store with the
  counters \<^verbatim>\<open>claimsMatched\<close> and \<^verbatim>\<open>claimsUpdated\<close>.
\<close>

definition process277Entry ::
  "Env \<Rightarrow> string \<Rightarrow> Store \<times> nat \<times> nat \<Rightarrow> ClaimStatusInfo \<Rightarrow> Store \<times> nat \<times> nat" where
  "process277Entry env fileId acc cs =
     (let st = fst acc; m = fst (snd acc); u = snd (snd acc);
          cl = match277 st cs;
          r = foldl (apply277 env fileId cs) (st, u) cl
      in (fst r, m + length cl, snd r))"

definition process277File ::
  "Env \<Rightarrow> (string \<Rightarrow> jsnum) \<Rightarrow> string \<Rightarrow> string \<Rightarrow> Store \<Rightarrow> Store \<times> ProcessResult" where
  "process277File env parseFloat fileId content st =
     (case parse277 parseFloat content of
        Inl e \<Rightarrow> (st, parse_failed e)
      | Inr parsed \<Rightarrow>
          (let r = foldl (process277Entry env fileId) (st, 0, 0) (claimStatuses parsed)
           in (fst r, \<lparr>success = True, claimsMatched = fst (snd r), claimsUpdated = snd (snd r),
                       error = None\<rparr>)))"

subsection \<open>835\<close>

text \<open>\<^verbatim>\<open>xs.join(sep)\<close>\<close>

fun join :: "string \<Rightarrow> string list \<Rightarrow> string" where
  "join sep [] = []"
| "join sep [x] = x"
| "join sep (x # y # ys) = x @ sep @ join sep (y # ys)"

definition adjCode :: "AdjustmentInfo \<Rightarrow> string" where
  "adjCode adj = groupCode adj @ ''-'' @ reasonCode adj"

definition update835 :: "ClaimPaymentInfo \<Rightarrow> string \<Rightarrow> ClaimRow \<Rightarrow> ClaimRow" where
  "update835 payment t r =
     (let newStatus = (if gt0 (paidAmount payment) then Paid else Denied);
          r1 = r\<lparr>status := newStatus,
                 payer_claim_number := str_or_null (payerClaimNumber_cp payment),
                 paid_amount := Some (paidAmount payment),
                 paid_date := Some t\<rparr>
      in if newStatus = Denied
         then (let denialReasons =
                     join '', '' (map adjCode
                       (filter (\<lambda>adj. groupCode adj = ''CO'' \<or> groupCode adj = ''PR'')
                          (adjustments payment)))
               in r1\<lparr>rejection_reason := Some (or_else denialReasons (statusDescription_cp payment)),
                     rejection_codes := Some (map adjCode (adjustments payment))\<rparr>)
         else r1)"

definition apply835 ::
  "Env \<Rightarrow> string \<Rightarrow> ClaimPaymentInfo \<Rightarrow> Store \<times> nat \<Rightarrow> ClaimRow \<Rightarrow> Store \<times> nat" where
  "apply835 env fileId payment acc claim =
     (let st = fst acc; n = snd acc;
          previousStatus = status claim;
          newStatus = (if gt0 (paidAmount payment) then Paid else Denied)
      in case update_claim env (claim_id claim) (update835 payment (now env (writes st))) st of
           (True, st') \<Rightarrow>
             (recordStatusEvent env (claim_id claim) fileId previousStatus newStatus Source835
                (statusCode_cp payment) (statusDescription_cp payment)
                (Some (paidAmount payment)) st', n + 1)
         | (False, st') \<Rightarrow> (st', n))"

definition match835 :: "Store \<Rightarrow> ClaimPaymentInfo \<Rightarrow> ClaimRow list" where
  "match835 st payment =
     (let byControl = (if patientControlNumber payment \<noteq> []
                       then select_by_control_number st (patientControlNumber payment) else [])
      in if length byControl = 0 \<and> payerClaimNumber_cp payment \<noteq> []
         then select_by_payer_claim_number st (payerClaimNumber_cp payment) else byControl)"

definition process835Entry ::
  "Env \<Rightarrow> string \<Rightarrow> Store \<times> nat \<times> nat \<Rightarrow> ClaimPaymentInfo \<Rightarrow> Store \<times> nat \<times> nat" where
  "process835Entry env fileId acc payment =
     (let st = fst acc; m = fst (snd acc); u = snd (snd acc);
          cl = match835 st payment;
          r = foldl (apply835 env fileId payment) (st, u) cl
      in (fst r, m + length cl, snd r))"

definition process835File ::
  "Env \<Rightarrow> (string \<Rightarrow> jsnum) \<Rightarrow> (string \<Rightarrow> jsnum) \<Rightarrow> string \<Rightarrow> string \<Rightarrow> Store
     \<Rightarrow> Store \<times> ProcessResult" where
  "process835File env parseInt parseFloat fileId content st =
     (case parse835 parseInt parseFloat content of
        Inl e \<Rightarrow> (st, parse_failed e)
      | Inr parsed \<Rightarrow>
          (let r = foldl (process835Entry env fileId) (st, 0, 0) (claimPayments parsed)
           in (fst r, \<lparr>success = True, claimsMatched = fst (snd r), claimsUpdated = snd (snd r),
                       error = None\<rparr>)))"

subsection \<open>The audit event of a transition\<close>

text \<open>
  Stated from the specification (the event captures previous and new status, source,
  response code and description and, for an 835, the payment amount), not from the loop
  bodies: the event expected for the claim row \<open>r\<close> as it was read, for each of the three
  sources. An empty code or description is stored as null. For an 835 the payment amount is
  stored when it is a number other than zero; the engine stores null for zero and NaN.
\<close>

definition event999 :: "string \<Rightarrow> Parsed999 \<Rightarrow> ClaimRow \<Rightarrow> ClaimStatusEvent" where
  "event999 fileId parsed r =
     \<lparr>ev_claim_id = claim_id r, response_file_id = fileId,
      previous_status = status r,
      new_status = (if accepted parsed then Acknowledged else Rejected),
      source = Source999,
      response_code = str_or_null (statusCode_999 parsed),
      response_description = str_or_null (statusDescription_999 parsed),
      payment_amount = None\<rparr>"

definition event277 :: "string \<Rightarrow> ClaimStatusInfo \<Rightarrow> ClaimRow \<Rightarrow> ClaimStatusEvent" where
  "event277 fileId cs r =
     \<lparr>ev_claim_id = claim_id r, response_file_id = fileId,
      previous_status = status r,
      new_status = claimStatus cs,
      source = Source277,
      response_code = str_or_null (statusCategoryCode cs),
      response_description = str_or_null (statusDescription_277 cs),
      payment_amount = None\<rparr>"

definition event835 :: "string \<Rightarrow> ClaimPaymentInfo \<Rightarrow> ClaimRow \<Rightarrow> ClaimStatusEvent" where
  "event835 fileId p r =
     \<lparr>ev_claim_id = claim_id r, response_file_id = fileId,
      previous_status = status r,
      new_status = (if gt0 (paidAmount p) then Paid else Denied),
      source = Source835,
      response_code = str_or_null (statusCode_cp p),
      response_description = str_or_null (statusDescription_cp p),
      payment_amount = (if truthy (paidAmount p) then Some (paidAmount p) else None)\<rparr>"

text \<open>
  The claim a 999 may move: one that is \<open>submitted\<close>, or \<open>acknowledged\<close> when the 999 is
  negative.
\<close>

definition eligible999 :: "Parsed999 \<Rightarrow> ClaimRow \<Rightarrow> bool" where
  "eligible999 parsed r =
     (status r = Submitted \<or> (status r = Acknowledged \<and> accepted parsed = False))"

text \<open>
  The common shape of the three loop bodies, used to reason about the three loops at once;
  each body is shown below to be an instance. For a claim satisfying \<open>elig\<close>: one update of
  the rows with the claim's key and, when the update succeeded, one insert of the event and
  one more claim counted.
\<close>

definition transition ::
  "Env \<Rightarrow> (ClaimRow \<Rightarrow> bool) \<Rightarrow> (string \<Rightarrow> ClaimRow \<Rightarrow> ClaimRow) \<Rightarrow> (ClaimRow \<Rightarrow> ClaimStatusEvent)
     \<Rightarrow> Store \<times> nat \<Rightarrow> ClaimRow \<Rightarrow> Store \<times> nat" where
  "transition env elig f ev acc c =
     (let st = fst acc; n = snd acc
      in if \<not> elig c then (st, n)
         else if fails env (writes st) then (st\<lparr>writes := writes st + 1\<rparr>, n)
         else (st\<lparr>claims := map (\<lambda>r. if claim_id r = claim_id c
                                      then f (now env (writes st)) r else r) (claims st),
                  claim_status_events := claim_status_events st @
                    (if fails env (writes st + 1) then [] else [ev c]),
                  writes := writes st + 2\<rparr>, n + 1))"

section \<open>837P generator\<close>

text \<open>
  Numbers of the claim data: unit counts, line numbers and diagnosis pointers are natural
  numbers, printed in decimal; a charge is an amount in cents, and \<open>toFixed2\<close> prints it with
  two decimals as \<^verbatim>\<open>charge.toFixed(2)\<close> prints the amount.
\<close>

definition digit_char :: "nat \<Rightarrow> char" where
  "digit_char n = ''0123456789'' ! n"

fun show_nat :: "nat \<Rightarrow> string" where
  "show_nat n =
     (if n < 10 then [digit_char n]
      else show_nat (n div 10) @ [digit_char (n mod 10)])"

definition padStart2 :: "nat \<Rightarrow> string" where
  "padStart2 n = (if n < 10 then CHR ''0'' # show_nat n else show_nat n)"

definition toFixed2 :: "int \<Rightarrow> string" where
  "toFixed2 c =
     (if c < 0 then CHR ''-'' # show_nat (nat (- c) div 100) @ ''.'' @ padStart2 (nat (- c) mod 100)
      else show_nat (nat c div 100) @ ''.'' @ padStart2 (nat c mod 100))"

datatype SubscriberRelationship = Self | Spouse | Child | Other

datatype Gender = Gender_M | Gender_F | Gender_U

record Address =
  street :: string
  city :: string
  state :: string
  zip :: string

record DiagnosisCode =
  code :: string
  isPrimary :: bool

record ServiceLine =
  dos :: string
  cpt :: string
  modifier :: "string option"
  units :: nat
  charge :: int
  diagnosisPointers :: "nat list"

record EDIClaimData =
  patientFirstName :: string
  patientLastName :: string
  patientDob :: string
  patientGender :: Gender
  patientAddress :: Address
  payerId :: string
  memberId :: string
  groupNumber :: "string option"
  subscriberName :: string
  subscriberDob :: string
  subscriberRelationship :: SubscriberRelationship
  diagnosisCodes :: "DiagnosisCode list"
  serviceLines_edi :: "ServiceLine list"
  renderingNpi :: string
  billingNpi :: string
  billingTin :: string
  billingName :: string
  billingAddress :: Address
  controlNumber_edi :: string

text \<open>
  What the generator reads besides its argument: the environment variable
  \<^verbatim>\<open>MOONLIT_SENDER_ID\<close> and the current local date and time.
\<close>

record GenEnv =
  MOONLIT_SENDER_ID :: "string option"
  year :: nat
  month :: nat
  day :: nat
  hours :: nat
  minutes :: nat
  seconds :: nat

definition padRight :: "string \<Rightarrow> nat \<Rightarrow> string" where
  "padRight str n = take n (str @ replicate n CHR '' '')"

definition padLeft :: "string \<Rightarrow> nat \<Rightarrow> char \<Rightarrow> string" where
  "padLeft str n c = (let t = replicate n c @ str in drop (length t - n) t)"

definition formatDate :: "GenEnv \<Rightarrow> bool \<Rightarrow> string" where
  "formatDate env short =
     (let y = show_nat (year env);
          yy = (if short then drop (length y - 2) y else y)
      in yy @ padStart2 (month env) @ padStart2 (day env))"

definition formatTime :: "GenEnv \<Rightarrow> bool \<Rightarrow> string" where
  "formatTime env short =
     (if short then padStart2 (hours env) @ padStart2 (minutes env)
      else padStart2 (hours env) @ padStart2 (minutes env) @ padStart2 (seconds env))"

fun getRelationshipCode :: "SubscriberRelationship \<Rightarrow> string" where
  "getRelationshipCode Self = ''18''"
| "getRelationshipCode Spouse = ''01''"
| "getRelationshipCode Child = ''19''"
| "getRelationshipCode Other = ''G8''"

fun genderCode :: "Gender \<Rightarrow> string" where
  "genderCode Gender_M = ''M''"
| "genderCode Gender_F = ''F''"
| "genderCode Gender_U = ''U''"

definition senderId :: "GenEnv \<Rightarrow> string" where
  "senderId env = (case MOONLIT_SENDER_ID env of Some s \<Rightarrow> or_else s ''MOONLIT'' | None \<Rightarrow> ''MOONLIT'')"

text \<open>
  \<^verbatim>\<open>data.diagnosisCodes.sort((a, b) => (b.isPrimary ? 1 : 0) - (a.isPrimary ? 1 : 0))\<close>:
  a stable sort that puts the primary diagnoses first. \<^verbatim>\<open>Array.prototype.sort\<close> sorts the
  array it is called on, which here is the array of the argument.
\<close>

definition sortDiagnoses :: "DiagnosisCode list \<Rightarrow> DiagnosisCode list" where
  "sortDiagnoses ds = sort_key (\<lambda>d. if isPrimary d then 0 else (1::nat)) ds"

text \<open>\<^verbatim>\<open>.map((d, i) => ...)\<close>: the first entry gets the qualifier ABK, the others ABF.\<close>

fun diagElements :: "bool \<Rightarrow> DiagnosisCode list \<Rightarrow> string list" where
  "diagElements first [] = []"
| "diagElements first (d # ds) =
     ((if first then ''ABK'' else ''ABF'') @ '':'' @ remove1 CHR ''.'' (code d))
     # diagElements False ds"

text \<open>The three segments of the service line with the 1-based number \<open>lineNum\<close>.\<close>

definition serviceLineSegments :: "nat \<Rightarrow> ServiceLine \<Rightarrow> string list" where
  "serviceLineSegments lineNum line =
     (let diagPointers = join '':'' (map show_nat (diagnosisPointers line));
          modifier' = (case modifier line of
                         Some m \<Rightarrow> if m \<noteq> [] then '':'' @ m else []
                       | None \<Rightarrow> [])
      in [''LX*'' @ show_nat lineNum @ ''~'',
          ''SV1*HC:'' @ cpt line @ modifier' @ ''*'' @ toFixed2 (charge line) @ ''*UN*''
            @ show_nat (units line) @ ''***'' @ diagPointers @ ''~'',
          ''DTP*472*D8*'' @ dos line @ ''~''])"

fun serviceLinesSegments :: "nat \<Rightarrow> ServiceLine list \<Rightarrow> string list" where
  "serviceLinesSegments lineNum [] = []"
| "serviceLinesSegments lineNum (line # rest) =
     serviceLineSegments lineNum line @ serviceLinesSegments (lineNum + 1) rest"

definition patientDemographics :: "EDIClaimData \<Rightarrow> string list" where
  "patientDemographics d =
     [''N3*'' @ street (patientAddress d) @ ''~'',
      ''N4*'' @ city (patientAddress d) @ ''*'' @ state (patientAddress d) @ ''*''
        @ zip (patientAddress d) @ ''~'',
      ''DMG*D8*'' @ patientDob d @ ''*'' @ genderCode (patientGender d) @ ''~'']"

text \<open>The array \<^verbatim>\<open>segments\<close> when the SE segment is about to be pushed.\<close>

definition segmentsBeforeSE :: "GenEnv \<Rightarrow> EDIClaimData \<Rightarrow> string list" where
  "segmentsBeforeSE env d =
     (let dateYYMMDD = formatDate env True;
          dateYYYYMMDD = formatDate env False;
          timeHHMM = formatTime env True;
          timeHHMMSS = formatTime env False;
          isPatientSubscriber = (subscriberRelationship d = Self);
          sbrRelCode = getRelationshipCode (subscriberRelationship d);
          subscriberParts = split_on CHR '' '' (subscriberName d);
          subLast = (if length subscriberParts > 1 then last subscriberParts
                     else (case subscriberParts of p # ps \<Rightarrow> p | [] \<Rightarrow> []));
          subFirst = (if length subscriberParts > 1 then join '' '' (butlast subscriberParts) else []);
          totalCharge = sum_list (map charge (serviceLines_edi d));
          pos = ''11'';
          diagCodes = join ''*'' (diagElements True (sortDiagnoses (diagnosisCodes d)))
      in [''ISA*00*          *00*          *ZZ*'' @ padRight (senderId env) 15 @ ''*ZZ*''
            @ padRight ''OFFALLY'' 15 @ ''*'' @ dateYYMMDD @ ''*'' @ timeHHMM @ ''*^*00501*''
            @ padLeft (controlNumber_edi d) 9 CHR ''0'' @ ''*0*P*:~'',
          ''GS*HC*'' @ senderId env @ ''*OFFALLY*'' @ dateYYYYMMDD @ ''*'' @ timeHHMM @ ''*''
            @ controlNumber_edi d @ ''*X*005010X222A1~'',
          ''ST*837*0001*005010X222A1~'',
          ''BHT*0019*00*'' @ controlNumber_edi d @ ''*'' @ dateYYYYMMDD @ ''*'' @ timeHHMMSS @ ''*CH~'',
          ''NM1*41*2*'' @ billingName d @ ''*****46*'' @ billingNpi d @ ''~'',
          ''PER*IC*BILLING*TE*8015550100~'',
          ''NM1*40*2*OFFICE ALLY*****46*OFFALLY~'',
          ''HL*1**20*1~'',
          ''PRV*BI*PXC*207Q00000X~'',
          ''NM1*85*2*'' @ billingName d @ ''*****XX*'' @ billingNpi d @ ''~'',
          ''N3*'' @ street (billingAddress d) @ ''~'',
          ''N4*'' @ city (billingAddress d) @ ''*'' @ state (billingAddress d) @ ''*''
            @ zip (billingAddress d) @ ''~'',
          ''REF*EI*'' @ billingTin d @ ''~'',
          ''HL*2*1*22*'' @ (if isPatientSubscriber then ''0'' else ''1'') @ ''~'',
          ''SBR*P*'' @ sbrRelCode @ ''*''
            @ (case groupNumber d of Some g \<Rightarrow> g | None \<Rightarrow> []) @ ''******CI~'',
          ''NM1*IL*1*'' @ subLast @ ''*'' @ subFirst @ ''****MI*'' @ memberId d @ ''~'']
         @ (if isPatientSubscriber then patientDemographics d else [])
         @ [''NM1*PR*2*'' @ payerId d @ ''*****PI*'' @ payerId d @ ''~'']
         @ (if \<not> isPatientSubscriber
            then [''HL*3*2*23*0~'',
                  ''PAT*'' @ sbrRelCode @ ''~'',
                  ''NM1*QC*1*'' @ patientLastName d @ ''*'' @ patientFirstName d @ ''~'']
                 @ patientDemographics d
            else [])
         @ [''CLM*'' @ controlNumber_edi d @ ''*'' @ toFixed2 totalCharge @ ''***'' @ pos
              @ '':B:1*Y*A*Y*Y~'',
            ''HI*'' @ diagCodes @ ''~'',
            ''NM1*82*1******XX*'' @ renderingNpi d @ ''~'',
            ''PRV*PE*PXC*207Q00000X~'']
         @ serviceLinesSegments 1 (serviceLines_edi d))"

text \<open>
  \<^verbatim>\<open>const segmentCount = segments.length + 1\<close> is taken when \<^verbatim>\<open>segments\<close> holds every
  segment pushed so far, the ISA and GS segments included.
\<close>

definition segments837 :: "GenEnv \<Rightarrow> EDIClaimData \<Rightarrow> string list" where
  "segments837 env d =
     (let segments = segmentsBeforeSE env d;
          segmentCount = length segments + 1
      in segments
         @ [''SE*'' @ show_nat segmentCount @ ''*0001~'',
            ''GE*1*'' @ controlNumber_edi d @ ''~'',
            ''IEA*1*'' @ padLeft (controlNumber_edi d) 9 CHR ''0'' @ ''~''])"

text \<open>
  The result is the EDI text together with the claim data as the call leaves it: the
  argument's \<open>diagnosisCodes\<close> array has been sorted in place.
\<close>

definition buildX12_837P :: "GenEnv \<Rightarrow> EDIClaimData \<Rightarrow> string \<times> EDIClaimData" where
  "buildX12_837P env d =
     (join [CHR 0x0A] (segments837 env d),
      d\<lparr>diagnosisCodes := sortDiagnoses (diagnosisCodes d)\<rparr>)"

section \<open>Reading a transaction set back\<close>

text \<open>
  Stated from the specification, not from the generator: the segments of a tokenized
  interchange from the first ST segment through the first SE segment after it, both
  included, are the segments that the count element of the SE segment has to count.
  \<open>seCount\<close> is that count element as the tokenizer reads it.
\<close>

definition transactionSet :: "Segment list \<Rightarrow> Segment list" where
  "transactionSet segments =
     (let fromST = dropWhile (\<lambda>s. segid s \<noteq> ''ST'') segments
      in takeWhile (\<lambda>s. segid s \<noteq> ''SE'') fromST
         @ take 1 (dropWhile (\<lambda>s. segid s \<noteq> ''SE'') fromST))"

definition seCount :: "Segment list \<Rightarrow> string" where
  "seCount segments = getElement (findSegment segments ''SE'') 0"

section \<open>Sample inputs\<close>

definition sample_env :: GenEnv where
  "sample_env =
     \<lparr>MOONLIT_SENDER_ID = None, year = 2024, month = 11, day = 5,
      hours = 9, minutes = 30, seconds = 7\<rparr>"

definition sample_claim :: EDIClaimData where
  "sample_claim =
     \<lparr>patientFirstName = ''Jane'', patientLastName = ''Doe'', patientDob = ''19900101'',
      patientGender = Gender_F,
      patientAddress = \<lparr>street = ''1 Main St'', city = ''Provo'', state = ''UT'', zip = ''84601''\<rparr>,
      payerId = ''60054'', memberId = ''W123'', groupNumber = None,
      subscriberName = ''Jane Doe'', subscriberDob = ''19900101'',
      subscriberRelationship = Self,
      diagnosisCodes = [\<lparr>code = ''F33.0'', isPrimary = False\<rparr>, \<lparr>code = ''F41.1'', isPrimary = True\<rparr>],
      serviceLines_edi =
        [\<lparr>dos = ''20241015'', cpt = ''99214'', modifier = None, units = 1, charge = 15000,
          diagnosisPointers = [1]\<rparr>],
      renderingNpi = ''1234567893'', billingNpi = ''1987654321'', billingTin = ''870000000'',
      billingName = ''MOONLIT PLLC'',
      billingAddress = \<lparr>street = ''123 Medical Plaza'', city = ''Salt Lake City'', state = ''UT'',
                         zip = ''84101''\<rparr>,
      controlNumber_edi = ''123456789''\<rparr>"

text \<open>The segments generated for \<open>sample_claim\<close>, as the generator pushes them.\<close>

definition sample_claim_segments :: "string list" where
  "sample_claim_segments =
     [''ISA*00*          *00*          *ZZ*MOONLIT        *ZZ*OFFALLY        *241105*0930*^*00501*123456789*0*P*:~'',
      ''GS*HC*MOONLIT*OFFALLY*20241105*0930*123456789*X*005010X222A1~'',
      ''ST*837*0001*005010X222A1~'',
      ''BHT*0019*00*123456789*20241105*093007*CH~'',
      ''NM1*41*2*MOONLIT PLLC*****46*1987654321~'',
      ''PER*IC*BILLING*TE*8015550100~'',
      ''NM1*40*2*OFFICE ALLY*****46*OFFALLY~'',
      ''HL*1**20*1~'',
      ''PRV*BI*PXC*207Q00000X~'',
      ''NM1*85*2*MOONLIT PLLC*****XX*1987654321~'',
      ''N3*123 Medical Plaza~'',
      ''N4*Salt Lake City*UT*84101~'',
      ''REF*EI*870000000~'',
      ''HL*2*1*22*0~'',
      ''SBR*P*18*******CI~'',
      ''NM1*IL*1*Doe*Jane****MI*W123~'',
      ''N3*1 Main St~'',
      ''N4*Provo*UT*84601~'',
      ''DMG*D8*19900101*F~'',
      ''NM1*PR*2*60054*****PI*60054~'',
      ''CLM*123456789*150.00***11:B:1*Y*A*Y*Y~'',
      ''HI*ABK:F411*ABF:F330~'',
      ''NM1*82*1******XX*1234567893~'',
      ''PRV*PE*PXC*207Q00000X~'',
      ''LX*1~'',
      ''SV1*HC:99214*150.00*UN*1***1~'',
      ''DTP*472*D8*20241015~'',
      ''SE*28*0001~'',
      ''GE*1*123456789~'',
      ''IEA*1*123456789~'']"

definition ack999_counted :: string where
  "ack999_counted = ''AK9*A*1*1*1~''"

definition cas_no_group835 :: string where
  "cas_no_group835 = ''CLP*A1*1*150*120~CAS**45*10~''"

definition lines835 :: string where
  "lines835 = ''CLP*123*1*150*120**12*PCN1~CAS*CO*45*30~SVC*HC:99214*150*120**1~CAS*PR*1*10~''"

text \<open>A store in which no write fails, and rows with only the matching columns filled in.\<close>

definition env_ok :: Env where
  "env_ok = \<lparr>fails = (\<lambda>n. False), now = (\<lambda>n. ''2024-11-05T16:30:07.000Z'')\<rparr>"

definition sample_row :: "string \<Rightarrow> ClaimStatus \<Rightarrow> string option \<Rightarrow> string option \<Rightarrow> ClaimRow" where
  "sample_row cid s cn pcn =
     \<lparr>claim_id = cid, status = s, control_number = cn, payer_claim_number = pcn,
      acknowledgment_date = None, accepted_date = None, rejected_date = None, paid_date = None,
      paid_amount = None, rejection_reason = None, rejection_codes = None\<rparr>"

definition store_two :: Store where
  "store_two =
     \<lparr>claims = [sample_row ''c1'' Submitted (Some ''111'') (Some ''PCN9''),
                sample_row ''c2'' Submitted (Some ''222'') None],
      claim_status_events = [], writes = 0\<rparr>"

text \<open>A store in which the second write of the run, and only that one, fails.\<close>

definition env_second_write_fails :: Env where
  "env_second_write_fails = \<lparr>fails = (\<lambda>n. n = 1), now = (\<lambda>n. ''2024-11-05T16:30:07.000Z'')\<rparr>"

definition store_paid :: Store where
  "store_paid =
     \<lparr>claims = [sample_row ''c1'' Paid (Some ''123456789'') None],
      claim_status_events = [], writes = 0\<rparr>"

definition store_submitted :: Store where
  "store_submitted =
     \<lparr>claims = [sample_row ''c1'' Submitted (Some ''123456789'') None],
      claim_status_events = [], writes = 0\<rparr>"

definition store_pair :: Store where
  "store_pair =
     \<lparr>claims = [sample_row ''c1'' Accepted (Some ''123456789'') None,
                sample_row ''c2'' Accepted (Some ''987654321'') None],
      claim_status_events = [], writes = 0\<rparr>"

definition rejecting999 :: string where
  "rejecting999 = ''AK1*HC*123456789~AK9*R*1*1*0~''"

definition rejecting277 :: string where
  "rejecting277 = ''TRN*2*123456789~STC*A3:20~''"

definition accepting277 :: string where
  "accepting277 = ''TRN*2*123456789~STC*A2:20~''"

definition mixed835 :: string where
  "mixed835 = ''CLP*123456789*4*150*120~CLP*987654321*1*150*0~''"

text \<open>A store in which the first write of the run, and only that one, fails.\<close>

definition env_first_write_fails :: Env where
  "env_first_write_fails = \<lparr>fails = (\<lambda>n. n = 0), now = (\<lambda>n. ''2024-11-05T16:30:07.000Z'')\<rparr>"

definition two_entries277 :: string where
  "two_entries277 = ''TRN*2*111~STC*A2:20~TRN*2*222~STC*A3:20~''"

definition entry_by_control :: ClaimStatusInfo where
  "entry_by_control =
     \<lparr>controlNumber = ''222'', payerClaimNumber = Some ''PCN9'', statusCategoryCode = ''A2'',
      statusCode_277 = ''20'',
      statusDescription_277 = ''Acknowledgment/Acceptance into adjudication'',
      claimStatus = Accepted, effectiveDate = None, totalChargeAmount = None,
      patientName = None, serviceDate = None\<rparr>"

definition entry_unmatched :: ClaimStatusInfo where
  "entry_unmatched =
     \<lparr>controlNumber = ''999'', payerClaimNumber = Some ''PCN0'', statusCategoryCode = ''A2'',
      statusCode_277 = ''20'',
      statusDescription_277 = ''Acknowledgment/Acceptance into adjudication'',
      claimStatus = Accepted, effectiveDate = None, totalChargeAmount = None,
      patientName = None, serviceDate = None\<rparr>"

definition entry_by_payer :: ClaimStatusInfo where
  "entry_by_payer =
     \<lparr>controlNumber = ''999'', payerClaimNumber = Some ''PCN9'', statusCategoryCode = ''A2'',
      statusCode_277 = ''20'',
      statusDescription_277 = ''Acknowledgment/Acceptance into adjudication'',
      claimStatus = Accepted, effectiveDate = None, totalChargeAmount = None,
      patientName = None, serviceDate = None\<rparr>"

definition sample277 :: string where
  "sample277 = ''TRN*2*123~STC*A3:20~TRN*2*124~STC*F2:1~TRN*2*125~STC*Z9~''"

definition reversal835 :: string where
  "reversal835 = ''CLP*A1*22*-150*-120~''"

definition reversal_cp :: ClaimPaymentInfo where
  "reversal_cp =
     \<lparr>patientControlNumber = ''A1'', payerClaimNumber_cp = [], statusCode_cp = ''22'',
      statusDescription_cp = ''Reversal of Previous Payment'',
      chargeAmount = Num (- 150), paidAmount = Num (- 120), patientResponsibility = Num 0,
      adjustments = [], serviceLines = [], patientName_cp = None, serviceDate_cp = None,
      claimStatus_cp = Denied\<rparr>"

section \<open>Properties of the 837P generator\<close>

lemma sample_pads:
  "padRight ''MOONLIT'' 15 = ''MOONLIT        ''"
  "padRight ''OFFALLY'' 15 = ''OFFALLY        ''"
  "padLeft ''123456789'' 9 CHR ''0'' = ''123456789''"
  by code_simp+

lemma sample_segments837: "segments837 sample_env sample_claim = sample_claim_segments"
  by (simp add: segments837_def segmentsBeforeSE_def sample_env_def sample_claim_def Let_def
        digit_char_def toFixed2_def padStart2_def formatDate_def formatTime_def senderId_def
        sample_pads patientDemographics_def serviceLineSegments_def sortDiagnoses_def or_else_def
        sample_claim_segments_def)

lemma sample_tokens:
  "seCount (parseEDISegments (join [CHR 0x0A] sample_claim_segments)) = ''28''"
  "length (transactionSet (parseEDISegments (join [CHR 0x0A] sample_claim_segments))) = 26"
  by code_simp+

text \<open>
  For every claim and every clock, the third segment pushed is ST, and the number written
  into the SE segment is the number of all segments pushed before it plus one, the ISA and
  GS segments that precede ST included: two more than the number of segments from ST
  through SE.
\<close>

lemma segments837_shape:
  "segmentsBeforeSE env d ! 2 = ''ST*837*0001*005010X222A1~''"
  "take 2 (map (take 3) (segmentsBeforeSE env d)) = [''ISA'', ''GS*'']"
  "\<exists>ge iea. segments837 env d =
      segmentsBeforeSE env d
      @ [''SE*'' @ show_nat (length (segmentsBeforeSE env d) + 1) @ ''*0001~'', ge, iea]"
  by (simp_all add: segments837_def segmentsBeforeSE_def Let_def del: show_nat.simps)

text \<open>
  C1. Tokenizing the generated text must give an SE count element equal to the number of
  segments from ST through SE. For the sample claim (subscriber is the patient, one
  service line) the transaction set has 26 segments and the SE segment says 28.
\<close>

theorem C1_se_count_sample:
  "seCount (parseEDISegments (fst (buildX12_837P sample_env sample_claim))) = ''28''
   \<and> length (transactionSet (parseEDISegments (fst (buildX12_837P sample_env sample_claim)))) = 26"
  by (simp add: buildX12_837P_def sample_segments837 sample_tokens)

text \<open>
  C8. The generator must leave its argument as it was. After the call on the sample claim,
  whose diagnoses are F33.0 (not primary) and then F41.1 (primary), the argument's
  diagnosis list is F41.1 and then F33.0.
\<close>

theorem C8_input_reordered:
  "diagnosisCodes sample_claim =
     [\<lparr>code = ''F33.0'', isPrimary = False\<rparr>, \<lparr>code = ''F41.1'', isPrimary = True\<rparr>]
   \<and> diagnosisCodes (snd (buildX12_837P sample_env sample_claim)) =
     [\<lparr>code = ''F41.1'', isPrimary = True\<rparr>, \<lparr>code = ''F33.0'', isPrimary = False\<rparr>]
   \<and> snd (buildX12_837P sample_env sample_claim) \<noteq> sample_claim"
  by (simp add: buildX12_837P_def sample_claim_def sortDiagnoses_def)

section \<open>Properties of the 999 parser\<close>

lemma parse999_total:
  "parseEDISegments content \<noteq> [] \<Longrightarrow>
   \<exists>p. parse999 pI content = Inr p
     \<and> accepted p = (getElement (findSegment (parseEDISegments content) ''AK9'') 0 = ''A''
                   \<or> getElement (findSegment (parseEDISegments content) ''AK9'') 0 = ''E'')
     \<and> acceptedTransactionCount p =
          pI (or_else (getElement (findSegment (parseEDISegments content) ''AK9'') 3) ''0'')
     \<and> transactionSetResponses p = parseTransactionResponses (parseEDISegments content)"
  by (simp add: parse999_def Let_def)

lemma ack999_counted_parsed:
  "parseEDISegments ack999_counted \<noteq> []"
  "is999Accepted (projr (parse999 parseDecimal ack999_counted))"
  "accepted (projr (parse999 parseDecimal ack999_counted))"
  "transactionSetResponses (projr (parse999 parseDecimal ack999_counted)) = []"
  "getElement (findSegment (parseEDISegments ack999_counted) ''AK9'') 0 = ''A''"
  "gt0 (parseDecimal (or_else (getElement (findSegment (parseEDISegments ack999_counted) ''AK9'') 3) ''0''))"
  by code_simp+

text \<open>
  C5 as stated fails: a 999 whose AK9 segment reports outcome A and one accepted
  transaction set, and which holds no AK2/IK5 pair at all, is accepted by
  \<open>is999Accepted\<close> although no transaction-set response was individually accepted.
\<close>

theorem C5_counterexample:
  "parseEDISegments ack999_counted \<noteq> []
   \<and> is999Accepted (projr (parse999 parseDecimal ack999_counted))
   \<and> \<not> (accepted (projr (parse999 parseDecimal ack999_counted))
          \<and> list_ex accepted_ts
               (transactionSetResponses (projr (parse999 parseDecimal ack999_counted))))"
  by (simp add: ack999_counted_parsed)

text \<open>
  C5, amended. For every 999 content with at least one segment, \<open>parse999\<close> returns a
  result, and \<open>is999Accepted\<close> holds for it exactly when the outcome code of the AK9 segment
  is A or E and the count of accepted transaction sets that the AK9 segment itself carries
  (its fourth element, read as 0 when absent) is greater than zero. The AK2/IK5 pairs are
  not consulted.
\<close>

theorem C5_accepted_by_ak9_count:
  "parseEDISegments content \<noteq> [] \<Longrightarrow>
   \<exists>p. parse999 pI content = Inr p
     \<and> (is999Accepted p \<longleftrightarrow>
          (getElement (findSegment (parseEDISegments content) ''AK9'') 0 = ''A''
           \<or> getElement (findSegment (parseEDISegments content) ''AK9'') 0 = ''E'')
          \<and> gt0 (pI (or_else (getElement (findSegment (parseEDISegments content) ''AK9'') 3) ''0'')))"
  using parse999_total[of content pI] by (auto simp: is999Accepted_def)

theorem C5_accepted_by_ak9_count_witness:
  "parseEDISegments ack999_counted \<noteq> []
   \<and> (\<exists>p. parse999 parseDecimal ack999_counted = Inr p \<and> is999Accepted p)
   \<and> getElement (findSegment (parseEDISegments ack999_counted) ''AK9'') 0 = ''A''
   \<and> gt0 (parseDecimal
            (or_else (getElement (findSegment (parseEDISegments ack999_counted) ''AK9'') 3) ''0''))"
  using C5_accepted_by_ak9_count[of ack999_counted parseDecimal] ack999_counted_parsed(1,5,6)
  by auto

section \<open>Properties of the 277 parser\<close>

lemma mkClaimStatusInfo_mapped:
  "claimStatus (mkClaimStatusInfo cn st) =
     (case STC_CATEGORY_CODES (s_statusCategoryCode st) of Some (d, c) \<Rightarrow> c | None \<Rightarrow> Pending)"
  "statusDescription_277 (mkClaimStatusInfo cn st) =
     (case STC_CATEGORY_CODES (s_statusCategoryCode st) of
        Some (d, c) \<Rightarrow> d
      | None \<Rightarrow> ''Status '' @ s_statusCategoryCode st)"
  "statusCategoryCode (mkClaimStatusInfo cn st) = s_statusCategoryCode st"
  by (simp_all add: mkClaimStatusInfo_def Let_def)

lemma parseClaimStatuses_mapped:
  "cs \<in> set (parseClaimStatuses pF segments) \<Longrightarrow>
     claimStatus cs =
       (case STC_CATEGORY_CODES (statusCategoryCode cs) of Some (d, c) \<Rightarrow> c | None \<Rightarrow> Pending)
     \<and> statusDescription_277 cs =
       (case STC_CATEGORY_CODES (statusCategoryCode cs) of
          Some (d, c) \<Rightarrow> d
        | None \<Rightarrow> ''Status '' @ statusCategoryCode cs)"
proof (induction segments)
  case Nil
  then show ?case by simp
next
  case (Cons seg rest)
  show ?case
  proof (cases "segid seg = ''TRN'' \<and> getElement (Some seg) 1 \<noteq> []")
    case True
    with Cons.prems
    have "cs = mkClaimStatusInfo (getElement (Some seg) 1) (scan277 pF rest scan277_init)
          \<or> cs \<in> set (parseClaimStatuses pF rest)"
      by (auto simp: Let_def)
    then show ?thesis
    proof
      assume "cs = mkClaimStatusInfo (getElement (Some seg) 1) (scan277 pF rest scan277_init)"
      then show ?thesis
        by (simp only: mkClaimStatusInfo_mapped)
    next
      assume "cs \<in> set (parseClaimStatuses pF rest)"
      then show ?thesis by (rule Cons.IH)
    qed
  next
    case False
    with Cons.prems have "cs \<in> set (parseClaimStatuses pF rest)"
      by (auto simp: Let_def split: if_splits)
    then show ?thesis by (rule Cons.IH)
  qed
qed

lemma parse277_total:
  "parseEDISegments content \<noteq> [] \<Longrightarrow>
     \<exists>p. parse277 pF content = Inr p
         \<and> claimStatuses p = parseClaimStatuses pF (parseEDISegments content)"
  by (simp add: parse277_def Let_def)

lemma STC_samples:
  "STC_CATEGORY_CODES ''A3'' = Some (''Acknowledgment/Rejection'', Rejected)"
  "STC_CATEGORY_CODES ''F2'' = Some (''Finalized/Paid'', Paid)"
  "STC_CATEGORY_CODES ''Z9'' = None"
  by (simp_all add: STC_CATEGORY_CODES_def)

lemma sample277_parsed:
  "map (\<lambda>cs. (statusCategoryCode cs, claimStatus cs, statusDescription_277 cs))
     (claimStatuses (projr (parse277 parseDecimal sample277))) =
   [(''A3'', Rejected, ''Acknowledgment/Rejection''),
    (''F2'', Paid, ''Finalized/Paid''),
    (''Z9'', Pending, ''Status Z9'')]"
  by code_simp

lemma sample277_segments: "parseEDISegments sample277 \<noteq> []"
  by code_simp

text \<open>
  C6. Every entry the 277 parser produces carries the status and the description that the
  category table gives for the entry's category code, and \<open>pending\<close> with the generic
  description \<open>Status <code>\<close> when the table has no such code. The table maps \<open>A3\<close> to
  \<open>rejected\<close> and \<open>F2\<close> to \<open>paid\<close> and has no entry for \<open>Z9\<close>. The parser returns a result
  for every file with at least one segment, whatever category codes it holds.
\<close>

theorem C6_category_mapping:
  "(\<forall>cs \<in> set (parseClaimStatuses pF segments).
      claimStatus cs =
        (case STC_CATEGORY_CODES (statusCategoryCode cs) of Some (d, c) \<Rightarrow> c | None \<Rightarrow> Pending)
      \<and> statusDescription_277 cs =
        (case STC_CATEGORY_CODES (statusCategoryCode cs) of
           Some (d, c) \<Rightarrow> d
         | None \<Rightarrow> ''Status '' @ statusCategoryCode cs))
   \<and> STC_CATEGORY_CODES ''A3'' = Some (''Acknowledgment/Rejection'', Rejected)
   \<and> STC_CATEGORY_CODES ''F2'' = Some (''Finalized/Paid'', Paid)
   \<and> STC_CATEGORY_CODES ''Z9'' = None
   \<and> (parseEDISegments content \<noteq> [] \<longrightarrow>
        (\<exists>p. parse277 pF content = Inr p
            \<and> claimStatuses p = parseClaimStatuses pF (parseEDISegments content)))"
  using parseClaimStatuses_mapped parse277_total STC_samples by blast

theorem C6_category_mapping_witness:
  "parseEDISegments sample277 \<noteq> []
   \<and> isl (parse277 parseDecimal sample277) = False
   \<and> map (\<lambda>cs. (statusCategoryCode cs, claimStatus cs, statusDescription_277 cs))
        (claimStatuses (projr (parse277 parseDecimal sample277))) =
      [(''A3'', Rejected, ''Acknowledgment/Rejection''),
       (''F2'', Paid, ''Finalized/Paid''),
       (''Z9'', Pending, ''Status Z9'')]"
  using C6_category_mapping
          [where pF = parseDecimal and content = sample277
             and segments = "parseEDISegments sample277"]
        sample277_segments sample277_parsed
  by auto

section \<open>Properties of the 835 parser\<close>

lemma reversal835_parsed:
  "parse835 parseDecimal parseDecimal reversal835 =
     Inr \<lparr>isaControlNumber_835 = [], checkNumber = [], payerIdentifier = [], payerName = [],
          payeeName = [], paymentDate = [], paymentMethodCode = [], totalPaymentAmount = Num 0,
          claimPayments = [reversal_cp], providerAdjustments = [], claimCount = 1\<rparr>"
  by code_simp

lemma scan835_step_fields:
  "c_adjustments (scan835_step pI pF seg rest st) =
     c_adjustments st @ (if segid seg = ''CAS''
                         then (case parseAdjustment pF seg of Some a \<Rightarrow> [a] | None \<Rightarrow> []) else [])"
  "c_serviceLines (scan835_step pI pF seg rest st) =
     c_serviceLines st @ (if segid seg = ''SVC'' then [parseServiceLine pI pF seg rest] else [])"
  by (simp_all add: scan835_step_def Let_def split: option.splits)

lemma scan835_adjustments:
  "c_adjustments (scan835 pI pF rest st) =
     c_adjustments st @ List.map_filter (parseAdjustment pF)
        (filter (\<lambda>s. segid s = ''CAS'') (takeWhile (\<lambda>s. segid s \<noteq> ''CLP'') rest))"
proof (induction rest arbitrary: st)
  case Nil
  then show ?case by (simp add: List.map_filter_simps)
next
  case (Cons seg rest)
  show ?case
  proof (cases "segid seg = ''CLP''")
    case True
    then show ?thesis by (simp add: List.map_filter_simps)
  next
    case False
    then show ?thesis
      by (simp add: Cons.IH scan835_step_fields List.map_filter_simps split: option.splits)
  qed
qed

lemma scan835_serviceLines_prefix:
  "\<exists>ys. c_serviceLines (scan835 pI pF rest st) = c_serviceLines st @ ys"
proof (induction rest arbitrary: st)
  case Nil
  then show ?case by simp
next
  case (Cons seg rest)
  show ?case
  proof (cases "segid seg = ''CLP''")
    case True
    then show ?thesis by simp
  next
    case False
    from Cons.IH[of "scan835_step pI pF seg rest st"]
    obtain ys where "c_serviceLines (scan835 pI pF rest (scan835_step pI pF seg rest st))
                      = c_serviceLines (scan835_step pI pF seg rest st) @ ys" by blast
    with False show ?thesis by (simp add: scan835_step_fields)
  qed
qed

lemma scan835_serviceLine_nth:
  "\<forall>s \<in> set a. segid s \<noteq> ''CLP'' \<Longrightarrow> segid svc = ''SVC'' \<Longrightarrow>
     c_serviceLines (scan835 pI pF (a @ svc # b) st)
       ! (length (c_serviceLines st) + length (filter (\<lambda>s. segid s = ''SVC'') a))
     = parseServiceLine pI pF svc b"
proof (induction a arbitrary: st)
  case Nil
  from scan835_serviceLines_prefix[of pI pF b "scan835_step pI pF svc b st"]
  obtain ys where "c_serviceLines (scan835 pI pF b (scan835_step pI pF svc b st))
                      = c_serviceLines (scan835_step pI pF svc b st) @ ys" by blast
  with Nil show ?case by (simp add: scan835_step_fields nth_append)
next
  case (Cons s a)
  then have ns: "segid s \<noteq> ''CLP''" by simp
  from Cons.IH[of "scan835_step pI pF s (a @ svc # b) st"] Cons.prems
  have "c_serviceLines (scan835 pI pF (a @ svc # b) (scan835_step pI pF s (a @ svc # b) st))
       ! (length (c_serviceLines (scan835_step pI pF s (a @ svc # b) st))
          + length (filter (\<lambda>s. segid s = ''SVC'') a))
     = parseServiceLine pI pF svc b" by simp
  with ns show ?case
    by (cases "segid s = ''SVC''") (simp_all add: scan835_step_fields)
qed

lemma svcAdjustments_eq:
  "svcAdjustments pF rest = List.map_filter (parseAdjustment pF)
        (filter (\<lambda>s. segid s = ''CAS'')
           (takeWhile (\<lambda>s. segid s \<noteq> ''SVC'' \<and> segid s \<noteq> ''CLP'') rest))"
  by (induction rest) (auto simp: List.map_filter_simps split: option.splits)

lemma svcAdjustments_subset:
  "set (svcAdjustments pF rest) \<subseteq> set (List.map_filter (parseAdjustment pF)
        (filter (\<lambda>s. segid s = ''CAS'') (takeWhile (\<lambda>s. segid s \<noteq> ''CLP'') rest)))"
  by (induction rest) (auto simp: List.map_filter_simps split: option.splits)

lemma takeWhile_loop_tail:
  "\<forall>s \<in> set b. segid s \<noteq> ''CLP'' \<Longrightarrow> post = [] \<or> segid (hd post) = ''CLP'' \<Longrightarrow>
     takeWhile (\<lambda>s. segid s \<noteq> ''SVC'' \<and> segid s \<noteq> ''CLP'') (b @ post)
       = takeWhile (\<lambda>s. segid s \<noteq> ''SVC'') b"
proof (induction b)
  case Nil
  then show ?case by (cases post) auto
next
  case (Cons s b)
  then show ?case by auto
qed

lemma scan835_serviceLines_subset:
  "sl \<in> set (c_serviceLines (scan835 pI pF rest st)) \<Longrightarrow>
     sl \<in> set (c_serviceLines st) \<or>
     set (adjustments_sl sl) \<subseteq> set (List.map_filter (parseAdjustment pF)
        (filter (\<lambda>s. segid s = ''CAS'') (takeWhile (\<lambda>s. segid s \<noteq> ''CLP'') rest)))"
proof (induction rest arbitrary: st)
  case Nil
  then show ?case by simp
next
  case (Cons seg rest)
  show ?case
  proof (cases "segid seg = ''CLP''")
    case True
    with Cons.prems show ?thesis by simp
  next
    case False
    with Cons.prems
    have "sl \<in> set (c_serviceLines (scan835 pI pF rest (scan835_step pI pF seg rest st)))"
      by simp
    from Cons.IH[OF this] show ?thesis
    proof
      assume "sl \<in> set (c_serviceLines (scan835_step pI pF seg rest st))"
      then have "sl \<in> set (c_serviceLines st)
                 \<or> (segid seg = ''SVC'' \<and> sl = parseServiceLine pI pF seg rest)"
        by (auto simp: scan835_step_fields split: if_splits)
      then show ?thesis
      proof
        assume "sl \<in> set (c_serviceLines st)"
        then show ?thesis by simp
      next
        assume a: "segid seg = ''SVC'' \<and> sl = parseServiceLine pI pF seg rest"
        then have "adjustments_sl sl = svcAdjustments pF rest"
          by (simp add: parseServiceLine_def Let_def)
        with svcAdjustments_subset[of pF rest] a False show ?thesis
          by (simp add: List.map_filter_simps)
      qed
    next
      assume "set (adjustments_sl sl) \<subseteq> set (List.map_filter (parseAdjustment pF)
        (filter (\<lambda>s. segid s = ''CAS'') (takeWhile (\<lambda>s. segid s \<noteq> ''CLP'') rest)))"
      with False show ?thesis
        by (auto simp: List.map_filter_simps split: option.splits)
    qed
  qed
qed

lemma parseClaimPayments_append:
  "\<exists>xs. parseClaimPayments pI pF (pre @ post) = xs @ parseClaimPayments pI pF post
       \<and> length xs = length (filter (\<lambda>s. segid s = ''CLP'') pre)"
proof (induction pre)
  case Nil
  then show ?case by simp
next
  case (Cons a pre)
  then obtain xs where xs:
    "parseClaimPayments pI pF (pre @ post) = xs @ parseClaimPayments pI pF post"
    "length xs = length (filter (\<lambda>s. segid s = ''CLP'') pre)" by blast
  show ?case
  proof (cases "segid a = ''CLP''")
    case True
    then show ?thesis using xs
      by (intro exI[of _ "mkClaimPayment pF a (scan835 pI pF (pre @ post) scan835_init) # xs"]) simp
  next
    case False
    then show ?thesis using xs by (intro exI[of _ xs]) simp
  qed
qed

lemma parseClaimPayments_nth:
  assumes "segid clp = ''CLP''"
  shows "parseClaimPayments pI pF (pre @ clp # rest) ! length (filter (\<lambda>s. segid s = ''CLP'') pre)
          = mkClaimPayment pF clp (scan835 pI pF rest scan835_init)"
proof -
  obtain xs where xs:
    "parseClaimPayments pI pF (pre @ clp # rest) = xs @ parseClaimPayments pI pF (clp # rest)"
    "length xs = length (filter (\<lambda>s. segid s = ''CLP'') pre)"
    using parseClaimPayments_append[of pI pF pre "clp # rest"] by blast
  show ?thesis using assms by (simp add: xs nth_append)
qed

lemma mkClaimPayment_lists:
  "adjustments (mkClaimPayment pF clp st) = c_adjustments st"
  "serviceLines (mkClaimPayment pF clp st) = c_serviceLines st"
  by (simp_all add: mkClaimPayment_def Let_def)

lemma parse835_claimPayments:
  "parse835 pI pF content = Inr parsed \<Longrightarrow>
     claimPayments parsed = parseClaimPayments pI pF (parseEDISegments content)"
  by (auto simp: parse835_def Let_def split: if_splits)

lemma cas_no_group835_parsed:
  "map segid (parseEDISegments cas_no_group835) = [''CLP'', ''CAS'']"
  "adjustments (hd (claimPayments (projr (parse835 parseDecimal parseDecimal cas_no_group835)))) = []"
  by code_simp+

text \<open>
  C9 as stated fails for a CAS segment with no group code: \<open>parseAdjustment\<close> returns
  \<^verbatim>\<open>null\<close> for it and it is left out of the claim-level list.
\<close>

theorem C9_counterexample:
  "map segid (parseEDISegments cas_no_group835) = [''CLP'', ''CAS'']
   \<and> adjustments (hd (claimPayments (projr (parse835 parseDecimal parseDecimal cas_no_group835)))) = []"
  by (simp add: cas_no_group835_parsed)

text \<open>
  C9, amended. In every \<open>parse835\<close> result, the claim-level adjustments of the entry of a CLP
  segment are the parsed adjustments of exactly the CAS segments with a non-empty group
  code between that CLP and the next CLP (or the end of the file), in file order, those
  after an SVC segment included. Every adjustment of each of the entry's service lines is
  therefore also in the claim-level list, the adjustments of a service line being those of
  the CAS segments with a group code between its SVC and the next SVC (or the end of the
  CLP loop).
\<close>

theorem C9_claim_level_adjustments:
  assumes p: "parse835 pI pF content = Inr parsed"
    and segs: "parseEDISegments content = pre @ clp # rest"
    and clp: "segid clp = ''CLP''"
    and e: "e = claimPayments parsed ! length (filter (\<lambda>s. segid s = ''CLP'') pre)"
  shows "adjustments e =
           List.map_filter (parseAdjustment pF)
             (filter (\<lambda>s. segid s = ''CAS'') (takeWhile (\<lambda>s. segid s \<noteq> ''CLP'') rest))
         \<and> (\<forall>sl \<in> set (serviceLines e). set (adjustments_sl sl) \<subseteq> set (adjustments e))
         \<and> (\<forall>a svc b. takeWhile (\<lambda>s. segid s \<noteq> ''CLP'') rest = a @ svc # b \<and> segid svc = ''SVC'' \<longrightarrow>
               adjustments_sl (serviceLines e ! length (filter (\<lambda>s. segid s = ''SVC'') a)) =
                 List.map_filter (parseAdjustment pF)
                   (filter (\<lambda>s. segid s = ''CAS'') (takeWhile (\<lambda>s. segid s \<noteq> ''SVC'') b)))"
proof -
  have ee: "e = mkClaimPayment pF clp (scan835 pI pF rest scan835_init)"
    using parse835_claimPayments[OF p] segs parseClaimPayments_nth[OF clp] e by simp
  have adj: "adjustments e =
           List.map_filter (parseAdjustment pF)
             (filter (\<lambda>s. segid s = ''CAS'') (takeWhile (\<lambda>s. segid s \<noteq> ''CLP'') rest))"
    by (simp add: ee mkClaimPayment_lists scan835_adjustments scan835_init_def)
  have sub: "\<forall>sl \<in> set (serviceLines e). set (adjustments_sl sl) \<subseteq> set (adjustments e)"
  proof
    fix sl assume "sl \<in> set (serviceLines e)"
    then have "sl \<in> set (c_serviceLines (scan835 pI pF rest scan835_init))"
      by (simp add: ee mkClaimPayment_lists)
    from scan835_serviceLines_subset[OF this]
    show "set (adjustments_sl sl) \<subseteq> set (adjustments e)"
      by (simp add: adj scan835_init_def)
  qed
  have nth: "adjustments_sl (serviceLines e ! length (filter (\<lambda>s. segid s = ''SVC'') a)) =
                 List.map_filter (parseAdjustment pF)
                   (filter (\<lambda>s. segid s = ''CAS'') (takeWhile (\<lambda>s. segid s \<noteq> ''SVC'') b))"
    if tw: "takeWhile (\<lambda>s. segid s \<noteq> ''CLP'') rest = a @ svc # b" and svc: "segid svc = ''SVC''"
    for a svc b
  proof -
    let ?tl = "dropWhile (\<lambda>s. segid s \<noteq> ''CLP'') rest"
    have r: "rest = a @ svc # (b @ ?tl)"
      using takeWhile_dropWhile_id[of "\<lambda>s. segid s \<noteq> ''CLP''" rest] tw by simp
    have inloop: "\<forall>s \<in> set (a @ svc # b). segid s \<noteq> ''CLP''"
      using set_takeWhileD[of _ "\<lambda>s. segid s \<noteq> ''CLP''" rest] tw by metis
    have tl: "?tl = [] \<or> segid (hd ?tl) = ''CLP''"
      using hd_dropWhile[of "\<lambda>s. segid s \<noteq> ''CLP''" rest] by auto
    have "serviceLines e ! length (filter (\<lambda>s. segid s = ''SVC'') a)
            = parseServiceLine pI pF svc (b @ ?tl)"
      using scan835_serviceLine_nth[of a svc pI pF "b @ ?tl" scan835_init] inloop svc r
      by (simp add: ee mkClaimPayment_lists scan835_init_def)
    then have "adjustments_sl (serviceLines e ! length (filter (\<lambda>s. segid s = ''SVC'') a))
            = svcAdjustments pF (b @ ?tl)"
      by (simp add: parseServiceLine_def Let_def)
    also have "\<dots> = List.map_filter (parseAdjustment pF)
                   (filter (\<lambda>s. segid s = ''CAS'') (takeWhile (\<lambda>s. segid s \<noteq> ''SVC'') b))"
      using takeWhile_loop_tail[of b ?tl] inloop tl by (simp add: svcAdjustments_eq)
    finally show ?thesis .
  qed
  from adj sub nth show ?thesis by blast
qed

lemma lines835_parsed:
  "parse835 parseDecimal parseDecimal lines835
     = Inr (projr (parse835 parseDecimal parseDecimal lines835))"
  "parseEDISegments lines835 = [] @ hd (parseEDISegments lines835) # tl (parseEDISegments lines835)"
  "segid (hd (parseEDISegments lines835)) = ''CLP''"
  "map (\<lambda>a. (groupCode a, reasonCode a))
     (adjustments (claimPayments (projr (parse835 parseDecimal parseDecimal lines835)) ! 0))
     = [(''CO'', ''45''), (''PR'', ''1'')]"
  "map (\<lambda>a. (groupCode a, reasonCode a))
     (adjustments_sl
        (serviceLines (claimPayments (projr (parse835 parseDecimal parseDecimal lines835)) ! 0) ! 0))
     = [(''PR'', ''1'')]"
  by code_simp+

theorem C9_claim_level_adjustments_witness:
  "segid (hd (parseEDISegments lines835)) = ''CLP''
   \<and> map (\<lambda>a. (groupCode a, reasonCode a))
        (adjustments (claimPayments (projr (parse835 parseDecimal parseDecimal lines835)) ! 0))
      = [(''CO'', ''45''), (''PR'', ''1'')]
   \<and> map (\<lambda>a. (groupCode a, reasonCode a))
        (adjustments_sl
           (serviceLines (claimPayments (projr (parse835 parseDecimal parseDecimal lines835)) ! 0) ! 0))
      = [(''PR'', ''1'')]"
  using C9_claim_level_adjustments [OF lines835_parsed(1) lines835_parsed(2) lines835_parsed(3),
          where e = "claimPayments (projr (parse835 parseDecimal parseDecimal lines835)) ! 0"]
        lines835_parsed(3,4,5)
  by simp

text \<open>
  C10. An entry of a parsed 835 whose paid amount is at most zero and whose charge amount
  is not greater than zero is returned neither by \<open>getPaidClaims\<close> nor by
  \<open>getDeniedClaims\<close>: the two helpers do not partition the claim payments.
\<close>

theorem C10_helpers_no_partition:
  "parse835 pI pF content = Inr parsed \<Longrightarrow>
   cp \<in> set (claimPayments parsed) \<Longrightarrow>
   le0 (paidAmount cp) \<Longrightarrow>
   \<not> gt0 (chargeAmount cp) \<Longrightarrow>
   cp \<notin> set (getPaidClaims parsed) \<and> cp \<notin> set (getDeniedClaims parsed)"
  by (cases "paidAmount cp") (auto simp: getPaidClaims_def getDeniedClaims_def)

theorem C10_helpers_no_partition_witness:
  "reversal_cp \<in> set (claimPayments (projr (parse835 parseDecimal parseDecimal reversal835)))
   \<and> le0 (paidAmount reversal_cp)
   \<and> \<not> gt0 (chargeAmount reversal_cp)
   \<and> reversal_cp \<notin> set (getPaidClaims (projr (parse835 parseDecimal parseDecimal reversal835)))
   \<and> reversal_cp \<notin> set (getDeniedClaims (projr (parse835 parseDecimal parseDecimal reversal835)))"
proof -
  have m: "reversal_cp \<in> set (claimPayments (projr (parse835 parseDecimal parseDecimal reversal835)))"
    by (simp add: reversal835_parsed)
  have p: "le0 (paidAmount reversal_cp)" by (simp add: reversal_cp_def)
  have c: "\<not> gt0 (chargeAmount reversal_cp)" by (simp add: reversal_cp_def)
  from reversal835_parsed
  have e: "parse835 parseDecimal parseDecimal reversal835
             = Inr (projr (parse835 parseDecimal parseDecimal reversal835))"
    by simp
  show ?thesis
    using C10_helpers_no_partition [OF e m p c] m p c by simp
qed

section \<open>Properties of the reconciliation engine\<close>

lemma update277_id [simp]: "claim_id (update277 cs t r) = claim_id r"
  by (simp add: update277_def Let_def split: option.splits)

lemma update277_status [simp]: "status (update277 cs t r) = claimStatus cs"
  by (simp add: update277_def Let_def split: option.splits)

lemma update835_id [simp]: "claim_id (update835 p t r) = claim_id r"
  by (simp add: update835_def Let_def)

lemma update835_status [simp]: "status (update835 p t r) = (if gt0 (paidAmount p) then Paid else Denied)"
  by (simp add: update835_def Let_def)

text \<open>Rows with distinct keys: a row other than \<open>c\<close> has a key other than that of \<open>c\<close>.\<close>

lemma distinct_ids_neq:
  assumes "distinct (map claim_id rows)" "c \<in> set rows" "i < length rows" "rows ! i \<noteq> c"
  shows "claim_id (rows ! i) \<noteq> claim_id c"
proof
  assume e: "claim_id (rows ! i) = claim_id c"
  from assms(2) obtain j where j: "j < length rows" "rows ! j = c"
    by (auto simp: in_set_conv_nth)
  with e assms(3) have "map claim_id rows ! i = map claim_id rows ! j" by simp
  with nth_eq_iff_index_eq[OF assms(1), of i j] j(1) assms(3) have "i = j"
    by simp
  with j assms(4) show False by simp
qed

lemma apply277_eq:
  "apply277 env fileId cs (st, n) claim =
     (if fails env (writes st) then (st\<lparr>writes := writes st + 1\<rparr>, n)
      else (st\<lparr>claims := map (\<lambda>r. if claim_id r = claim_id claim
                                    then update277 cs (now env (writes st)) r else r) (claims st),
               claim_status_events := claim_status_events st @
                 (if fails env (writes st + 1) then []
                  else [\<lparr>ev_claim_id = claim_id claim, response_file_id = fileId,
                         previous_status = status claim, new_status = claimStatus cs,
                         source = Source277,
                         response_code = str_or_null (statusCategoryCode cs),
                         response_description = str_or_null (statusDescription_277 cs),
                         payment_amount = None\<rparr>]),
               writes := writes st + 2\<rparr>, n + 1))"
  by (simp add: apply277_def update_claim_def recordStatusEvent_def Let_def num_or_null_def)

lemma apply835_eq:
  "apply835 env fileId p (st, n) claim =
     (if fails env (writes st) then (st\<lparr>writes := writes st + 1\<rparr>, n)
      else (st\<lparr>claims := map (\<lambda>r. if claim_id r = claim_id claim
                                    then update835 p (now env (writes st)) r else r) (claims st),
               claim_status_events := claim_status_events st @
                 (if fails env (writes st + 1) then []
                  else [\<lparr>ev_claim_id = claim_id claim, response_file_id = fileId,
                         previous_status = status claim,
                         new_status = (if gt0 (paidAmount p) then Paid else Denied),
                         source = Source835,
                         response_code = str_or_null (statusCode_cp p),
                         response_description = str_or_null (statusDescription_cp p),
                         payment_amount = (if truthy (paidAmount p) then Some (paidAmount p) else None)\<rparr>]),
               writes := writes st + 2\<rparr>, n + 1))"
  by (simp add: apply835_def update_claim_def recordStatusEvent_def Let_def num_or_null_def)

lemma apply999_eq:
  "apply999 env fileId parsed (st, n) claim =
     (if status claim = Submitted \<or> (status claim = Acknowledged \<and> \<not> accepted parsed)
      then (if fails env (writes st) then (st\<lparr>writes := writes st + 1\<rparr>, n)
            else (st\<lparr>claims := map (\<lambda>r. if claim_id r = claim_id claim
                                    then r\<lparr>status := (if accepted parsed then Acknowledged else Rejected),
                              acknowledgment_date := Some (now env (writes st)),
                              rejection_reason :=
                                (if accepted parsed then None else Some (statusDescription_999 parsed)),
                              rejection_codes := errorCodes parsed\<rparr> else r) (claims st),
               claim_status_events := claim_status_events st @
                 (if fails env (writes st + 1) then []
                  else [\<lparr>ev_claim_id = claim_id claim, response_file_id = fileId,
                         previous_status = status claim,
                         new_status = (if accepted parsed then Acknowledged else Rejected),
                         source = Source999,
                         response_code = str_or_null (statusCode_999 parsed),
                         response_description = str_or_null (statusDescription_999 parsed),
                         payment_amount = None\<rparr>]),
               writes := writes st + 2\<rparr>, n + 1))
      else (st, n))"
  by (simp add: apply999_def update_claim_def recordStatusEvent_def Let_def num_or_null_def)


text \<open>
  A loop over claims read from the store, whose body rewrites at most the rows with the
  key of the claim in hand and only for claims satisfying \<open>Q\<close>: rows of other claims, and
  rows of claims not satisfying \<open>Q\<close>, come out as they went in.
\<close>

lemma foldl_rows_unchanged:
  fixes step :: "Store \<times> nat \<Rightarrow> ClaimRow \<Rightarrow> Store \<times> nat"
  assumes step: "\<And>st n c. \<exists>g. (\<forall>r. claim_id (g r) = claim_id r) \<and>
            claims (fst (step (st, n) c)) =
              map (\<lambda>r. if claim_id r = claim_id c \<and> Q c then g r else r) (claims st)"
    and d: "distinct (map claim_id rows)"
    and sub: "set cl \<subseteq> set rows"
    and ids: "map claim_id (claims st1) = map claim_id rows"
  shows "map claim_id (claims (fst (foldl step (st1, n) cl))) = map claim_id rows
         \<and> (\<forall>i < length rows. rows ! i \<notin> set cl \<or> \<not> Q (rows ! i) \<longrightarrow>
               claims (fst (foldl step (st1, n) cl)) ! i = claims st1 ! i)"
  using sub ids
proof (induction cl arbitrary: st1 n)
  case Nil
  then show ?case by simp
next
  case (Cons c cl)
  obtain sta na where sa: "step (st1, n) c = (sta, na)" by (cases "step (st1, n) c")
  from step[of st1 n c] sa obtain g where g: "\<forall>r. claim_id (g r) = claim_id r"
    "claims sta = map (\<lambda>r. if claim_id r = claim_id c \<and> Q c then g r else r) (claims st1)"
    by auto
  have len: "length (claims st1) = length rows"
    using Cons.prems(2) by (metis length_map)
  have idsa: "map claim_id (claims sta) = map claim_id rows"
  proof -
    have "map claim_id (claims sta) = map claim_id (claims st1)"
      unfolding g(2) map_map by (rule map_cong[OF refl]) (simp add: g(1))
    with Cons.prems(2) show ?thesis by simp
  qed
  have c_in: "c \<in> set rows" using Cons.prems(1) by simp
  have keep: "claims sta ! i = claims st1 ! i"
    if i: "i < length rows" and h: "rows ! i \<notin> set (c # cl) \<or> \<not> Q (rows ! i)" for i
  proof (cases "Q c")
    case False
    then show ?thesis using g(2) by simp
  next
    case True
    with h have "rows ! i \<noteq> c" by auto
    from distinct_ids_neq[OF d c_in i this]
    have "claim_id (rows ! i) \<noteq> claim_id c" .
    moreover have "claim_id (claims st1 ! i) = claim_id (rows ! i)"
      using Cons.prems(2) i len by (metis nth_map)
    ultimately show ?thesis using g(2) i len by simp
  qed
  from Cons.IH[of sta na] Cons.prems(1) idsa
  have ih: "map claim_id (claims (fst (foldl step (sta, na) cl))) = map claim_id rows"
    "\<And>i. i < length rows \<Longrightarrow> rows ! i \<notin> set cl \<or> \<not> Q (rows ! i) \<Longrightarrow>
        claims (fst (foldl step (sta, na) cl)) ! i = claims sta ! i"
    by auto
  show ?case
  proof (intro conjI allI impI)
    show "map claim_id (claims (fst (foldl step (st1, n) (c # cl)))) = map claim_id rows"
      using ih(1) sa by simp
  next
    fix i assume i: "i < length rows" and h: "rows ! i \<notin> set (c # cl) \<or> \<not> Q (rows ! i)"
    then have "rows ! i \<notin> set cl \<or> \<not> Q (rows ! i)" by auto
    from ih(2)[OF i this] keep[OF i h] sa
    show "claims (fst (foldl step (st1, n) (c # cl))) ! i = claims st1 ! i" by simp
  qed
qed

lemma apply999_rows:
  "\<exists>g. (\<forall>r. claim_id (g r) = claim_id r) \<and>
     claims (fst (apply999 env fid parsed (st, n) c)) =
       map (\<lambda>r. if claim_id r = claim_id c
                   \<and> (status c = Submitted \<or> (status c = Acknowledged \<and> \<not> accepted parsed))
                 then g r else r) (claims st)"
proof (cases "fails env (writes st)")
  case True
  then show ?thesis
    by (intro exI[of _ "\<lambda>r. r"]) (simp add: apply999_eq)
next
  case False
  then show ?thesis
    by (intro exI[of _ "\<lambda>r. r\<lparr>status := (if accepted parsed then Acknowledged else Rejected),
                              acknowledgment_date := Some (now env (writes st)),
                              rejection_reason :=
                                (if accepted parsed then None else Some (statusDescription_999 parsed)),
                              rejection_codes := errorCodes parsed\<rparr>"]) (simp add: apply999_eq)
qed

lemma apply277_rows:
  "\<exists>g. (\<forall>r. claim_id (g r) = claim_id r) \<and>
     claims (fst (apply277 env fid cs (st, n) c)) =
       map (\<lambda>r. if claim_id r = claim_id c \<and> True then g r else r) (claims st)"
proof (cases "fails env (writes st)")
  case True
  then show ?thesis
    by (intro exI[of _ "\<lambda>r. r"]) (simp add: apply277_eq)
next
  case False
  then show ?thesis
    by (intro exI[of _ "update277 cs (now env (writes st))"]) (simp add: apply277_eq)
qed

lemma apply835_rows:
  "\<exists>g. (\<forall>r. claim_id (g r) = claim_id r) \<and>
     claims (fst (apply835 env fid p (st, n) c)) =
       map (\<lambda>r. if claim_id r = claim_id c \<and> True then g r else r) (claims st)"
proof (cases "fails env (writes st)")
  case True
  then show ?thesis
    by (intro exI[of _ "\<lambda>r. r"]) (simp add: apply835_eq)
next
  case False
  then show ?thesis
    by (intro exI[of _ "update835 p (now env (writes st))"]) (simp add: apply835_eq)
qed

lemma select_subset:
  "set (select_by_control_number st cn) \<subseteq> set (claims st)"
  "set (select_by_payer_claim_number st p) \<subseteq> set (claims st)"
  by (auto simp: select_by_control_number_def select_by_payer_claim_number_def)

lemma process999File_paid_rows:
  assumes d: "distinct (map claim_id (claims st))"
    and i: "i < length (claims st)" and paid: "status (claims st ! i) = Paid"
  shows "claims (fst (process999File env pI fid content st)) ! i = claims st ! i"
proof (cases "parse999 pI content")
  case (Inl e)
  then show ?thesis by (simp add: process999File_def)
next
  case (Inr parsed)
  show ?thesis
  proof (cases "originalControlNumber parsed = []")
    case True
    with Inr show ?thesis by (simp add: process999File_def)
  next
    case False
    let ?cl = "select_by_control_number st (originalControlNumber parsed)"
    from foldl_rows_unchanged[where step = "apply999 env fid parsed"
          and Q = "\<lambda>c. status c = Submitted \<or> (status c = Acknowledged \<and> \<not> accepted parsed)"
          and rows = "claims st" and cl = ?cl and ?st1.0 = st and n = 0,
          OF apply999_rows d select_subset(1) refl]
    have "claims (fst (foldl (apply999 env fid parsed) (st, 0) ?cl)) ! i = claims st ! i"
      using i paid by simp
    with Inr False show ?thesis by (simp add: process999File_def Let_def)
  qed
qed

lemma distinct_filter_rows:
  "distinct (map claim_id rows) \<Longrightarrow> distinct (filter P rows)"
  by (simp add: distinct_map)

lemma foldl_apply277_updated:
  assumes d: "distinct (map claim_id rows)"
    and nf: "\<forall>k. \<not> fails env k"
  shows "set cl \<subseteq> set rows \<Longrightarrow> distinct cl \<Longrightarrow> map claim_id (claims st1) = map claim_id rows \<Longrightarrow>
         i < length rows \<Longrightarrow> rows ! i \<in> set cl \<Longrightarrow>
         \<exists>t. claims (fst (foldl (apply277 env fid cs) (st1, n) cl)) ! i = update277 cs t (claims st1 ! i)"
proof (induction cl arbitrary: st1 n)
  case Nil
  then show ?case by simp
next
  case (Cons c cl)
  let ?sta = "fst (apply277 env fid cs (st1, n) c)"
  let ?na = "snd (apply277 env fid cs (st1, n) c)"
  have len: "length (claims st1) = length rows"
    using Cons.prems(3) by (metis length_map)
  have cla: "claims ?sta = map (\<lambda>r. if claim_id r = claim_id c
                 then update277 cs (now env (writes st1)) r else r) (claims st1)"
    using nf by (simp add: apply277_eq)
  have idsa: "map claim_id (claims ?sta) = map claim_id rows"
  proof -
    have "map claim_id (claims ?sta) = map claim_id (claims st1)"
      unfolding cla map_map by (rule map_cong[OF refl]) simp
    with Cons.prems(3) show ?thesis by simp
  qed
  have idi: "claim_id (claims st1 ! i) = claim_id (rows ! i)"
    using Cons.prems(3,4) len by (metis nth_map)
  have fold_eq: "foldl (apply277 env fid cs) (st1, n) (c # cl) = foldl (apply277 env fid cs) (?sta, ?na) cl"
    by simp
  show ?case
  proof (cases "rows ! i = c")
    case True
    then have a: "claims ?sta ! i = update277 cs (now env (writes st1)) (claims st1 ! i)"
      using cla idi Cons.prems(4) len by simp
    from True Cons.prems(2) have "rows ! i \<notin> set cl" by simp
    with foldl_rows_unchanged[where step = "apply277 env fid cs" and Q = "\<lambda>c. True"
          and rows = rows and cl = cl and ?st1.0 = ?sta and n = ?na, OF apply277_rows d _ idsa]
        Cons.prems(1,4)
    have "claims (fst (foldl (apply277 env fid cs) (?sta, ?na) cl)) ! i = claims ?sta ! i"
      by simp
    with a fold_eq show ?thesis by (metis)
  next
    case False
    with Cons.prems(5) have in_cl: "rows ! i \<in> set cl" by simp
    have c_in: "c \<in> set rows" using Cons.prems(1) by simp
    from distinct_ids_neq[OF d c_in Cons.prems(4) False] idi
    have b: "claims ?sta ! i = claims st1 ! i"
      using cla Cons.prems(4) len by simp
    from Cons.IH[of ?sta ?na] Cons.prems(1,2) idsa Cons.prems(4) in_cl
    obtain t where "claims (fst (foldl (apply277 env fid cs) (?sta, ?na) cl)) ! i
                      = update277 cs t (claims ?sta ! i)"
      by auto
    with b fold_eq show ?thesis by (metis)
  qed
qed

lemma match277_subset: "set (match277 st cs) \<subseteq> set (claims st)"
  by (auto simp: match277_def Let_def select_by_control_number_def select_by_payer_claim_number_def
        split: option.splits if_splits)

lemma match277_distinct: "distinct (map claim_id (claims st)) \<Longrightarrow> distinct (match277 st cs)"
  by (auto simp: match277_def Let_def select_by_control_number_def select_by_payer_claim_number_def
        distinct_filter_rows split: option.splits)

lemma process277Entry_rows:
  assumes d: "distinct (map claim_id (claims st))" and i: "i < length (claims st)"
  shows "claims st ! i \<notin> set (match277 st cs) \<Longrightarrow>
           claims (fst (process277Entry env fid (st, m, u) cs)) ! i = claims st ! i"
    and "\<forall>k. \<not> fails env k \<Longrightarrow> claims st ! i \<in> set (match277 st cs) \<Longrightarrow>
           \<exists>t. claims (fst (process277Entry env fid (st, m, u) cs)) ! i = update277 cs t (claims st ! i)"
proof -
  assume "claims st ! i \<notin> set (match277 st cs)"
  with foldl_rows_unchanged[where step = "apply277 env fid cs" and Q = "\<lambda>c. True"
          and rows = "claims st" and cl = "match277 st cs" and ?st1.0 = st and n = u,
          OF apply277_rows d match277_subset refl] i
  show "claims (fst (process277Entry env fid (st, m, u) cs)) ! i = claims st ! i"
    by (simp add: process277Entry_def Let_def)
next
  assume nf: "\<forall>k. \<not> fails env k" and "claims st ! i \<in> set (match277 st cs)"
  with foldl_apply277_updated[OF d nf match277_subset match277_distinct[OF d] refl i, where cs = cs and fid = fid and n = u]
  show "\<exists>t. claims (fst (process277Entry env fid (st, m, u) cs)) ! i = update277 cs t (claims st ! i)"
    by (simp add: process277Entry_def Let_def)
qed

lemma match277_cases:
  "controlNumber cs \<noteq> [] \<Longrightarrow> select_by_control_number st (controlNumber cs) \<noteq> [] \<Longrightarrow>
     match277 st cs = filter (\<lambda>r. control_number r = Some (controlNumber cs)) (claims st)"
  "controlNumber cs = [] \<or> select_by_control_number st (controlNumber cs) = [] \<Longrightarrow>
     payerClaimNumber cs = Some p \<Longrightarrow> p \<noteq> [] \<Longrightarrow>
     match277 st cs = filter (\<lambda>r. payer_claim_number r = Some p) (claims st)"
  "controlNumber cs = [] \<or> select_by_control_number st (controlNumber cs) = [] \<Longrightarrow>
     payerClaimNumber cs = None \<or> payerClaimNumber cs = Some []
       \<or> (\<exists>p. payerClaimNumber cs = Some p \<and> select_by_payer_claim_number st p = []) \<Longrightarrow>
     match277 st cs = []"
  by (auto simp: match277_def Let_def select_by_control_number_def select_by_payer_claim_number_def
        split: option.splits)

lemma select_nonempty:
  "select_by_control_number st cn \<noteq> [] \<longleftrightarrow> (\<exists>r \<in> set (claims st). control_number r = Some cn)"
  "select_by_payer_claim_number st p \<noteq> [] \<longleftrightarrow> (\<exists>r \<in> set (claims st). payer_claim_number r = Some p)"
  by (auto simp: select_by_control_number_def select_by_payer_claim_number_def filter_empty_conv)

lemma match277_by_store:
  "controlNumber cs \<noteq> [] \<Longrightarrow> \<exists>r \<in> set (claims st). control_number r = Some (controlNumber cs) \<Longrightarrow>
     match277 st cs = filter (\<lambda>r. control_number r = Some (controlNumber cs)) (claims st)"
  "controlNumber cs = [] \<or> (\<forall>r \<in> set (claims st). control_number r \<noteq> Some (controlNumber cs)) \<Longrightarrow>
     payerClaimNumber cs = Some p \<Longrightarrow> p \<noteq> [] \<Longrightarrow>
     match277 st cs = filter (\<lambda>r. payer_claim_number r = Some p) (claims st)"
  "controlNumber cs = [] \<or> (\<forall>r \<in> set (claims st). control_number r \<noteq> Some (controlNumber cs)) \<Longrightarrow>
     payerClaimNumber cs = None \<or> payerClaimNumber cs = Some []
       \<or> (\<exists>q. payerClaimNumber cs = Some q \<and> (\<forall>r \<in> set (claims st). payer_claim_number r \<noteq> Some q)) \<Longrightarrow>
     match277 st cs = []"
proof -
  show "controlNumber cs \<noteq> [] \<Longrightarrow> \<exists>r \<in> set (claims st). control_number r = Some (controlNumber cs) \<Longrightarrow>
     match277 st cs = filter (\<lambda>r. control_number r = Some (controlNumber cs)) (claims st)"
    using match277_cases(1)[of cs st] select_nonempty(1)[of st "controlNumber cs"] by blast
  show "controlNumber cs = [] \<or> (\<forall>r \<in> set (claims st). control_number r \<noteq> Some (controlNumber cs)) \<Longrightarrow>
     payerClaimNumber cs = Some p \<Longrightarrow> p \<noteq> [] \<Longrightarrow>
     match277 st cs = filter (\<lambda>r. payer_claim_number r = Some p) (claims st)"
    using match277_cases(2)[of cs st p] select_nonempty(1)[of st "controlNumber cs"] by blast
  show "controlNumber cs = [] \<or> (\<forall>r \<in> set (claims st). control_number r \<noteq> Some (controlNumber cs)) \<Longrightarrow>
     payerClaimNumber cs = None \<or> payerClaimNumber cs = Some []
       \<or> (\<exists>q. payerClaimNumber cs = Some q \<and> (\<forall>r \<in> set (claims st). payer_claim_number r \<noteq> Some q)) \<Longrightarrow>
     match277 st cs = []"
    using match277_cases(3)[of cs st] select_nonempty(1)[of st "controlNumber cs"]
          select_nonempty(2)[of st] by blast
qed

lemma process277Entry_matched:
  "fst (snd (process277Entry env fid (st, m, u) cs)) = m + length (match277 st cs)"
  by (simp add: process277Entry_def Let_def)


lemma store_two_run:
  "distinct (map claim_id (claims store_two))"
  "map control_number (claims store_two) = [Some ''111'', Some ''222'']"
  "map payer_claim_number (claims store_two) = [Some ''PCN9'', None]"
  "controlNumber entry_by_control = ''222''"
  "payerClaimNumber entry_by_control = Some ''PCN9''"
  "map status (claims (fst (process277Entry env_ok ''file1'' (store_two, 0, 0) entry_by_control)))
     = [Submitted, Accepted]"
  "controlNumber entry_by_payer = ''999''"
  "payerClaimNumber entry_by_payer = Some ''PCN9''"
  "map status (claims (fst (process277Entry env_ok ''file1'' (store_two, 0, 0) entry_by_payer)))
     = [Accepted, Submitted]"
  "controlNumber entry_unmatched = ''999''"
  "payerClaimNumber entry_unmatched = Some ''PCN0''"
  "process277Entry env_ok ''file1'' (store_two, 0, 0) entry_unmatched = (store_two, 0, 0)"
  by code_simp+


lemma process999File_ids:
  assumes d: "distinct (map claim_id (claims st))"
  shows "map claim_id (claims (fst (process999File env pI fid content st))) = map claim_id (claims st)"
proof (cases "parse999 pI content")
  case (Inl e)
  then show ?thesis by (simp add: process999File_def)
next
  case (Inr parsed)
  show ?thesis
  proof (cases "originalControlNumber parsed = []")
    case True
    with Inr show ?thesis by (simp add: process999File_def)
  next
    case False
    let ?cl = "select_by_control_number st (originalControlNumber parsed)"
    from foldl_rows_unchanged[where step = "apply999 env fid parsed"
          and Q = "\<lambda>c. status c = Submitted \<or> (status c = Acknowledged \<and> \<not> accepted parsed)"
          and rows = "claims st" and cl = ?cl and ?st1.0 = st and n = 0,
          OF apply999_rows d select_subset(1) refl]
    have "map claim_id (claims (fst (foldl (apply999 env fid parsed) (st, 0) ?cl)))
            = map claim_id (claims st)"
      by simp
    with Inr False show ?thesis by (simp add: process999File_def Let_def)
  qed
qed

lemma process277Entry_by_control:
  assumes d: "distinct (map claim_id (claims st))" and nf: "\<forall>k. \<not> fails env k"
    and cn: "controlNumber cs \<noteq> []" and i: "i < length (claims st)"
    and m: "control_number (claims st ! i) = Some (controlNumber cs)"
  shows "status (claims (fst (process277Entry env fid (st, m0, u) cs)) ! i) = claimStatus cs"
proof -
  from i m have "claims st ! i \<in> set (select_by_control_number st (controlNumber cs))"
    by (simp add: select_by_control_number_def)
  then have ne: "select_by_control_number st (controlNumber cs) \<noteq> []" by auto
  from match277_cases(1)[OF cn ne] i m
  have "claims st ! i \<in> set (match277 st cs)" by simp
  from process277Entry_rows(2)[OF d i nf this, of fid m0 u]
  show ?thesis by auto
qed

lemma store_paid_runs:
  "distinct (map claim_id (claims store_paid))"
  "map status (claims store_paid) = [Paid]"
  "map control_number (claims store_paid) = [Some ''123456789'']"
  "map controlNumber (claimStatuses (projr (parse277 parseDecimal rejecting277))) = [''123456789'']"
  "map status (claims (fst (process277File env_ok parseDecimal ''file1'' rejecting277 store_paid)))
     = [Rejected]"
  "originalControlNumber (projr (parse999 parseDecimal rejecting999)) = ''123456789''"
  "accepted (projr (parse999 parseDecimal rejecting999)) = False"
  "map status (claims (fst (process999File env_ok parseDecimal ''file0'' rejecting999 store_paid)))
     = [Paid]"
  by code_simp+

text \<open>
  C3 as stated fails for a 277: a claim in status \<open>paid\<close> with control number 123456789
  is set to \<open>rejected\<close> by a 277 whose entry for that control number has category A3.
\<close>

theorem C3_counterexample:
  "map status (claims store_paid) = [Paid]
   \<and> map control_number (claims store_paid) = [Some ''123456789'']
   \<and> map controlNumber (claimStatuses (projr (parse277 parseDecimal rejecting277))) = [''123456789'']
   \<and> map status (claims (fst (process277File env_ok parseDecimal ''file1'' rejecting277 store_paid)))
      = [Rejected]"
  by (simp add: store_paid_runs)

text \<open>
  C3, amended. In a store with distinct claim keys, processing any 999 leaves every row
  whose status is \<open>paid\<close> exactly as it was (and no row is added or removed). A 277 entry
  whose control number is that of a stored claim sets that claim's status to the status
  mapped from the entry's category code whenever the store's writes succeed, whatever the
  claim's status was: a paid claim stays paid only if the mapped status is \<open>paid\<close>.
\<close>

theorem C3_paid_kept_by_999:
  assumes d: "distinct (map claim_id (claims st))"
  shows "map claim_id (claims (fst (process999File env pI fid content st))) = map claim_id (claims st)
     \<and> (\<forall>i < length (claims st). status (claims st ! i) = Paid \<longrightarrow>
           claims (fst (process999File env pI fid content st)) ! i = claims st ! i)
     \<and> ((\<forall>k. \<not> fails env k) \<and> controlNumber cs \<noteq> [] \<longrightarrow>
          (\<forall>i < length (claims st). control_number (claims st ! i) = Some (controlNumber cs) \<longrightarrow>
             status (claims (fst (process277Entry env fid (st, m, u) cs)) ! i) = claimStatus cs))"
  using process999File_ids[OF d] process999File_paid_rows[OF d] process277Entry_by_control[OF d]
  by blast

theorem C3_paid_kept_by_999_witness:
  "distinct (map claim_id (claims store_paid))
   \<and> map status (claims store_paid) = [Paid]
   \<and> originalControlNumber (projr (parse999 parseDecimal rejecting999)) = ''123456789''
   \<and> accepted (projr (parse999 parseDecimal rejecting999)) = False
   \<and> map status (claims (fst (process999File env_ok parseDecimal ''file0'' rejecting999 store_paid)))
      = [Paid]"
  using C3_paid_kept_by_999 [OF store_paid_runs(1), where env = env_ok and pI = parseDecimal
          and fid = "''file0''" and content = rejecting999]
        store_paid_runs
  by simp

text \<open>
  Counting over a loop whose body makes one write for a claim satisfying \<open>Q\<close>, a second one
  when the first succeeded, and then counts the claim.
\<close>

lemma foldl_counts:
  fixes step :: "Store \<times> nat \<Rightarrow> ClaimRow \<Rightarrow> Store \<times> nat"
  assumes step: "\<And>st n c.
       writes (fst (step (st, n) c)) + n = writes st + (if Q c then 1 else 0) + snd (step (st, n) c)
     \<and> n \<le> snd (step (st, n) c)
     \<and> snd (step (st, n) c) \<le> n + (if Q c then 1 else 0)
     \<and> length (claim_status_events (fst (step (st, n) c))) + n
          \<le> length (claim_status_events st) + snd (step (st, n) c)
     \<and> ((\<forall>k. \<not> fails env k) \<longrightarrow>
          snd (step (st, n) c) = n + (if Q c then 1 else 0)
          \<and> length (claim_status_events (fst (step (st, n) c)))
              = length (claim_status_events st) + (if Q c then 1 else 0))"
  shows "writes (fst (foldl step (st, n) cl)) + n
           = writes st + length (filter Q cl) + snd (foldl step (st, n) cl)
     \<and> n \<le> snd (foldl step (st, n) cl)
     \<and> snd (foldl step (st, n) cl) \<le> n + length (filter Q cl)
     \<and> length (claim_status_events (fst (foldl step (st, n) cl))) + n
          \<le> length (claim_status_events st) + snd (foldl step (st, n) cl)
     \<and> ((\<forall>k. \<not> fails env k) \<longrightarrow>
          snd (foldl step (st, n) cl) = n + length (filter Q cl)
          \<and> length (claim_status_events (fst (foldl step (st, n) cl)))
              = length (claim_status_events st) + length (filter Q cl))"
proof (induction cl arbitrary: st n)
  case Nil
  then show ?case by simp
next
  case (Cons c cl)
  obtain sta na where sa: "step (st, n) c = (sta, na)" by (cases "step (st, n) c")
  from step[of st n c] sa
  have s1: "writes sta + n = writes st + (if Q c then 1 else 0) + na"
    and s2: "n \<le> na"
    and s5: "na \<le> n + (if Q c then 1 else 0)"
    and s3: "length (claim_status_events sta) + n \<le> length (claim_status_events st) + na"
    and s4: "(\<forall>k. \<not> fails env k) \<Longrightarrow> na = n + (if Q c then 1 else 0)
               \<and> length (claim_status_events sta)
                   = length (claim_status_events st) + (if Q c then 1 else 0)"
    by auto
  let ?r = "foldl step (sta, na) cl"
  from Cons.IH[of sta na]
  have i1: "writes (fst ?r) + na = writes sta + length (filter Q cl) + snd ?r"
    and i2: "na \<le> snd ?r"
    and i5: "snd ?r \<le> na + length (filter Q cl)"
    and i3: "length (claim_status_events (fst ?r)) + na
               \<le> length (claim_status_events sta) + snd ?r"
    and i4: "(\<forall>k. \<not> fails env k) \<Longrightarrow> snd ?r = na + length (filter Q cl)
               \<and> length (claim_status_events (fst ?r))
                   = length (claim_status_events sta) + length (filter Q cl)"
    by auto
  have f: "foldl step (st, n) (c # cl) = ?r" using sa by simp
  show ?case
    unfolding f
  proof (intro conjI impI)
    show "writes (fst ?r) + n = writes st + length (filter Q (c # cl)) + snd ?r"
      using s1 i1 by (cases "Q c") simp_all
    show "n \<le> snd ?r" using s2 i2 by simp
    show "snd ?r \<le> n + length (filter Q (c # cl))"
      using s5 i5 by (cases "Q c") simp_all
    show "length (claim_status_events (fst ?r)) + n \<le> length (claim_status_events st) + snd ?r"
      using s3 i3 by simp
  next
    assume nf: "\<forall>k. \<not> fails env k"
    from s4[OF nf] i4[OF nf]
    show "snd ?r = n + length (filter Q (c # cl))" by (cases "Q c") simp_all
    from s4[OF nf] i4[OF nf]
    show "length (claim_status_events (fst ?r))
            = length (claim_status_events st) + length (filter Q (c # cl))"
      by (cases "Q c") simp_all
  qed
qed

lemma apply277_counts:
  "writes (fst (apply277 env fid cs (st, n) c)) + n
       = writes st + (if True then 1 else 0) + snd (apply277 env fid cs (st, n) c)
     \<and> n \<le> snd (apply277 env fid cs (st, n) c)
     \<and> snd (apply277 env fid cs (st, n) c) \<le> n + (if True then 1 else 0)
     \<and> length (claim_status_events (fst (apply277 env fid cs (st, n) c))) + n
          \<le> length (claim_status_events st) + snd (apply277 env fid cs (st, n) c)
     \<and> ((\<forall>k. \<not> fails env k) \<longrightarrow>
          snd (apply277 env fid cs (st, n) c) = n + (if True then 1 else 0)
          \<and> length (claim_status_events (fst (apply277 env fid cs (st, n) c)))
              = length (claim_status_events st) + (if True then 1 else 0))"
  by (simp add: apply277_eq)

lemma apply835_counts:
  "writes (fst (apply835 env fid p (st, n) c)) + n
       = writes st + (if True then 1 else 0) + snd (apply835 env fid p (st, n) c)
     \<and> n \<le> snd (apply835 env fid p (st, n) c)
     \<and> snd (apply835 env fid p (st, n) c) \<le> n + (if True then 1 else 0)
     \<and> length (claim_status_events (fst (apply835 env fid p (st, n) c))) + n
          \<le> length (claim_status_events st) + snd (apply835 env fid p (st, n) c)
     \<and> ((\<forall>k. \<not> fails env k) \<longrightarrow>
          snd (apply835 env fid p (st, n) c) = n + (if True then 1 else 0)
          \<and> length (claim_status_events (fst (apply835 env fid p (st, n) c)))
              = length (claim_status_events st) + (if True then 1 else 0))"
  by (simp add: apply835_eq)

lemma apply999_counts:
  "writes (fst (apply999 env fid parsed (st, n) c)) + n
       = writes st
         + (if status c = Submitted \<or> (status c = Acknowledged \<and> \<not> accepted parsed) then 1 else 0)
         + snd (apply999 env fid parsed (st, n) c)
     \<and> n \<le> snd (apply999 env fid parsed (st, n) c)
     \<and> snd (apply999 env fid parsed (st, n) c)
          \<le> n + (if status c = Submitted \<or> (status c = Acknowledged \<and> \<not> accepted parsed)
                   then 1 else 0)
     \<and> length (claim_status_events (fst (apply999 env fid parsed (st, n) c))) + n
          \<le> length (claim_status_events st) + snd (apply999 env fid parsed (st, n) c)
     \<and> ((\<forall>k. \<not> fails env k) \<longrightarrow>
          snd (apply999 env fid parsed (st, n) c)
            = n + (if status c = Submitted \<or> (status c = Acknowledged \<and> \<not> accepted parsed)
                   then 1 else 0)
          \<and> length (claim_status_events (fst (apply999 env fid parsed (st, n) c)))
              = length (claim_status_events st)
                + (if status c = Submitted \<or> (status c = Acknowledged \<and> \<not> accepted parsed)
                   then 1 else 0))"
  by (simp add: apply999_eq)

text \<open>
  The loop over the entries of a 277 or an 835: \<open>entry\<close> is one iteration, folding \<open>step\<close>
  over the claims \<open>match\<close> finds for the entry.
\<close>

lemma entries_counts:
  fixes step :: "'e \<Rightarrow> Store \<times> nat \<Rightarrow> ClaimRow \<Rightarrow> Store \<times> nat"
  assumes entry: "\<And>st m u e. entry (st, m, u) e =
                    (fst (foldl (step e) (st, u) (match st e)), m + length (match st e),
                     snd (foldl (step e) (st, u) (match st e)))"
    and step: "\<And>e st n c.
       writes (fst (step e (st, n) c)) + n = writes st + (if True then 1 else 0) + snd (step e (st, n) c)
     \<and> n \<le> snd (step e (st, n) c)
     \<and> snd (step e (st, n) c) \<le> n + (if True then 1 else 0)
     \<and> length (claim_status_events (fst (step e (st, n) c))) + n
          \<le> length (claim_status_events st) + snd (step e (st, n) c)
     \<and> ((\<forall>k. \<not> fails env k) \<longrightarrow>
          snd (step e (st, n) c) = n + (if True then 1 else 0)
          \<and> length (claim_status_events (fst (step e (st, n) c)))
              = length (claim_status_events st) + (if True then 1 else 0))"
  shows "writes (fst (foldl entry (st, m, u) es)) + m + u
           = writes st + fst (snd (foldl entry (st, m, u) es)) + snd (snd (foldl entry (st, m, u) es))
     \<and> snd (snd (foldl entry (st, m, u) es)) + m \<le> fst (snd (foldl entry (st, m, u) es)) + u
     \<and> length (claim_status_events (fst (foldl entry (st, m, u) es))) + u
          \<le> length (claim_status_events st) + snd (snd (foldl entry (st, m, u) es))
     \<and> ((\<forall>k. \<not> fails env k) \<longrightarrow>
          snd (snd (foldl entry (st, m, u) es)) + m = fst (snd (foldl entry (st, m, u) es)) + u
          \<and> length (claim_status_events (fst (foldl entry (st, m, u) es))) + u
              = length (claim_status_events st) + snd (snd (foldl entry (st, m, u) es)))"
proof (induction es arbitrary: st m u)
  case Nil
  then show ?case by simp
next
  case (Cons e es)
  let ?cl = "match st e"
  let ?a = "foldl (step e) (st, u) ?cl"
  from foldl_counts[where step = "step e" and Q = "\<lambda>c. True" and env = env and st = st and n = u
        and cl = ?cl, OF step]
  have a1: "writes (fst ?a) + u = writes st + length ?cl + snd ?a"
    and a2: "u \<le> snd ?a"
    and a5: "snd ?a \<le> u + length ?cl"
    and a3: "length (claim_status_events (fst ?a)) + u \<le> length (claim_status_events st) + snd ?a"
    and a4: "(\<forall>k. \<not> fails env k) \<Longrightarrow> snd ?a = u + length ?cl
              \<and> length (claim_status_events (fst ?a)) = length (claim_status_events st) + length ?cl"
    by auto
  let ?r = "foldl entry (fst ?a, m + length ?cl, snd ?a) es"
  have f: "foldl entry (st, m, u) (e # es) = ?r" by (simp add: entry)
  from Cons.IH[of "fst ?a" "m + length ?cl" "snd ?a"]
  have i1: "writes (fst ?r) + (m + length ?cl) + snd ?a
              = writes (fst ?a) + fst (snd ?r) + snd (snd ?r)"
    and i5: "snd (snd ?r) + (m + length ?cl) \<le> fst (snd ?r) + snd ?a"
    and i3: "length (claim_status_events (fst ?r)) + snd ?a
               \<le> length (claim_status_events (fst ?a)) + snd (snd ?r)"
    and i4: "(\<forall>k. \<not> fails env k) \<Longrightarrow>
               snd (snd ?r) + (m + length ?cl) = fst (snd ?r) + snd ?a
               \<and> length (claim_status_events (fst ?r)) + snd ?a
                   = length (claim_status_events (fst ?a)) + snd (snd ?r)"
    by auto
  show ?case
    unfolding f
  proof (intro conjI impI)
    show "writes (fst ?r) + m + u = writes st + fst (snd ?r) + snd (snd ?r)"
      using a1 i1 by simp
    show "snd (snd ?r) + m \<le> fst (snd ?r) + u"
      using a5 i5 by simp
    show "length (claim_status_events (fst ?r)) + u
            \<le> length (claim_status_events st) + snd (snd ?r)"
      using a3 i3 by simp
  next
    assume nf: "\<forall>k. \<not> fails env k"
    from a4[OF nf] i4[OF nf]
    show "snd (snd ?r) + m = fst (snd ?r) + u" by simp
    from a4[OF nf] i4[OF nf]
    show "length (claim_status_events (fst ?r)) + u
            = length (claim_status_events st) + snd (snd ?r)" by simp
  qed
qed

lemma process277File_counts:
  assumes "parse277 pF content = Inr parsed"
  shows "success (snd (process277File env pF fid content st))
     \<and> error (snd (process277File env pF fid content st)) = None
     \<and> claimsUpdated (snd (process277File env pF fid content st)) \<le> claimsMatched (snd (process277File env pF fid content st))
     \<and> writes (fst (process277File env pF fid content st))
         = writes st + claimsMatched (snd (process277File env pF fid content st))
           + claimsUpdated (snd (process277File env pF fid content st))
     \<and> length (claim_status_events (fst (process277File env pF fid content st)))
         \<le> length (claim_status_events st)
           + claimsUpdated (snd (process277File env pF fid content st))
     \<and> ((\<forall>k. \<not> fails env k) \<longrightarrow>
          claimsUpdated (snd (process277File env pF fid content st))
            = claimsMatched (snd (process277File env pF fid content st))
          \<and> length (claim_status_events (fst (process277File env pF fid content st)))
              = length (claim_status_events st)
                + claimsUpdated (snd (process277File env pF fid content st)))"
proof -
  have entry: "\<And>st m u e. process277Entry env fid (st, m, u) e =
                    (fst (foldl (apply277 env fid e) (st, u) (match277 st e)),
                     m + length (match277 st e),
                     snd (foldl (apply277 env fid e) (st, u) (match277 st e)))"
    by (simp add: process277Entry_def Let_def)
  from entries_counts[where entry = "process277Entry env fid" and step = "apply277 env fid"
        and match = match277 and env = env and st = st and m = 0 and u = 0
        and es = "claimStatuses parsed", OF entry apply277_counts]
  show ?thesis using assms by (simp add: process277File_def Let_def)
qed

lemma process835File_counts:
  assumes "parse835 pI pF content = Inr parsed"
  shows "success (snd (process835File env pI pF fid content st))
     \<and> error (snd (process835File env pI pF fid content st)) = None
     \<and> claimsUpdated (snd (process835File env pI pF fid content st)) \<le> claimsMatched (snd (process835File env pI pF fid content st))
     \<and> writes (fst (process835File env pI pF fid content st))
         = writes st + claimsMatched (snd (process835File env pI pF fid content st))
           + claimsUpdated (snd (process835File env pI pF fid content st))
     \<and> length (claim_status_events (fst (process835File env pI pF fid content st)))
         \<le> length (claim_status_events st)
           + claimsUpdated (snd (process835File env pI pF fid content st))
     \<and> ((\<forall>k. \<not> fails env k) \<longrightarrow>
          claimsUpdated (snd (process835File env pI pF fid content st))
            = claimsMatched (snd (process835File env pI pF fid content st))
          \<and> length (claim_status_events (fst (process835File env pI pF fid content st)))
              = length (claim_status_events st)
                + claimsUpdated (snd (process835File env pI pF fid content st)))"
proof -
  have entry: "\<And>st m u e. process835Entry env fid (st, m, u) e =
                    (fst (foldl (apply835 env fid e) (st, u) (match835 st e)),
                     m + length (match835 st e),
                     snd (foldl (apply835 env fid e) (st, u) (match835 st e)))"
    by (simp add: process835Entry_def Let_def)
  from entries_counts[where entry = "process835Entry env fid" and step = "apply835 env fid"
        and match = match835 and env = env and st = st and m = 0 and u = 0
        and es = "claimPayments parsed", OF entry apply835_counts]
  show ?thesis using assms by (simp add: process835File_def Let_def)
qed

lemma apply999_transition:
  "apply999 env fid parsed =
     transition env (eligible999 parsed)
       (\<lambda>t r. r\<lparr>status := (if accepted parsed then Acknowledged else Rejected),
                 acknowledgment_date := Some t,
                 rejection_reason :=
                   (if accepted parsed then None else Some (statusDescription_999 parsed)),
                 rejection_codes := errorCodes parsed\<rparr>)
       (event999 fid parsed)"
  by (intro ext)
     (simp add: apply999_def transition_def eligible999_def event999_def update_claim_def
        recordStatusEvent_def Let_def num_or_null_def)

lemma apply277_transition:
  "apply277 env fid cs = transition env (\<lambda>c. True) (update277 cs) (event277 fid cs)"
  by (intro ext)
     (simp add: apply277_def transition_def event277_def update_claim_def
        recordStatusEvent_def Let_def num_or_null_def)

lemma apply835_transition:
  "apply835 env fid p = transition env (\<lambda>c. True) (update835 p) (event835 fid p)"
  by (intro ext)
     (simp add: apply835_def transition_def event835_def update_claim_def
        recordStatusEvent_def Let_def num_or_null_def)

lemma transition_eq:
  "transition env elig f ev (st, n) c =
     (if \<not> elig c then (st, n)
      else if fails env (writes st) then (st\<lparr>writes := writes st + 1\<rparr>, n)
      else (st\<lparr>claims := map (\<lambda>r. if claim_id r = claim_id c
                                   then f (now env (writes st)) r else r) (claims st),
               claim_status_events := claim_status_events st @
                 (if fails env (writes st + 1) then [] else [ev c]),
               writes := writes st + 2\<rparr>, n + 1))"
  by (simp add: transition_def)

lemma transition_rows:
  assumes "\<And>t r. claim_id (f t r) = claim_id r"
  shows "\<exists>g. (\<forall>r. claim_id (g r) = claim_id r) \<and>
     claims (fst (transition env elig f ev (st, n) c)) =
       map (\<lambda>r. if claim_id r = claim_id c \<and> elig c then g r else r) (claims st)"
proof (cases "elig c \<and> \<not> fails env (writes st)")
  case True
  then show ?thesis using assms
    by (intro exI[of _ "f (now env (writes st))"]) (simp add: transition_eq)
next
  case False
  then show ?thesis
    by (intro exI[of _ "\<lambda>r. r"]) (auto simp: transition_eq)
qed

lemma transition_counts:
  "writes (fst (transition env elig f ev (st, n) c)) + n
       = writes st + (if elig c then 1 else 0) + snd (transition env elig f ev (st, n) c)
     \<and> n \<le> snd (transition env elig f ev (st, n) c)
     \<and> snd (transition env elig f ev (st, n) c) \<le> n + (if elig c then 1 else 0)
     \<and> length (claim_status_events (fst (transition env elig f ev (st, n) c))) + n
          \<le> length (claim_status_events st) + snd (transition env elig f ev (st, n) c)
     \<and> ((\<forall>k. \<not> fails env k) \<longrightarrow>
          snd (transition env elig f ev (st, n) c) = n + (if elig c then 1 else 0)
          \<and> length (claim_status_events (fst (transition env elig f ev (st, n) c)))
              = length (claim_status_events st) + (if elig c then 1 else 0))"
  by (simp add: transition_eq)

lemma foldl_transition_col:
  assumes "\<And>t r. col (f t r) = col r"
  shows "map col (claims (fst (foldl (transition env elig f ev) (st, n) cl))) = map col (claims st)"
proof (induction cl arbitrary: st n)
  case Nil
  then show ?case by simp
next
  case (Cons c cl)
  obtain sta na where sa: "transition env elig f ev (st, n) c = (sta, na)"
    by (cases "transition env elig f ev (st, n) c")
  have "map col (claims sta) = map col (claims st)"
  proof (cases "elig c \<and> \<not> fails env (writes st)")
    case True
    with sa have "claims sta = map (\<lambda>r. if claim_id r = claim_id c
                                   then f (now env (writes st)) r else r) (claims st)"
      by (auto simp: transition_eq)
    then show ?thesis
      unfolding map_map by (simp add: assms comp_def if_distrib cong: if_cong)
  next
    case False
    with sa show ?thesis by (auto simp: transition_eq split: if_splits)
  qed
  with Cons.IH[of sta na] sa show ?case by simp
qed

lemma foldl_transition_events:
  "\<exists>evs. claim_status_events (fst (foldl (transition env elig f ev) (st, n) cl))
            = claim_status_events st @ evs
        \<and> length evs + n \<le> snd (foldl (transition env elig f ev) (st, n) cl)
        \<and> set evs \<subseteq> ev ` set (filter elig cl)"
proof (induction cl arbitrary: st n)
  case Nil
  then show ?case by simp
next
  case (Cons c cl)
  obtain sta na where sa: "transition env elig f ev (st, n) c = (sta, na)"
    by (cases "transition env elig f ev (st, n) c")
  from sa have a: "\<exists>e0. claim_status_events sta = claim_status_events st @ e0
                     \<and> length e0 + n \<le> na \<and> set e0 \<subseteq> ev ` set (filter elig [c])"
    by (auto simp: transition_eq split: if_splits)
  then obtain e0 where e0: "claim_status_events sta = claim_status_events st @ e0"
    "length e0 + n \<le> na" "set e0 \<subseteq> ev ` set (filter elig [c])" by blast
  from Cons.IH[of sta na] obtain e1 where e1:
    "claim_status_events (fst (foldl (transition env elig f ev) (sta, na) cl))
       = claim_status_events sta @ e1"
    "length e1 + na \<le> snd (foldl (transition env elig f ev) (sta, na) cl)"
    "set e1 \<subseteq> ev ` set (filter elig cl)" by blast
  show ?case
  proof (intro exI[of _ "e0 @ e1"] conjI)
    show "claim_status_events (fst (foldl (transition env elig f ev) (st, n) (c # cl)))
            = claim_status_events st @ e0 @ e1"
      using sa e0(1) e1(1) by simp
    show "length (e0 @ e1) + n \<le> snd (foldl (transition env elig f ev) (st, n) (c # cl))"
      using sa e0(2) e1(2) by simp
    show "set (e0 @ e1) \<subseteq> ev ` set (filter elig (c # cl))"
      using e0(3) e1(3) by (auto split: if_splits)
  qed
qed

lemma foldl_transition_ok:
  "\<forall>k \<ge> writes st. \<not> fails env k \<Longrightarrow>
     claim_status_events (fst (foldl (transition env elig f ev) (st, n) cl))
       = claim_status_events st @ map ev (filter elig cl)
     \<and> snd (foldl (transition env elig f ev) (st, n) cl) = n + length (filter elig cl)
     \<and> writes (fst (foldl (transition env elig f ev) (st, n) cl))
         = writes st + 2 * length (filter elig cl)"
proof (induction cl arbitrary: st n)
  case Nil
  then show ?case by simp
next
  case (Cons c cl)
  show ?case
  proof (cases "elig c")
    case False
    then have "transition env elig f ev (st, n) c = (st, n)" by (simp add: transition_eq)
    with Cons.IH[OF Cons.prems, of n] False show ?thesis by simp
  next
    case True
    let ?sta = "st\<lparr>claims := map (\<lambda>r. if claim_id r = claim_id c
                                   then f (now env (writes st)) r else r) (claims st),
               claim_status_events := claim_status_events st @ [ev c],
               writes := writes st + 2\<rparr>"
    from Cons.prems have "\<not> fails env (writes st)" "\<not> fails env (writes st + 1)" by simp_all
    with True have sa: "transition env elig f ev (st, n) c = (?sta, n + 1)"
      by (simp add: transition_eq)
    have "\<forall>k \<ge> writes ?sta. \<not> fails env k" using Cons.prems by simp
    from Cons.IH[OF this, of "n + 1"] sa True show ?thesis by simp
  qed
qed

lemma foldl_transition_writes_ge:
  "writes st + length (filter elig cl)
     \<le> writes (fst (foldl (transition env elig f ev) (st, n) cl))"
  using foldl_counts[where step = "transition env elig f ev" and Q = elig and env = env
          and st = st and n = n and cl = cl, OF transition_counts]
  by linarith

lemma foldl_transition_updated:
  assumes d: "distinct (map claim_id rows)"
    and idf: "\<And>t r. claim_id (f t r) = claim_id r"
  shows "set cl \<subseteq> set rows \<Longrightarrow> distinct cl \<Longrightarrow> map claim_id (claims st1) = map claim_id rows \<Longrightarrow>
         \<forall>k \<ge> writes st1. \<not> fails env k \<Longrightarrow>
         i < length rows \<Longrightarrow> rows ! i \<in> set cl \<Longrightarrow> elig (rows ! i) \<Longrightarrow>
         \<exists>t. claims (fst (foldl (transition env elig f ev) (st1, n) cl)) ! i = f t (claims st1 ! i)"
proof (induction cl arbitrary: st1 n)
  case Nil
  then show ?case by simp
next
  case (Cons c cl)
  let ?T = "transition env elig f ev"
  let ?sta = "fst (?T (st1, n) c)"
  let ?na = "snd (?T (st1, n) c)"
  have len: "length (claims st1) = length rows"
    using Cons.prems(3) by (metis length_map)
  have idsa: "map claim_id (claims ?sta) = map claim_id rows"
    using foldl_transition_col[where col = claim_id and f = f and env = env and elig = elig
            and ev = ev and st = st1 and n = n and cl = "[c]", OF idf] Cons.prems(3)
    by simp
  have idi: "claim_id (claims st1 ! i) = claim_id (rows ! i)"
    using Cons.prems(3,5) len by (metis nth_map)
  have wge: "writes st1 \<le> writes ?sta"
    using foldl_transition_writes_ge[where st = st1 and n = n and cl = "[c]" and env = env
            and elig = elig and f = f and ev = ev]
    by simp
  then have ok: "\<forall>k \<ge> writes ?sta. \<not> fails env k" using Cons.prems(4) by simp
  have fold_eq: "foldl ?T (st1, n) (c # cl) = foldl ?T (?sta, ?na) cl" by simp
  show ?case
  proof (cases "rows ! i = c")
    case True
    with Cons.prems(7) have ec: "elig c" by simp
    from Cons.prems(4) have "\<not> fails env (writes st1)" by simp
    with ec have "claims ?sta = map (\<lambda>r. if claim_id r = claim_id c
                                   then f (now env (writes st1)) r else r) (claims st1)"
      by (simp add: transition_eq)
    with True idi Cons.prems(5) len
    have a: "claims ?sta ! i = f (now env (writes st1)) (claims st1 ! i)" by simp
    from True Cons.prems(2) have "rows ! i \<notin> set cl" by simp
    with foldl_rows_unchanged[where step = ?T and Q = elig and rows = rows and cl = cl
          and ?st1.0 = ?sta and n = ?na, OF transition_rows[OF idf] d _ idsa]
        Cons.prems(1,5)
    have "claims (fst (foldl ?T (?sta, ?na) cl)) ! i = claims ?sta ! i" by simp
    with a fold_eq show ?thesis by metis
  next
    case False
    with Cons.prems(6) have in_cl: "rows ! i \<in> set cl" by simp
    have c_in: "c \<in> set rows" using Cons.prems(1) by simp
    from foldl_rows_unchanged[where step = ?T and Q = elig and rows = rows and cl = "[c]"
          and ?st1.0 = st1 and n = n, OF transition_rows[OF idf] d _ Cons.prems(3)]
        c_in Cons.prems(5) False
    have b: "claims ?sta ! i = claims st1 ! i" by simp
    from Cons.IH[of ?sta ?na] Cons.prems(1,2) idsa ok Cons.prems(5) in_cl Cons.prems(7)
    obtain t where "claims (fst (foldl ?T (?sta, ?na) cl)) ! i = f t (claims ?sta ! i)"
      by auto
    with b fold_eq show ?thesis by metis
  qed
qed

lemma foldl_transition_last:
  assumes d: "distinct (map claim_id rows)"
    and idf: "\<And>t r. claim_id (f t r) = claim_id r"
    and sub: "set (cl0 @ [c]) \<subseteq> set rows" and dc: "distinct (cl0 @ [c])"
    and ids: "map claim_id (claims st1) = map claim_id rows"
    and ok: "\<forall>k \<ge> writes st1 + length (filter elig cl0). \<not> fails env k"
    and i: "i < length rows" and ri: "rows ! i = c" and ec: "elig c"
  shows "(\<exists>t. claims (fst (foldl (transition env elig f ev) (st1, n) (cl0 @ [c]))) ! i
               = f t (claims st1 ! i))
       \<and> ev c \<in> set (claim_status_events (fst (foldl (transition env elig f ev) (st1, n) (cl0 @ [c]))))"
proof -
  let ?T = "transition env elig f ev"
  let ?sa = "fst (foldl ?T (st1, n) cl0)"
  let ?na = "snd (foldl ?T (st1, n) cl0)"
  have f: "foldl ?T (st1, n) (cl0 @ [c]) = ?T (?sa, ?na) c" by simp
  have w: "writes st1 + length (filter elig cl0) \<le> writes ?sa"
    by (rule foldl_transition_writes_ge)
  then have ok1: "\<not> fails env (writes ?sa)" "\<not> fails env (writes ?sa + 1)"
    using ok by simp_all
  have sub0: "set cl0 \<subseteq> set rows" using sub by simp
  have notin: "rows ! i \<notin> set cl0" using dc ri by simp
  from foldl_rows_unchanged[where step = ?T and Q = elig and rows = rows and cl = cl0
          and ?st1.0 = st1 and n = n, OF transition_rows[OF idf] d sub0 ids] i notin
  have idsa: "map claim_id (claims ?sa) = map claim_id rows"
    and keep: "claims ?sa ! i = claims st1 ! i" by simp_all
  have len: "length (claims ?sa) = length rows" using idsa by (metis length_map)
  have idi: "claim_id (claims ?sa ! i) = claim_id c"
    using idsa i len ri by (metis nth_map)
  have r: "?T (?sa, ?na) c =
      (?sa\<lparr>claims := map (\<lambda>r. if claim_id r = claim_id c
                                   then f (now env (writes ?sa)) r else r) (claims ?sa),
               claim_status_events := claim_status_events ?sa @ [ev c],
               writes := writes ?sa + 2\<rparr>, ?na + 1)"
    using ec ok1 by (simp add: transition_def Let_def)
  show ?thesis
    unfolding f r using idi i len keep by auto
qed

lemma count_by_column:
  assumes "map col rows1 = map col rows2"
  shows "length (filter (\<lambda>r. P (col r)) rows1) = length (filter (\<lambda>r. P (col r)) rows2)"
proof -
  have h: "length (filter (\<lambda>r. P (col r)) rows) = length (filter P (map col rows))" for rows
    by (induction rows) auto
  have "length (filter (\<lambda>r. P (col r)) rows1) = length (filter P (map col rows1))" by (rule h)
  also have "\<dots> = length (filter P (map col rows2))" using assms by simp
  also have "\<dots> = length (filter (\<lambda>r. P (col r)) rows2)" by (rule h[symmetric])
  finally show ?thesis .
qed

lemma foldl_transition_eligible:
  "foldl (transition env elig f ev) acc cl = foldl (transition env elig f ev) acc (filter elig cl)"
proof (induction cl arbitrary: acc)
  case Nil
  then show ?case by simp
next
  case (Cons c cl)
  show ?case
  proof (cases "elig c")
    case True
    then show ?thesis using Cons.IH by simp
  next
    case False
    then have "transition env elig f ev acc c = acc"
      by (simp add: transition_def Let_def)
    with False Cons.IH show ?thesis by simp
  qed
qed

text \<open>
  The loop over the entries of a 277 or an 835 file: each entry is applied to the claims
  \<open>match\<close> finds for it in the store as the entries before it left it.
\<close>

lemma entries_file:
  fixes entry :: "Store \<times> nat \<times> nat \<Rightarrow> 'e \<Rightarrow> Store \<times> nat \<times> nat"
  assumes entry: "\<And>st m u e. entry (st, m, u) e =
                    (fst (foldl (transition env (\<lambda>c. True) (f e) (ev e)) (st, u) (match st e)),
                     m + length (match st e),
                     snd (foldl (transition env (\<lambda>c. True) (f e) (ev e)) (st, u) (match st e)))"
    and idf: "\<And>e t r. claim_id (f e t r) = claim_id r"
    and cnf: "\<And>e t r. control_number (f e t r) = control_number r"
    and msub: "\<And>st e. set (match st e) \<subseteq> set (claims st)"
    and mcn: "\<And>st e. cnE e \<noteq> [] \<Longrightarrow> \<exists>r \<in> set (claims st). control_number r = Some (cnE e) \<Longrightarrow>
                match st e = filter (\<lambda>r. control_number r = Some (cnE e)) (claims st)"
  shows "map claim_id (claims (fst (foldl entry (st, m, u) es))) = map claim_id (claims st)
     \<and> map control_number (claims (fst (foldl entry (st, m, u) es))) = map control_number (claims st)
     \<and> m + sum_list (map (\<lambda>e. length (filter (\<lambda>r. cnE e \<noteq> [] \<and> control_number r = Some (cnE e))
                                         (claims st))) es)
          \<le> fst (snd (foldl entry (st, m, u) es))
     \<and> u \<le> snd (snd (foldl entry (st, m, u) es))
     \<and> (\<exists>evs. claim_status_events (fst (foldl entry (st, m, u) es)) = claim_status_events st @ evs
            \<and> length evs + u \<le> snd (snd (foldl entry (st, m, u) es))
            \<and> (\<forall>x \<in> set evs. \<exists>e \<in> set es. \<exists>r.
                   claim_id r \<in> set (map claim_id (claims st)) \<and> x = ev e r))"
proof (induction es arbitrary: st m u)
  case Nil
  then show ?case by simp
next
  case (Cons e es)
  let ?T = "transition env (\<lambda>c. True) (f e) (ev e)"
  let ?cl = "match st e"
  let ?a = "foldl ?T (st, u) ?cl"
  let ?sa = "fst ?a"
  let ?count = "\<lambda>st e. length (filter (\<lambda>r. cnE e \<noteq> [] \<and> control_number r = Some (cnE e)) (claims st))"
  have ids: "map claim_id (claims ?sa) = map claim_id (claims st)"
    by (rule foldl_transition_col) (rule idf)
  have cns: "map control_number (claims ?sa) = map control_number (claims st)"
    by (rule foldl_transition_col) (rule cnf)
  have cnt: "?count st e \<le> length ?cl"
  proof (cases "cnE e \<noteq> [] \<and> (\<exists>r \<in> set (claims st). control_number r = Some (cnE e))")
    case True
    then show ?thesis using mcn[of e st] by simp
  next
    case False
    then have "filter (\<lambda>r. cnE e \<noteq> [] \<and> control_number r = Some (cnE e)) (claims st) = []"
      by (auto simp: filter_empty_conv)
    then show ?thesis by simp
  qed
  have ule: "u \<le> snd ?a"
    using foldl_counts[where step = ?T and Q = "\<lambda>c. True" and env = env and st = st and n = u
            and cl = ?cl, OF transition_counts] by simp
  obtain e0 where e0: "claim_status_events ?sa = claim_status_events st @ e0"
    "length e0 + u \<le> snd ?a" "set e0 \<subseteq> ev e ` set (filter (\<lambda>c. True) ?cl)"
    using foldl_transition_events[of env "\<lambda>c. True" "f e" "ev e" st u ?cl] by blast
  let ?r = "foldl entry (?sa, m + length ?cl, snd ?a) es"
  have f: "foldl entry (st, m, u) (e # es) = ?r" by (simp add: entry)
  have same: "\<And>e'. ?count ?sa e' = ?count st e'"
    using count_by_column[OF cns, where P = "\<lambda>c. cnE e' \<noteq> [] \<and> c = Some (cnE e')" for e']
    by simp
  from Cons.IH[of ?sa "m + length ?cl" "snd ?a"]
  have i1: "map claim_id (claims (fst ?r)) = map claim_id (claims ?sa)"
    and i2: "map control_number (claims (fst ?r)) = map control_number (claims ?sa)"
    and i3: "m + length ?cl + sum_list (map (?count ?sa) es) \<le> fst (snd ?r)"
    and i4: "snd ?a \<le> snd (snd ?r)"
    and i5: "\<exists>evs. claim_status_events (fst ?r) = claim_status_events ?sa @ evs
            \<and> length evs + snd ?a \<le> snd (snd ?r)
            \<and> (\<forall>x \<in> set evs. \<exists>e \<in> set es. \<exists>r.
                   claim_id r \<in> set (map claim_id (claims ?sa)) \<and> x = ev e r)"
    by auto
  from i5 obtain e1 where e1: "claim_status_events (fst ?r) = claim_status_events ?sa @ e1"
    "length e1 + snd ?a \<le> snd (snd ?r)"
    "\<forall>x \<in> set e1. \<exists>e \<in> set es. \<exists>r. claim_id r \<in> set (map claim_id (claims ?sa)) \<and> x = ev e r"
    by blast
  show ?case
    unfolding f
  proof (intro conjI)
    show "map claim_id (claims (fst ?r)) = map claim_id (claims st)" using i1 ids by simp
    show "map control_number (claims (fst ?r)) = map control_number (claims st)"
      using i2 cns by simp
    show "m + sum_list (map (?count st) (e # es)) \<le> fst (snd ?r)"
      using i3 cnt same by simp
    show "u \<le> snd (snd ?r)" using ule i4 by simp
    show "\<exists>evs. claim_status_events (fst ?r) = claim_status_events st @ evs
            \<and> length evs + u \<le> snd (snd ?r)
            \<and> (\<forall>x \<in> set evs. \<exists>e' \<in> set (e # es). \<exists>r.
                   claim_id r \<in> set (map claim_id (claims st)) \<and> x = ev e' r)"
    proof (intro exI[of _ "e0 @ e1"] conjI ballI)
      show "claim_status_events (fst ?r) = claim_status_events st @ e0 @ e1"
        using e0(1) e1(1) by simp
      show "length (e0 @ e1) + u \<le> snd (snd ?r)" using e0(2) e1(2) by simp
      fix x assume "x \<in> set (e0 @ e1)"
      then consider "x \<in> set e0" | "x \<in> set e1" by auto
      then show "\<exists>e' \<in> set (e # es). \<exists>r. claim_id r \<in> set (map claim_id (claims st)) \<and> x = ev e' r"
      proof cases
        case 1
        with e0(3) obtain r where "r \<in> set ?cl" "x = ev e r" by auto
        with msub[of st e] show ?thesis by auto
      next
        case 2
        with e1(3) ids show ?thesis by auto
      qed
    qed
  qed
qed

lemma entries_last:
  fixes entry :: "Store \<times> nat \<times> nat \<Rightarrow> 'e \<Rightarrow> Store \<times> nat \<times> nat"
  assumes entry: "\<And>st m u e. entry (st, m, u) e =
                    (fst (foldl (transition env (\<lambda>c. True) (f e) (ev e)) (st, u) (match st e)),
                     m + length (match st e),
                     snd (foldl (transition env (\<lambda>c. True) (f e) (ev e)) (st, u) (match st e)))"
    and idf: "\<And>e t r. claim_id (f e t r) = claim_id r"
    and cnf: "\<And>e t r. control_number (f e t r) = control_number r"
    and msub: "\<And>st e. set (match st e) \<subseteq> set (claims st)"
    and mdist: "\<And>st e. distinct (map claim_id (claims st)) \<Longrightarrow> distinct (match st e)"
    and mcn: "\<And>st e. cnE e \<noteq> [] \<Longrightarrow> \<exists>r \<in> set (claims st). control_number r = Some (cnE e) \<Longrightarrow>
                match st e = filter (\<lambda>r. control_number r = Some (cnE e)) (claims st)"
    and d: "distinct (map claim_id (claims st))"
    and cn: "cnE e \<noteq> []"
    and ok: "\<forall>k \<ge> writes st
                  + sum_list (map (\<lambda>e. length (filter (\<lambda>r. cnE e \<noteq> [] \<and> control_number r = Some (cnE e))
                                                (claims st))) es0).
               \<not> fails env k"
    and i: "i < length (claims st)"
    and ci: "control_number (claims st ! i) = Some (cnE e)"
  shows "\<exists>t r. claim_id r = claim_id (claims st ! i)
          \<and> claims (fst (foldl entry (st, 0, 0) (es0 @ [e]))) ! i = f e t r
          \<and> ev e r \<in> set (claim_status_events (fst (foldl entry (st, 0, 0) (es0 @ [e]))))"
proof -
  let ?b = "foldl entry (st, 0, 0) es0"
  let ?sb = "fst ?b"
  let ?T = "transition env (\<lambda>c. True) (f e) (ev e)"
  let ?cl = "match ?sb e"
  let ?r = "foldl ?T (?sb, snd (snd ?b)) ?cl"
  from entries_file[where entry = entry and f = f and ev = ev and match = match and cnE = cnE
         and env = env and st = st and m = 0 and u = 0 and es = es0, OF entry idf cnf msub mcn]
  have ids: "map claim_id (claims ?sb) = map claim_id (claims st)"
    and cns: "map control_number (claims ?sb) = map control_number (claims st)"
    and ml: "sum_list (map (\<lambda>e. length (filter (\<lambda>r. cnE e \<noteq> [] \<and> control_number r = Some (cnE e))
                                         (claims st))) es0) \<le> fst (snd ?b)"
    by auto
  from entries_counts[where entry = entry and step = "\<lambda>e. transition env (\<lambda>c. True) (f e) (ev e)"
         and match = match and env = env and st = st and m = 0 and u = 0 and es = es0,
         OF entry transition_counts]
  have "writes ?sb = writes st + fst (snd ?b) + snd (snd ?b)" by simp
  with ml ok have okb: "\<forall>k \<ge> writes ?sb. \<not> fails env k" by simp
  have db: "distinct (map claim_id (claims ?sb))" using d ids by simp
  have len: "length (claims ?sb) = length (claims st)" using ids by (metis length_map)
  have ib: "i < length (claims ?sb)" using i len by simp
  have cib: "control_number (claims ?sb ! i) = Some (cnE e)"
    using cns ci i len by (metis nth_map)
  have idb: "claim_id (claims ?sb ! i) = claim_id (claims st ! i)"
    using ids i len by (metis nth_map)
  from cib ib have ex: "\<exists>r \<in> set (claims ?sb). control_number r = Some (cnE e)"
    by (metis nth_mem)
  from mcn[OF cn ex] cib ib have inm: "claims ?sb ! i \<in> set ?cl" by simp
  have f: "foldl entry (st, 0, 0) (es0 @ [e]) = (fst ?r, fst (snd ?b) + length ?cl, snd ?r)"
    by (simp add: entry[of ?sb "fst (snd ?b)" "snd (snd ?b)" e, simplified])
  from foldl_transition_updated[where rows = "claims ?sb" and f = "f e" and cl = ?cl
          and ?st1.0 = ?sb and env = env and i = i and elig = "\<lambda>c. True" and ev = "ev e"
          and n = "snd (snd ?b)", OF db idf msub mdist[OF db] refl okb ib inm]
  obtain t where t: "claims (fst ?r) ! i = f e t (claims ?sb ! i)" by auto
  from foldl_transition_ok[OF okb, of "\<lambda>c. True" "f e" "ev e" "snd (snd ?b)" ?cl] inm
  have "ev e (claims ?sb ! i) \<in> set (claim_status_events (fst ?r))" by simp
  with t idb show ?thesis unfolding f by auto
qed

lemma update277_control [simp]: "control_number (update277 cs t r) = control_number r"
  by (simp add: update277_def Let_def split: option.splits)

lemma update835_control [simp]: "control_number (update835 p t r) = control_number r"
  by (simp add: update835_def Let_def)

lemma match835_subset: "set (match835 st p) \<subseteq> set (claims st)"
  by (auto simp: match835_def Let_def select_by_control_number_def select_by_payer_claim_number_def
        split: if_splits)

lemma match835_distinct: "distinct (map claim_id (claims st)) \<Longrightarrow> distinct (match835 st p)"
  by (auto simp: match835_def Let_def select_by_control_number_def select_by_payer_claim_number_def
        distinct_filter_rows)

lemma match835_by_store:
  "patientControlNumber p \<noteq> [] \<Longrightarrow>
     \<exists>r \<in> set (claims st). control_number r = Some (patientControlNumber p) \<Longrightarrow>
     match835 st p = filter (\<lambda>r. control_number r = Some (patientControlNumber p)) (claims st)"
  "patientControlNumber p = []
     \<or> (\<forall>r \<in> set (claims st). control_number r \<noteq> Some (patientControlNumber p)) \<Longrightarrow>
     payerClaimNumber_cp p \<noteq> [] \<Longrightarrow>
     match835 st p = filter (\<lambda>r. payer_claim_number r = Some (payerClaimNumber_cp p)) (claims st)"
  by (auto simp: match835_def Let_def select_by_control_number_def select_by_payer_claim_number_def
        filter_empty_conv)

lemma process277Entry_fold:
  "process277Entry env fid (st, m, u) e =
     (fst (foldl (transition env (\<lambda>c. True) (update277 e) (event277 fid e)) (st, u) (match277 st e)),
      m + length (match277 st e),
      snd (foldl (transition env (\<lambda>c. True) (update277 e) (event277 fid e)) (st, u) (match277 st e)))"
  by (simp add: process277Entry_def Let_def apply277_transition)

lemma process835Entry_fold:
  "process835Entry env fid (st, m, u) e =
     (fst (foldl (transition env (\<lambda>c. True) (update835 e) (event835 fid e)) (st, u) (match835 st e)),
      m + length (match835 st e),
      snd (foldl (transition env (\<lambda>c. True) (update835 e) (event835 fid e)) (st, u) (match835 st e)))"
  by (simp add: process835Entry_def Let_def apply835_transition)

text \<open>One loop over the claims \<open>M\<close> read for an entry, all of them moved.\<close>

lemma claims_loop_run:
  assumes d: "distinct (map claim_id (claims st))"
    and idf: "\<And>t r. claim_id (f t r) = claim_id r"
    and sub: "set M \<subseteq> set (claims st)" and dm: "distinct M"
  shows "writes (fst (foldl (transition env (\<lambda>c. True) f ev) (st, u) M)) + u
           = writes st + length M + snd (foldl (transition env (\<lambda>c. True) f ev) (st, u) M)
     \<and> (\<exists>evs. claim_status_events (fst (foldl (transition env (\<lambda>c. True) f ev) (st, u) M))
                = claim_status_events st @ evs
            \<and> length evs + u \<le> snd (foldl (transition env (\<lambda>c. True) f ev) (st, u) M)
            \<and> set evs \<subseteq> ev ` set M)
     \<and> ((\<forall>k \<ge> writes st. \<not> fails env k) \<longrightarrow>
          snd (foldl (transition env (\<lambda>c. True) f ev) (st, u) M) = u + length M
          \<and> claim_status_events (fst (foldl (transition env (\<lambda>c. True) f ev) (st, u) M))
              = claim_status_events st @ map ev M
          \<and> (\<forall>i < length (claims st). claims st ! i \<in> set M \<longrightarrow>
               (\<exists>t. claims (fst (foldl (transition env (\<lambda>c. True) f ev) (st, u) M)) ! i
                      = f t (claims st ! i))))
     \<and> (\<forall>M0 c. M = M0 @ [c] \<and> (\<forall>k \<ge> writes st + length M0. \<not> fails env k) \<longrightarrow>
          (\<forall>i < length (claims st). claims st ! i = c \<longrightarrow>
             (\<exists>t. claims (fst (foldl (transition env (\<lambda>c. True) f ev) (st, u) M)) ! i = f t c))
          \<and> ev c \<in> set (claim_status_events (fst (foldl (transition env (\<lambda>c. True) f ev) (st, u) M))))"
proof (intro conjI impI allI)
  let ?T = "transition env (\<lambda>c. True) f ev"
  show "writes (fst (foldl ?T (st, u) M)) + u = writes st + length M + snd (foldl ?T (st, u) M)"
    using foldl_counts[where step = ?T and Q = "\<lambda>c. True" and env = env and st = st and n = u
            and cl = M, OF transition_counts] by simp
  show "\<exists>evs. claim_status_events (fst (foldl ?T (st, u) M)) = claim_status_events st @ evs
            \<and> length evs + u \<le> snd (foldl ?T (st, u) M) \<and> set evs \<subseteq> ev ` set M"
    using foldl_transition_events[of env "\<lambda>c. True" f ev st u M] by simp
next
  let ?T = "transition env (\<lambda>c. True) f ev"
  assume ok: "\<forall>k \<ge> writes st. \<not> fails env k"
  from foldl_transition_ok[OF ok, of "\<lambda>c. True" f ev u M]
  show "snd (foldl ?T (st, u) M) = u + length M"
    and "claim_status_events (fst (foldl ?T (st, u) M)) = claim_status_events st @ map ev M"
    by simp_all
  fix i assume "i < length (claims st)" "claims st ! i \<in> set M"
  with foldl_transition_updated[where rows = "claims st" and f = f and cl = M and ?st1.0 = st
         and env = env and i = i and elig = "\<lambda>c. True" and ev = ev and n = u,
         OF d idf sub dm refl ok]
  show "\<exists>t. claims (fst (foldl ?T (st, u) M)) ! i = f t (claims st ! i)" by simp
next
  let ?T = "transition env (\<lambda>c. True) f ev"
  fix M0 c
  assume h: "M = M0 @ [c] \<and> (\<forall>k \<ge> writes st + length M0. \<not> fails env k)"
  then have m: "M = M0 @ [c]" and ok: "\<forall>k \<ge> writes st + length (filter (\<lambda>c. True) M0). \<not> fails env k"
    by simp_all
  { fix i assume i: "i < length (claims st)" and ci: "claims st ! i = c"
    from foldl_transition_last[where rows = "claims st" and f = f and ?cl0.0 = M0 and c = c
           and ?st1.0 = st and elig = "\<lambda>c. True" and env = env and i = i and ev = ev and n = u,
           OF d idf _ _ refl ok i ci] sub dm m ci
    show "\<exists>t. claims (fst (foldl ?T (st, u) M)) ! i = f t c" by auto }
  from sub m have "c \<in> set (claims st)" by simp
  then obtain i where i: "i < length (claims st)" "claims st ! i = c"
    by (auto simp: in_set_conv_nth)
  from foldl_transition_last[where rows = "claims st" and f = f and ?cl0.0 = M0 and c = c
           and ?st1.0 = st and elig = "\<lambda>c. True" and env = env and i = i and ev = ev and n = u,
           OF d idf _ _ refl ok i] sub dm m
  show "ev c \<in> set (claim_status_events (fst (foldl ?T (st, u) M)))" by auto
qed

lemma process277Entry_run:
  assumes d: "distinct (map claim_id (claims st))"
    and h: "(controlNumber cs \<noteq> [] \<and> M \<noteq> []
             \<and> M = filter (\<lambda>r. control_number r = Some (controlNumber cs)) (claims st))
          \<or> ((controlNumber cs = []
               \<or> filter (\<lambda>r. control_number r = Some (controlNumber cs)) (claims st) = [])
              \<and> payerClaimNumber cs = Some p \<and> p \<noteq> []
              \<and> M = filter (\<lambda>r. payer_claim_number r = Some p) (claims st))"
  shows "fst (snd (process277Entry env fid (st, m, u) cs)) = m + length M
     \<and> writes (fst (process277Entry env fid (st, m, u) cs)) + u
         = writes st + length M + snd (snd (process277Entry env fid (st, m, u) cs))
     \<and> (\<exists>evs. claim_status_events (fst (process277Entry env fid (st, m, u) cs))
                = claim_status_events st @ evs
            \<and> length evs + u \<le> snd (snd (process277Entry env fid (st, m, u) cs))
            \<and> set evs \<subseteq> event277 fid cs ` set M)
     \<and> ((\<forall>k \<ge> writes st. \<not> fails env k) \<longrightarrow>
          snd (snd (process277Entry env fid (st, m, u) cs)) = u + length M
          \<and> claim_status_events (fst (process277Entry env fid (st, m, u) cs))
              = claim_status_events st @ map (event277 fid cs) M
          \<and> (\<forall>i < length (claims st). claims st ! i \<in> set M \<longrightarrow>
               (\<exists>t. claims (fst (process277Entry env fid (st, m, u) cs)) ! i
                      = update277 cs t (claims st ! i))))
     \<and> (\<forall>M0 c. M = M0 @ [c] \<and> (\<forall>k \<ge> writes st + length M0. \<not> fails env k) \<longrightarrow>
          (\<forall>i < length (claims st). claims st ! i = c \<longrightarrow>
             (\<exists>t. claims (fst (process277Entry env fid (st, m, u) cs)) ! i = update277 cs t c))
          \<and> event277 fid cs c \<in> set (claim_status_events (fst (process277Entry env fid (st, m, u) cs))))"
proof -
  have mt: "match277 st cs = M"
  proof -
    from h show ?thesis
    proof
      assume a: "controlNumber cs \<noteq> [] \<and> M \<noteq> []
             \<and> M = filter (\<lambda>r. control_number r = Some (controlNumber cs)) (claims st)"
      then have "\<exists>r \<in> set (claims st). control_number r = Some (controlNumber cs)"
        by (auto simp: filter_empty_conv)
      with a match277_by_store(1)[of cs st] show ?thesis by simp
    next
      assume a: "(controlNumber cs = []
               \<or> filter (\<lambda>r. control_number r = Some (controlNumber cs)) (claims st) = [])
              \<and> payerClaimNumber cs = Some p \<and> p \<noteq> []
              \<and> M = filter (\<lambda>r. payer_claim_number r = Some p) (claims st)"
      then have "controlNumber cs = []
                 \<or> (\<forall>r \<in> set (claims st). control_number r \<noteq> Some (controlNumber cs))"
        by (auto simp: filter_empty_conv)
      with a match277_by_store(2)[of cs st p] show ?thesis by simp
    qed
  qed
  have sub: "set M \<subseteq> set (claims st)" using match277_subset[of st cs] mt by simp
  have dm: "distinct M" using match277_distinct[OF d, of cs] mt by simp
  from claims_loop_run[where f = "update277 cs" and ev = "event277 fid cs" and env = env and u = u,
         OF d update277_id sub dm]
  show ?thesis by (simp add: process277Entry_fold mt)
qed

lemma process835Entry_run:
  assumes d: "distinct (map claim_id (claims st))"
    and h: "(patientControlNumber p \<noteq> [] \<and> M \<noteq> []
             \<and> M = filter (\<lambda>r. control_number r = Some (patientControlNumber p)) (claims st))
          \<or> ((patientControlNumber p = []
               \<or> filter (\<lambda>r. control_number r = Some (patientControlNumber p)) (claims st) = [])
              \<and> payerClaimNumber_cp p \<noteq> []
              \<and> M = filter (\<lambda>r. payer_claim_number r = Some (payerClaimNumber_cp p)) (claims st))"
  shows "fst (snd (process835Entry env fid (st, m, u) p)) = m + length M
     \<and> writes (fst (process835Entry env fid (st, m, u) p)) + u
         = writes st + length M + snd (snd (process835Entry env fid (st, m, u) p))
     \<and> (\<exists>evs. claim_status_events (fst (process835Entry env fid (st, m, u) p))
                = claim_status_events st @ evs
            \<and> length evs + u \<le> snd (snd (process835Entry env fid (st, m, u) p))
            \<and> set evs \<subseteq> event835 fid p ` set M)
     \<and> ((\<forall>k \<ge> writes st. \<not> fails env k) \<longrightarrow>
          snd (snd (process835Entry env fid (st, m, u) p)) = u + length M
          \<and> claim_status_events (fst (process835Entry env fid (st, m, u) p))
              = claim_status_events st @ map (event835 fid p) M
          \<and> (\<forall>i < length (claims st). claims st ! i \<in> set M \<longrightarrow>
               (\<exists>t. claims (fst (process835Entry env fid (st, m, u) p)) ! i
                      = update835 p t (claims st ! i))))
     \<and> (\<forall>M0 c. M = M0 @ [c] \<and> (\<forall>k \<ge> writes st + length M0. \<not> fails env k) \<longrightarrow>
          (\<forall>i < length (claims st). claims st ! i = c \<longrightarrow>
             (\<exists>t. claims (fst (process835Entry env fid (st, m, u) p)) ! i = update835 p t c))
          \<and> event835 fid p c \<in> set (claim_status_events (fst (process835Entry env fid (st, m, u) p))))"
proof -
  have mt: "match835 st p = M"
  proof -
    from h show ?thesis
    proof
      assume a: "patientControlNumber p \<noteq> [] \<and> M \<noteq> []
             \<and> M = filter (\<lambda>r. control_number r = Some (patientControlNumber p)) (claims st)"
      then have "\<exists>r \<in> set (claims st). control_number r = Some (patientControlNumber p)"
        by (auto simp: filter_empty_conv)
      with a match835_by_store(1)[of p st] show ?thesis by simp
    next
      assume a: "(patientControlNumber p = []
               \<or> filter (\<lambda>r. control_number r = Some (patientControlNumber p)) (claims st) = [])
              \<and> payerClaimNumber_cp p \<noteq> []
              \<and> M = filter (\<lambda>r. payer_claim_number r = Some (payerClaimNumber_cp p)) (claims st)"
      then have "patientControlNumber p = []
                 \<or> (\<forall>r \<in> set (claims st). control_number r \<noteq> Some (patientControlNumber p))"
        by (auto simp: filter_empty_conv)
      with a match835_by_store(2)[of p st] show ?thesis by simp
    qed
  qed
  have sub: "set M \<subseteq> set (claims st)" using match835_subset[of st p] mt by simp
  have dm: "distinct M" using match835_distinct[OF d, of p] mt by simp
  from claims_loop_run[where f = "update835 p" and ev = "event835 fid p" and env = env and u = u,
         OF d update835_id sub dm]
  show ?thesis by (simp add: process835Entry_fold mt)
qed

lemma process277File_run:
  assumes p: "parse277 pF content = Inr parsed"
    and d: "distinct (map claim_id (claims st))"
  shows "success (snd (process277File env pF fid content st))
     \<and> error (snd (process277File env pF fid content st)) = None
     \<and> map claim_id (claims (fst (process277File env pF fid content st))) = map claim_id (claims st)
     \<and> sum_list (map (\<lambda>e. length (filter (\<lambda>r. controlNumber e \<noteq> []
                                              \<and> control_number r = Some (controlNumber e)) (claims st)))
                   (claimStatuses parsed))
         \<le> claimsMatched (snd (process277File env pF fid content st))
     \<and> claimsUpdated (snd (process277File env pF fid content st))
         \<le> claimsMatched (snd (process277File env pF fid content st))
     \<and> writes (fst (process277File env pF fid content st))
         = writes st + claimsMatched (snd (process277File env pF fid content st))
           + claimsUpdated (snd (process277File env pF fid content st))
     \<and> (\<exists>evs. claim_status_events (fst (process277File env pF fid content st))
                = claim_status_events st @ evs
            \<and> length evs \<le> claimsUpdated (snd (process277File env pF fid content st))
            \<and> (\<forall>x \<in> set evs. \<exists>e \<in> set (claimStatuses parsed). \<exists>r.
                   claim_id r \<in> set (map claim_id (claims st)) \<and> x = event277 fid e r))
     \<and> ((\<forall>k. \<not> fails env k) \<longrightarrow>
          claimsUpdated (snd (process277File env pF fid content st))
            = claimsMatched (snd (process277File env pF fid content st))
          \<and> length (claim_status_events (fst (process277File env pF fid content st)))
              = length (claim_status_events st)
                + claimsUpdated (snd (process277File env pF fid content st)))
     \<and> (\<forall>es0 e. claimStatuses parsed = es0 @ [e] \<and> controlNumber e \<noteq> []
            \<and> (\<forall>k \<ge> writes st
                      + sum_list (map (\<lambda>e. length (filter (\<lambda>r. controlNumber e \<noteq> []
                                                \<and> control_number r = Some (controlNumber e)) (claims st)))
                                   es0).
                   \<not> fails env k) \<longrightarrow>
          (\<forall>i < length (claims st). control_number (claims st ! i) = Some (controlNumber e) \<longrightarrow>
             status (claims (fst (process277File env pF fid content st)) ! i) = claimStatus e
             \<and> (\<exists>r. claim_id r = claim_id (claims st ! i)
                   \<and> event277 fid e r
                       \<in> set (claim_status_events (fst (process277File env pF fid content st))))))"
proof -
  let ?entry = "process277Entry env fid"
  let ?es = "claimStatuses parsed"
  let ?r = "foldl ?entry (st, 0, 0) ?es"
  have pf: "process277File env pF fid content st =
              (fst ?r, \<lparr>success = True, claimsMatched = fst (snd ?r), claimsUpdated = snd (snd ?r),
                        error = None\<rparr>)"
    using p by (simp add: process277File_def Let_def)
  note fl = entries_file[where entry = ?entry and f = update277 and ev = "event277 fid"
         and match = match277 and cnE = controlNumber and env = env and st = st and m = 0 and u = 0
         and es = ?es, OF process277Entry_fold update277_id update277_control match277_subset
         match277_by_store(1), simplified]
  note counts = process277File_counts[OF p, of env fid st]
  have last: "status (claims (fst ?r) ! i) = claimStatus e
             \<and> (\<exists>r. claim_id r = claim_id (claims st ! i)
                   \<and> event277 fid e r \<in> set (claim_status_events (fst ?r)))"
    if es: "claimStatuses parsed = es0 @ [e]" and cn: "controlNumber e \<noteq> []"
      and ok: "\<forall>k \<ge> writes st
                      + sum_list (map (\<lambda>e. length (filter (\<lambda>r. controlNumber e \<noteq> []
                                                \<and> control_number r = Some (controlNumber e)) (claims st)))
                                   es0).
                   \<not> fails env k"
      and i: "i < length (claims st)"
      and ci: "control_number (claims st ! i) = Some (controlNumber e)"
    for es0 e i
  proof -
    from entries_last[where entry = ?entry and f = update277 and ev = "event277 fid"
         and match = match277 and cnE = controlNumber and env = env and st = st and e = e
         and ?es0.0 = es0 and i = i, OF process277Entry_fold update277_id update277_control
         match277_subset match277_distinct match277_by_store(1) d cn ok i ci]
    obtain t r where "claim_id r = claim_id (claims st ! i)"
      "claims (fst (foldl ?entry (st, 0, 0) (es0 @ [e]))) ! i = update277 e t r"
      "event277 fid e r \<in> set (claim_status_events (fst (foldl ?entry (st, 0, 0) (es0 @ [e]))))"
      by blast
    then show ?thesis unfolding es by auto
  qed
  show ?thesis
    unfolding pf using fl counts[unfolded pf] last by simp
qed

lemma process835File_run:
  assumes p: "parse835 pI pF content = Inr parsed"
    and d: "distinct (map claim_id (claims st))"
  shows "success (snd (process835File env pI pF fid content st))
     \<and> error (snd (process835File env pI pF fid content st)) = None
     \<and> map claim_id (claims (fst (process835File env pI pF fid content st))) = map claim_id (claims st)
     \<and> sum_list (map (\<lambda>e. length (filter (\<lambda>r. patientControlNumber e \<noteq> []
                                              \<and> control_number r = Some (patientControlNumber e)) (claims st)))
                   (claimPayments parsed))
         \<le> claimsMatched (snd (process835File env pI pF fid content st))
     \<and> claimsUpdated (snd (process835File env pI pF fid content st))
         \<le> claimsMatched (snd (process835File env pI pF fid content st))
     \<and> writes (fst (process835File env pI pF fid content st))
         = writes st + claimsMatched (snd (process835File env pI pF fid content st))
           + claimsUpdated (snd (process835File env pI pF fid content st))
     \<and> (\<exists>evs. claim_status_events (fst (process835File env pI pF fid content st))
                = claim_status_events st @ evs
            \<and> length evs \<le> claimsUpdated (snd (process835File env pI pF fid content st))
            \<and> (\<forall>x \<in> set evs. \<exists>e \<in> set (claimPayments parsed). \<exists>r.
                   claim_id r \<in> set (map claim_id (claims st)) \<and> x = event835 fid e r))
     \<and> ((\<forall>k. \<not> fails env k) \<longrightarrow>
          claimsUpdated (snd (process835File env pI pF fid content st))
            = claimsMatched (snd (process835File env pI pF fid content st))
          \<and> length (claim_status_events (fst (process835File env pI pF fid content st)))
              = length (claim_status_events st)
                + claimsUpdated (snd (process835File env pI pF fid content st)))
     \<and> (\<forall>es0 e. claimPayments parsed = es0 @ [e] \<and> patientControlNumber e \<noteq> []
            \<and> (\<forall>k \<ge> writes st
                      + sum_list (map (\<lambda>e. length (filter (\<lambda>r. patientControlNumber e \<noteq> []
                                                \<and> control_number r = Some (patientControlNumber e)) (claims st)))
                                   es0).
                   \<not> fails env k) \<longrightarrow>
          (\<forall>i < length (claims st). control_number (claims st ! i) = Some (patientControlNumber e) \<longrightarrow>
             status (claims (fst (process835File env pI pF fid content st)) ! i) = (if gt0 (paidAmount e) then Paid else Denied)
             \<and> (\<exists>r. claim_id r = claim_id (claims st ! i)
                   \<and> event835 fid e r
                       \<in> set (claim_status_events (fst (process835File env pI pF fid content st))))))"
proof -
  let ?entry = "process835Entry env fid"
  let ?es = "claimPayments parsed"
  let ?r = "foldl ?entry (st, 0, 0) ?es"
  have pf: "process835File env pI pF fid content st =
              (fst ?r, \<lparr>success = True, claimsMatched = fst (snd ?r), claimsUpdated = snd (snd ?r),
                        error = None\<rparr>)"
    using p by (simp add: process835File_def Let_def)
  note fl = entries_file[where entry = ?entry and f = update835 and ev = "event835 fid"
         and match = match835 and cnE = patientControlNumber and env = env and st = st and m = 0 and u = 0
         and es = ?es, OF process835Entry_fold update835_id update835_control match835_subset
         match835_by_store(1), simplified]
  note counts = process835File_counts[OF p, of env fid st]
  have last: "status (claims (fst ?r) ! i) = (if gt0 (paidAmount e) then Paid else Denied)
             \<and> (\<exists>r. claim_id r = claim_id (claims st ! i)
                   \<and> event835 fid e r \<in> set (claim_status_events (fst ?r)))"
    if es: "claimPayments parsed = es0 @ [e]" and cn: "patientControlNumber e \<noteq> []"
      and ok: "\<forall>k \<ge> writes st
                      + sum_list (map (\<lambda>e. length (filter (\<lambda>r. patientControlNumber e \<noteq> []
                                                \<and> control_number r = Some (patientControlNumber e)) (claims st)))
                                   es0).
                   \<not> fails env k"
      and i: "i < length (claims st)"
      and ci: "control_number (claims st ! i) = Some (patientControlNumber e)"
    for es0 e i
  proof -
    from entries_last[where entry = ?entry and f = update835 and ev = "event835 fid"
         and match = match835 and cnE = patientControlNumber and env = env and st = st and e = e
         and ?es0.0 = es0 and i = i, OF process835Entry_fold update835_id update835_control
         match835_subset match835_distinct match835_by_store(1) d cn ok i ci]
    obtain t r where "claim_id r = claim_id (claims st ! i)"
      "claims (fst (foldl ?entry (st, 0, 0) (es0 @ [e]))) ! i = update835 e t r"
      "event835 fid e r \<in> set (claim_status_events (fst (foldl ?entry (st, 0, 0) (es0 @ [e]))))"
      by blast
    then show ?thesis unfolding es by auto
  qed
  show ?thesis
    unfolding pf using fl counts[unfolded pf] last by simp
qed

lemma process999File_run:
  assumes p: "parse999 pI content = Inr parsed"
    and d: "distinct (map claim_id (claims st))"
    and M: "M = filter (\<lambda>r. originalControlNumber parsed \<noteq> []
                           \<and> control_number r = Some (originalControlNumber parsed)) (claims st)"
    and E: "E = filter (eligible999 parsed) M"
  shows "success (snd (process999File env pI fid content st))
     \<and> error (snd (process999File env pI fid content st)) = None
     \<and> claimsMatched (snd (process999File env pI fid content st)) = length M
     \<and> map claim_id (claims (fst (process999File env pI fid content st))) = map claim_id (claims st)
     \<and> claimsUpdated (snd (process999File env pI fid content st)) \<le> length E
     \<and> writes (fst (process999File env pI fid content st))
         = writes st + length E + claimsUpdated (snd (process999File env pI fid content st))
     \<and> (\<exists>evs. claim_status_events (fst (process999File env pI fid content st))
                = claim_status_events st @ evs
            \<and> length evs \<le> claimsUpdated (snd (process999File env pI fid content st))
            \<and> set evs \<subseteq> event999 fid parsed ` set E)
     \<and> ((\<forall>k \<ge> writes st. \<not> fails env k) \<longrightarrow>
          claimsUpdated (snd (process999File env pI fid content st)) = length E
          \<and> claim_status_events (fst (process999File env pI fid content st))
              = claim_status_events st @ map (event999 fid parsed) E
          \<and> (\<forall>i < length (claims st). claims st ! i \<in> set E \<longrightarrow>
               status (claims (fst (process999File env pI fid content st)) ! i)
                 = (if accepted parsed then Acknowledged else Rejected)))
     \<and> (\<forall>E0 c. E = E0 @ [c] \<and> (\<forall>k \<ge> writes st + length E0. \<not> fails env k) \<longrightarrow>
          (\<forall>i < length (claims st). claims st ! i = c \<longrightarrow>
             status (claims (fst (process999File env pI fid content st)) ! i)
               = (if accepted parsed then Acknowledged else Rejected))
          \<and> event999 fid parsed c
              \<in> set (claim_status_events (fst (process999File env pI fid content st))))"
proof (cases "originalControlNumber parsed = []")
  case True
  then have "M = []" "E = []" using M E by simp_all
  with p True show ?thesis by (simp add: process999File_def)
next
  case False
  let ?f = "\<lambda>t r. r\<lparr>status := (if accepted parsed then Acknowledged else Rejected),
                 acknowledgment_date := Some t,
                 rejection_reason :=
                   (if accepted parsed then None else Some (statusDescription_999 parsed)),
                 rejection_codes := errorCodes parsed\<rparr>"
  let ?T = "transition env (eligible999 parsed) ?f (event999 fid parsed)"
  let ?r = "foldl ?T (st, 0) M"
  have sel: "select_by_control_number st (originalControlNumber parsed) = M"
    using False M by (simp add: select_by_control_number_def)
  have pf: "process999File env pI fid content st =
              (fst ?r, \<lparr>success = True, claimsMatched = length M, claimsUpdated = snd ?r,
                        error = None\<rparr>)"
    using p False sel by (simp add: process999File_def Let_def apply999_transition)
  have idf: "\<And>t r. claim_id (?f t r) = claim_id r" by simp
  have stf: "\<And>t r. status (?f t r) = (if accepted parsed then Acknowledged else Rejected)" by simp
  have subM: "set M \<subseteq> set (claims st)" using M by auto
  have dM: "distinct M" using M d by (simp add: distinct_filter_rows)
  have subE: "set E \<subseteq> set (claims st)" using E subM by auto
  have dE: "distinct E" using E dM by simp
  have allE: "filter (eligible999 parsed) E = E" using E by simp
  have rE: "?r = foldl ?T (st, 0) E"
    using foldl_transition_eligible[of env "eligible999 parsed" ?f "event999 fid parsed" "(st, 0)" M] E
    by simp
  from foldl_counts[where step = ?T and Q = "eligible999 parsed" and env = env and st = st and n = 0
          and cl = M, OF transition_counts] E
  have c1: "writes (fst ?r) = writes st + length E + snd ?r" and c2: "snd ?r \<le> length E"
    by simp_all
  have ids: "map claim_id (claims (fst ?r)) = map claim_id (claims st)"
    by (rule foldl_transition_col) simp
  from foldl_transition_events[of env "eligible999 parsed" ?f "event999 fid parsed" st 0 M] E
  have evs: "\<exists>evs. claim_status_events (fst ?r) = claim_status_events st @ evs
            \<and> length evs \<le> snd ?r \<and> set evs \<subseteq> event999 fid parsed ` set E"
    by simp
  have okc: "snd ?r = length E
          \<and> claim_status_events (fst ?r) = claim_status_events st @ map (event999 fid parsed) E
          \<and> (\<forall>i < length (claims st). claims st ! i \<in> set E \<longrightarrow>
               status (claims (fst ?r) ! i) = (if accepted parsed then Acknowledged else Rejected))"
    if ok: "\<forall>k \<ge> writes st. \<not> fails env k"
  proof (intro conjI allI impI)
    from foldl_transition_ok[OF ok, of "eligible999 parsed" ?f "event999 fid parsed" 0 M] E
    show "snd ?r = length E"
      and "claim_status_events (fst ?r) = claim_status_events st @ map (event999 fid parsed) E"
      by simp_all
    fix i assume i: "i < length (claims st)" and iE: "claims st ! i \<in> set E"
    then have "claims st ! i \<in> set M" "eligible999 parsed (claims st ! i)" using E by simp_all
    with foldl_transition_updated[where rows = "claims st" and f = ?f and cl = M and ?st1.0 = st
           and env = env and i = i and elig = "eligible999 parsed" and ev = "event999 fid parsed"
           and n = 0, OF d idf subM dM refl ok i]
    obtain t where "claims (fst ?r) ! i = ?f t (claims st ! i)" by blast
    then show "status (claims (fst ?r) ! i) = (if accepted parsed then Acknowledged else Rejected)"
      by simp
  qed
  have lastc: "(\<forall>i < length (claims st). claims st ! i = c \<longrightarrow>
             status (claims (fst ?r) ! i) = (if accepted parsed then Acknowledged else Rejected))
          \<and> event999 fid parsed c \<in> set (claim_status_events (fst ?r))"
    if e: "E = E0 @ [c]" and ok: "\<forall>k \<ge> writes st + length E0. \<not> fails env k" for E0 c
  proof -
    have "c \<in> set E" using e by simp
    then have ec: "eligible999 parsed c" using E by simp
    have "\<forall>x \<in> set E. eligible999 parsed x" using E by simp
    then have "\<forall>x \<in> set E0. eligible999 parsed x" using e by simp
    then have f0: "filter (eligible999 parsed) E0 = E0"
      by (simp add: filter_id_conv)
    then have ok': "\<forall>k \<ge> writes st + length (filter (eligible999 parsed) E0). \<not> fails env k"
      using ok by simp
    have sub': "set (E0 @ [c]) \<subseteq> set (claims st)" using subE e by simp
    have d': "distinct (E0 @ [c])" using dE e by simp
    from sub' obtain j where j: "j < length (claims st)" "claims st ! j = c"
      by (auto simp: in_set_conv_nth)
    have one: "(\<exists>t. claims (fst ?r) ! i = ?f t (claims st ! i))
               \<and> event999 fid parsed c \<in> set (claim_status_events (fst ?r))"
      if "i < length (claims st)" "claims st ! i = c" for i
      using foldl_transition_last[where rows = "claims st" and f = ?f and ?cl0.0 = E0 and c = c
           and ?st1.0 = st and elig = "eligible999 parsed" and env = env and i = i
           and ev = "event999 fid parsed" and n = 0, OF d idf sub' d' refl ok' that ec]
      unfolding rE e by simp
    show ?thesis
    proof (intro conjI allI impI)
      fix i assume "i < length (claims st)" "claims st ! i = c"
      from one[OF this] obtain t where "claims (fst ?r) ! i = ?f t (claims st ! i)" by blast
      then show "status (claims (fst ?r) ! i) = (if accepted parsed then Acknowledged else Rejected)"
        by simp
    next
      from one[OF j] show "event999 fid parsed c \<in> set (claim_status_events (fst ?r))" by simp
    qed
  qed
  show ?thesis
    unfolding pf using c1 c2 ids evs okc lastc by simp
qed

lemma store_submitted_runs:
  "map status (claims (fst (process277File env_second_write_fails parseDecimal ''file1''
                               accepting277 store_submitted))) = [Accepted]"
  "claim_status_events (fst (process277File env_second_write_fails parseDecimal ''file1''
                                accepting277 store_submitted)) = []"
  "snd (process277File env_second_write_fails parseDecimal ''file1'' accepting277 store_submitted)
     = \<lparr>success = True, claimsMatched = 1, claimsUpdated = 1, error = None\<rparr>"
  "snd (process277File env_ok parseDecimal ''file1'' accepting277 store_submitted)
     = \<lparr>success = True, claimsMatched = 1, claimsUpdated = 1, error = None\<rparr>"
  "claim_status_events (fst (process277File env_ok parseDecimal ''file1'' accepting277
                                store_submitted))
     = [\<lparr>ev_claim_id = ''c1'', response_file_id = ''file1'', previous_status = Submitted,
         new_status = Accepted, source = Source277, response_code = Some ''A2'',
         response_description = Some ''Acknowledgment/Acceptance into adjudication'',
         payment_amount = None\<rparr>]"
  "parse277 parseDecimal accepting277 = Inr (projr (parse277 parseDecimal accepting277))"
  by code_simp+



lemma store_two_first_write_fails:
  "distinct (map claim_id (claims store_two))"
  "parse277 parseDecimal two_entries277 = Inr (projr (parse277 parseDecimal two_entries277))"
  "map controlNumber (claimStatuses (projr (parse277 parseDecimal two_entries277)))
     = [''111'', ''222'']"
  "map control_number (claims store_two) = [Some ''111'', Some ''222'']"
  "fails env_first_write_fails 0"
  "map status (claims (fst (process277File env_first_write_fails parseDecimal ''file1''
                               two_entries277 store_two))) = [Submitted, Rejected]"
  "claim_status_events (fst (process277File env_first_write_fails parseDecimal ''file1''
                                two_entries277 store_two))
     = [\<lparr>ev_claim_id = ''c2'', response_file_id = ''file1'', previous_status = Submitted,
         new_status = Rejected, source = Source277, response_code = Some ''A3'',
         response_description = Some ''Acknowledgment/Rejection'', payment_amount = None\<rparr>]"
  "snd (process277File env_first_write_fails parseDecimal ''file1'' two_entries277 store_two)
     = \<lparr>success = True, claimsMatched = 2, claimsUpdated = 1, error = None\<rparr>"
  by code_simp+


lemma mkClaimPayment_status:
  "claimStatus_cp (mkClaimPayment pF clp st) =
     (case CLP_STATUS_CODES (statusCode_cp (mkClaimPayment pF clp st)) of
        Some (d, b) \<Rightarrow> if b then Paid else Denied
      | None \<Rightarrow> Denied)"
  by (simp add: mkClaimPayment_def Let_def)

lemma parseClaimPayments_status:
  "cp \<in> set (parseClaimPayments pI pF segments) \<Longrightarrow>
     claimStatus_cp cp =
       (case CLP_STATUS_CODES (statusCode_cp cp) of
          Some (d, b) \<Rightarrow> if b then Paid else Denied
        | None \<Rightarrow> Denied)"
proof (induction segments)
  case Nil
  then show ?case by simp
next
  case (Cons seg rest)
  show ?case
  proof (cases "segid seg = ''CLP''")
    case True
    with Cons.prems
    have "cp = mkClaimPayment pF seg (scan835 pI pF rest scan835_init)
          \<or> cp \<in> set (parseClaimPayments pI pF rest)" by simp
    then show ?thesis
    proof
      assume "cp = mkClaimPayment pF seg (scan835 pI pF rest scan835_init)"
      then show ?thesis by (simp only: mkClaimPayment_status)
    next
      assume "cp \<in> set (parseClaimPayments pI pF rest)"
      then show ?thesis by (rule Cons.IH)
    qed
  next
    case False
    with Cons.prems have "cp \<in> set (parseClaimPayments pI pF rest)" by simp
    then show ?thesis by (rule Cons.IH)
  qed
qed

lemma apply835_status:
  assumes "\<not> fails env (writes st)" "i < length (claims st)"
    "claim_id (claims st ! i) = claim_id claim"
  shows "status (claims (fst (apply835 env fid payment (st, n) claim)) ! i)
           = (if gt0 (paidAmount payment) then Paid else Denied)"
  using assms by (simp add: apply835_eq)

lemma mixed835_runs:
  "map (\<lambda>cp. (statusCode_cp cp, chargeAmount cp, paidAmount cp, claimStatus_cp cp))
     (claimPayments (projr (parse835 parseDecimal parseDecimal mixed835)))
   = [(''4'', Num 150, Num 120, Denied), (''1'', Num 150, Num 0, Paid)]"
  "map status
     (claims (fst (process835File env_ok parseDecimal parseDecimal ''file2'' mixed835 store_pair)))
   = [Paid, Denied]"
  by code_simp+

text \<open>
  C2 as stated fails for the \<open>claimStatus\<close> field of the parsed entry: an entry with CLP
  status code 4 and \<open>paidAmount = 120\<close> has \<open>claimStatus = denied\<close>, and one with status code
  1, \<open>paidAmount = 0\<close> and \<open>chargeAmount = 150\<close> has \<open>claimStatus = paid\<close>.
\<close>

theorem C2_counterexample:
  "map (\<lambda>cp. (statusCode_cp cp, chargeAmount cp, paidAmount cp, claimStatus_cp cp))
     (claimPayments (projr (parse835 parseDecimal parseDecimal mixed835)))
   = [(''4'', Num 150, Num 120, Denied), (''1'', Num 150, Num 0, Paid)]"
  by (simp add: mixed835_runs)

text \<open>
  C2, amended. The \<open>claimStatus\<close> field of every parsed 835 entry is \<open>paid\<close> exactly when
  the code table marks the entry's CLP status code as paid, and \<open>denied\<close> otherwise,
  whatever the \<open>paidAmount\<close>. The status that the reconciliation engine writes to a matched
  claim for the entry is \<open>paid\<close> if the entry's \<open>paidAmount\<close> is greater than 0 and \<open>denied\<close>
  otherwise, whatever the CLP status code: \<open>paidAmount = 120\<close> gives \<open>paid\<close> and
  \<open>paidAmount = 0\<close> gives \<open>denied\<close>.
\<close>

theorem C2_engine_paid_rule:
  "(\<forall>cp \<in> set (parseClaimPayments pI pF segments).
      claimStatus_cp cp =
        (case CLP_STATUS_CODES (statusCode_cp cp) of
           Some (d, b) \<Rightarrow> if b then Paid else Denied
         | None \<Rightarrow> Denied))
   \<and> (\<not> fails env (writes st) \<longrightarrow>
        (\<forall>i < length (claims st). claim_id (claims st ! i) = claim_id claim \<longrightarrow>
           status (claims (fst (apply835 env fid payment (st, n) claim)) ! i)
             = (if gt0 (paidAmount payment) then Paid else Denied)))
   \<and> gt0 (Num 120) \<and> \<not> gt0 (Num 0)"
  using parseClaimPayments_status apply835_status by auto

theorem C2_engine_paid_rule_witness:
  "map (\<lambda>cp. (statusCode_cp cp, paidAmount cp, claimStatus_cp cp))
     (parseClaimPayments parseDecimal parseDecimal (parseEDISegments mixed835))
   = [(''4'', Num 120, Denied), (''1'', Num 0, Paid)]
   \<and> map status
        (claims (fst (process835File env_ok parseDecimal parseDecimal ''file2'' mixed835 store_pair)))
      = [Paid, Denied]"
proof -
  have a: "map (\<lambda>cp. (statusCode_cp cp, paidAmount cp, claimStatus_cp cp))
     (parseClaimPayments parseDecimal parseDecimal (parseEDISegments mixed835))
   = [(''4'', Num 120, Denied), (''1'', Num 0, Paid)]"
    by code_simp
  show ?thesis
    using C2_engine_paid_rule [where pI = parseDecimal and pF = parseDecimal
            and segments = "parseEDISegments mixed835" and env = env_ok and st = store_pair]
          a mixed835_runs(2)
    by simp
qed

end
